(* ===== verification/Prelude.thy ===== *)
theory Prelude
  imports Main "HOL-Library.Word"
begin

text \<open>
  Shared vocabulary of the libamqp development: the machine types of the C sources
  (\<open>size_t\<close>, \<open>uint8_t\<close>, \<dots>), the result type of code that may fault, the conversion
  between machine words and their bytes (the unions of \<^verbatim>\<open>libamqp_common.h\<close>), and the lemmas
  on lists, words and results that several components use.
\<close>

unbundle bit_operations_syntax

section \<open>Machine types\<close>

type_synonym byte = "8 word"
type_synonym uint16 = "16 word"
type_synonym uint32 = "32 word"
type_synonym uint64 = "64 word"

text \<open>
  Sizes and indices (\<open>size_t\<close>, 64 bits on the supported platforms) are natural numbers.
  Where a sum contains a value the caller chose, the wrap-around of the C addition is
  written out with \<open>size_add\<close>.
\<close>

definition size_add :: "nat \<Rightarrow> nat \<Rightarrow> nat" where
  "size_add a b = (a + b) mod 2 ^ 64"

lemma size_add_small [simp]: "a + b < 2 ^ 64 \<Longrightarrow> size_add a b = a + b"
  by (simp add: size_add_def)

section \<open>Results of code that may fault\<close>

text \<open>
  Every way in which the C code stops without returning is a \<open>fault\<close>: \<open>abort()\<close>, a failed
  \<open>assert\<close>, the \<open>not_implemented\<close> macro of \<^verbatim>\<open>todo.h\<close> (which aborts) and an access outside the memory
  the component owns. \<open>OutOfFuel\<close> is not a behaviour of the C code: it marks a recursion
  that was given too small a depth bound, and theorems show that it does not occur.
\<close>

datatype fault = Aborted | AssertFailed | NotImplemented | BadMemory | OutOfFuel

datatype 'a run = Ret 'a | Fault fault

primrec run_bind :: "'a run \<Rightarrow> ('a \<Rightarrow> 'b run) \<Rightarrow> 'b run" where
  "run_bind (Ret x) f = f x"
| "run_bind (Fault e) f = Fault e"

definition run_assert :: "bool \<Rightarrow> 'a run \<Rightarrow> 'a run" where
  "run_assert P r = (if P then r else Fault AssertFailed)"

named_theorems run_simps \<open>rewriting of results that may fault\<close>

lemma run_bind_Ret_iff [run_simps]:
  "run_bind r f = Ret y \<longleftrightarrow> (\<exists>x. r = Ret x \<and> f x = Ret y)"
  by (cases r) auto

lemma run_bind_Fault_iff [run_simps]:
  "run_bind r f = Fault e \<longleftrightarrow> r = Fault e \<or> (\<exists>x. r = Ret x \<and> f x = Fault e)"
  by (cases r) auto

lemma run_bind_assoc: "run_bind (run_bind r f) g = run_bind r (\<lambda>x. run_bind (f x) g)"
  by (cases r) auto

lemma run_bind_Ret_right [simp]: "run_bind r Ret = r"
  by (cases r) auto

lemma run_bind_cong [fundef_cong]:
  assumes "r = r'" and "\<And>x. r' = Ret x \<Longrightarrow> f x = f' x"
  shows "run_bind r f = run_bind r' f'"
  using assms by (cases r') auto

lemma run_assert_True [simp]: "run_assert True r = r"
  and run_assert_False [simp]: "run_assert False r = Fault AssertFailed"
  by (simp_all add: run_assert_def)

lemma run_assert_Ret_iff [run_simps]: "run_assert P r = Ret x \<longleftrightarrow> P \<and> r = Ret x"
  by (simp add: run_assert_def)

section \<open>Words and their bytes\<close>

text \<open>
  The unions \<open>amqp_two_byte_t\<close>, \<open>amqp_four_byte_t\<close> and \<open>amqp_eight_byte_t\<close> overlay an integer
  with the array \<open>b\<close> of its bytes. The library supports little-endian machines only, so
  \<open>b[i]\<close> is bits \<open>8 * i\<close> to \<open>8 * i + 7\<close> of the integer.
\<close>

definition word_byte :: "'a::len word \<Rightarrow> nat \<Rightarrow> byte" where
  "word_byte w i = ucast (drop_bit (8 * i) w)"

text \<open>The integer whose bytes, least significant first, are the given ones.\<close>

fun word_of_bytes :: "byte list \<Rightarrow> 'a::len word" where
  "word_of_bytes [] = 0"
| "word_of_bytes (b # bs) = ucast b OR push_bit 8 (word_of_bytes bs)"

lemma bit_word_byte:
  "bit (word_byte (w :: 'a::len word) i) n \<longleftrightarrow> n < 8 \<and> bit w (8 * i + n)"
  by (auto simp: word_byte_def bit_simps)

lemma bit_word_of_bytes:
  "bit (word_of_bytes bs :: 'a::len word) n \<longleftrightarrow>
     n < LENGTH('a) \<and> n div 8 < length bs \<and> bit (bs ! (n div 8)) (n mod 8)"
proof (induction bs arbitrary: n)
  case Nil
  then show ?case by simp
next
  case (Cons b bs)
  show ?case
  proof (cases "n < 8")
    case True
    then show ?thesis by (auto simp: bit_simps)
  next
    case False
    then have d: "n div 8 = Suc ((n - 8) div 8)" "n mod 8 = (n - 8) mod 8"
      by (simp_all add: le_div_geq le_mod_geq)
    have "\<not> bit b n" using False by (auto dest: bit_imp_le_length)
    with False show ?thesis
      by (auto simp: bit_simps Cons.IH d)
  qed
qed

text \<open>The bytes of a word, most significant first: the order on the wire.\<close>

definition be_bytes :: "nat \<Rightarrow> 'a::len word \<Rightarrow> byte list" where
  "be_bytes k w = rev (map (word_byte w) [0..<k])"

lemma length_be_bytes [simp]: "length (be_bytes k w) = k"
  by (simp add: be_bytes_def)

text \<open>Reading the bytes of a word back in wire order gives the word.\<close>

lemma word_of_be_bytes:
  fixes w :: "'a::len word"
  assumes "LENGTH('a) = 8 * k"
  shows "word_of_bytes (rev (be_bytes k w)) = w"
proof (rule bit_word_eqI)
  fix n assume "n < LENGTH('a)"
  then have "n div 8 < k" using assms by auto
  then show "bit (word_of_bytes (rev (be_bytes k w)) :: 'a word) n = bit w n"
    using \<open>n < LENGTH('a)\<close> by (simp add: bit_word_of_bytes be_bytes_def bit_word_byte)
qed

lemma be_bytes_1: "be_bytes (Suc 0) w = [word_byte w 0]"
  by (simp add: be_bytes_def)

lemma be_bytes_2: "be_bytes 2 w = [word_byte w 1, word_byte w 0]"
  by (simp add: be_bytes_def upt_rec numeral_eq_Suc)

lemma be_bytes_4: "be_bytes 4 w = [word_byte w 3, word_byte w 2, word_byte w 1, word_byte w 0]"
  by (simp add: be_bytes_def upt_rec numeral_eq_Suc)

lemma be_bytes_8:
  "be_bytes 8 w = [word_byte w 7, word_byte w 6, word_byte w 5, word_byte w 4,
                   word_byte w 3, word_byte w 2, word_byte w 1, word_byte w 0]"
  by (simp add: be_bytes_def upt_rec numeral_eq_Suc)

lemmas be_bytes_unfold = be_bytes_1 be_bytes_2 be_bytes_4 be_bytes_8

lemma unat_2_power: "k < LENGTH('a) \<Longrightarrow> unat (2 ^ k :: 'a::len word) = 2 ^ k"
  using unat_of_nat [of "2 ^ k", where 'a = 'a] by (simp add: power_strict_increasing)

section \<open>Lists\<close>

lemma take_drop_nth_append:
  "i < length xs \<Longrightarrow> take (Suc n) (drop i xs) = xs ! i # take n (drop (Suc i) xs)"
  by (simp add: Cons_nth_drop_Suc [symmetric])

lemma list_all_less:
  "list_all P [0..<n] \<Longrightarrow> i < n \<Longrightarrow> P i"
  by (simp add: list_all_iff)

section \<open>Results up to a set of faults\<close>

text \<open>\<open>run_ok E Q r\<close>: the code returns a result with \<open>Q\<close>, or stops with one of the faults in \<open>E\<close>.\<close>

definition run_ok :: "fault set \<Rightarrow> ('a \<Rightarrow> bool) \<Rightarrow> 'a run \<Rightarrow> bool" where
  "run_ok E Q r \<longleftrightarrow> (case r of Ret x \<Rightarrow> Q x | Fault e \<Rightarrow> e \<in> E)"

lemma run_ok_Ret [simp]: "run_ok E Q (Ret x) = Q x"
  and run_ok_Fault [simp]: "run_ok E Q (Fault e) = (e \<in> E)"
  by (simp_all add: run_ok_def)

lemma run_ok_bind: "run_ok E Q (run_bind r f) = run_ok E (\<lambda>x. run_ok E Q (f x)) r"
  by (cases r) auto

lemma run_ok_assert: "run_ok E Q (run_assert P r) = (if P then run_ok E Q r else AssertFailed \<in> E)"
  by (simp add: run_assert_def)

lemma run_ok_mono: "run_ok E P r \<Longrightarrow> (\<And>x. P x \<Longrightarrow> Q x) \<Longrightarrow> run_ok E Q r"
  by (cases r) auto

lemma run_ok_bindI:
  assumes "run_ok E P r" and "\<And>x. P x \<Longrightarrow> run_ok E Q (f x)"
  shows "run_ok E Q (run_bind r f)"
  using assms by (cases r) auto

lemma run_ok_RetE:
  assumes "run_ok {} P r"
  obtains x where "r = Ret x" and "P x"
  using assms by (cases r) auto

end
