(* ===== verification/Byte_IO.thy ===== *)
theory Byte_IO
  imports Prelude
begin

text \<open>
  The contract between the buffer of \<^verbatim>\<open>Buffer/\<close> and its clients, the codec and the frame
  writers: a byte memory with a write position. \<open>byte_store\<close> is what reading relies on and
  \<open>byte_writer\<close> what writing relies on; the lemmas on runs of bytes are proved here once, and
  the buffer is the interpretation in the theory \<open>Buffer\<close>.
\<close>

fun put_list :: "('b \<Rightarrow> byte \<Rightarrow> 'b run) \<Rightarrow> 'b \<Rightarrow> byte list \<Rightarrow> 'b run" where
  "put_list put b [] = Ret b"
| "put_list put b (c # cs) = run_bind (put b c) (\<lambda>b'. put_list put b' cs)"

fun get_list :: "('b \<Rightarrow> nat \<Rightarrow> byte run) \<Rightarrow> 'b \<Rightarrow> nat \<Rightarrow> nat \<Rightarrow> byte list run" where
  "get_list get b i 0 = Ret []"
| "get_list get b i (Suc n) =
     run_bind (get b i) (\<lambda>c. run_bind (get_list get b (Suc i) n) (\<lambda>cs. Ret (c # cs)))"

lemma put_list_append:
  "put_list put b (xs @ ys) = run_bind (put_list put b xs) (\<lambda>b. put_list put b ys)"
  by (induction xs arbitrary: b) (simp_all add: run_bind_assoc)

text \<open>Overwriting a memory with a run of bytes from a position on.\<close>

definition overlay :: "(nat \<Rightarrow> byte) \<Rightarrow> nat \<Rightarrow> byte list \<Rightarrow> nat \<Rightarrow> byte" where
  "overlay m p cs i = (if p \<le> i \<and> i < p + length cs then cs ! (i - p) else m i)"

lemma overlay_Nil [simp]: "overlay m p [] = m"
  by (rule ext) (auto simp: overlay_def)

lemma overlay_Cons: "overlay m p (c # cs) = overlay (m(p := c)) (Suc p) cs"
proof (rule ext)
  fix i
  show "overlay m p (c # cs) i = overlay (m(p := c)) (Suc p) cs i"
    by (cases "i = p") (auto simp: overlay_def nth_Cons')
qed

lemma map_overlay_append:
  "map (overlay m p cs) [0..<p + length cs] = map m [0..<p] @ cs"
  by (rule nth_equalityI) (auto simp: overlay_def nth_append)

lemma map_overlay_inside:
  assumes "p + length cs \<le> n"
  shows "map (overlay m p cs) [0..<n] =
    take p (map m [0..<n]) @ cs @ drop (p + length cs) (map m [0..<n])"
  using assms by (intro nth_equalityI) (auto simp: overlay_def nth_append min_def)

lemma map_overlay_outside: "n \<le> p \<Longrightarrow> map (overlay m p cs) [0..<n] = map m [0..<n]"
  by (auto simp: overlay_def)

locale byte_store =
  fixes wf :: "'b \<Rightarrow> bool"
    and cap :: "'b \<Rightarrow> nat"
    and mem :: "'b \<Rightarrow> nat \<Rightarrow> byte"
    and get :: "'b \<Rightarrow> nat \<Rightarrow> byte run"
  assumes get_ok: "wf b \<Longrightarrow> i < cap b \<Longrightarrow> get b i = Ret (mem b i)"
begin

lemma get_list_ok:
  "wf b \<Longrightarrow> i + n \<le> cap b \<Longrightarrow> get_list get b i n = Ret (map (mem b) [i..<i + n])"
proof (induction n arbitrary: i)
  case 0
  then show ?case by simp
next
  case (Suc n)
  then have "get_list get b (Suc i) n = Ret (map (mem b) [Suc i..<Suc i + n])"
    by simp
  moreover have "[i..<i + Suc n] = i # [Suc i..<Suc i + n]" by (simp add: upt_conv_Cons)
  ultimately show ?case using Suc.prems get_ok [of b i] by (simp del: upt_Suc)
qed

end

locale byte_writer = byte_store +
  fixes pos :: "'b \<Rightarrow> nat"
    and rest :: "'b \<Rightarrow> 'r"
    and put :: "'b \<Rightarrow> byte \<Rightarrow> 'b run"
  assumes put_ok: "wf b \<Longrightarrow> pos b < cap b \<Longrightarrow>
    \<exists>b'. put b c = Ret b' \<and> wf b' \<and> cap b' = cap b \<and> pos b' = Suc (pos b)
       \<and> mem b' = (mem b)(pos b := c) \<and> rest b' = rest b"
begin

lemma put_list_ok:
  assumes "wf b" and "pos b + length cs \<le> cap b"
  shows "\<exists>b'. put_list put b cs = Ret b' \<and> wf b' \<and> cap b' = cap b
    \<and> pos b' = pos b + length cs \<and> mem b' = overlay (mem b) (pos b) cs \<and> rest b' = rest b"
  using assms
proof (induction cs arbitrary: b)
  case Nil
  then show ?case by simp
next
  case (Cons c cs)
  then obtain b1 where b1: "put b c = Ret b1" "wf b1" "cap b1 = cap b"
    "pos b1 = Suc (pos b)" "mem b1 = (mem b)(pos b := c)" "rest b1 = rest b"
    using put_ok [of b c] by auto
  with Cons.IH [of b1] Cons.prems show ?case by (auto simp del: fun_upd_apply simp: overlay_Cons)
qed

end

end
