(* ===== verification/Misc.thy ===== *)
theory Misc
  imports Prelude
begin

text \<open>
  The \<^verbatim>\<open>Misc\<close> directory of the library: the bit tricks of \<^verbatim>\<open>Misc/Bits.c\<close> and \<^verbatim>\<open>Misc/Bits.h\<close>,
  the masking of passwords in memory (\<^verbatim>\<open>Misc/Obfuscate.c\<close>) and the blocking write loop of
  \<^verbatim>\<open>Misc/IO.c\<close>.
\<close>

section \<open>Bit tricks\<close>

definition amqp_mod_37_bit_position :: "nat list" where
  "amqp_mod_37_bit_position =
    [32, 0, 1, 26, 2, 23, 27, 0, 3, 16, 24, 30, 28, 11, 0, 13, 4,
     7, 17, 0, 25, 22, 31, 15, 29, 10, 12, 6, 0, 21, 14, 9, 5,
     20, 8, 19, 18]"

definition amqp_mod_67_bit_position :: "nat list" where
  "amqp_mod_67_bit_position =
    [0, 0, 1, 39, 2, 15, 40, 23, 3, 12, 16, 59, 41, 19, 24, 54,
     4, 0, 13, 10, 17, 62, 60, 28, 42, 30, 20, 51, 25, 44, 55, 47,
     5, 32, 0, 38, 14, 22, 11, 58, 18, 53, 63, 9, 61, 27, 29, 50,
     43, 46, 31, 37, 21, 57, 52, 8, 26, 49, 45, 36, 56, 7, 48, 35,
     6, 34, 33]"

definition amqp_trailing_zeros_64 :: "uint64 \<Rightarrow> nat" where
  "amqp_trailing_zeros_64 value = amqp_mod_67_bit_position ! unat (value mod 67)"

definition amqp_trailing_zeros_32 :: "uint32 \<Rightarrow> nat" where
  "amqp_trailing_zeros_32 value = amqp_mod_37_bit_position ! unat (value mod 37)"

definition amqp_least_significant_1_bit :: "uint64 \<Rightarrow> uint64" where
  "amqp_least_significant_1_bit value = value AND (- value)"

definition amqp_is_power_of_two :: "uint64 \<Rightarrow> bool" where
  "amqp_is_power_of_two value \<longleftrightarrow> value AND (value - 1) = 0"

definition amqp_next_power_two_32 :: "uint32 \<Rightarrow> uint32" where
  "amqp_next_power_two_32 n0 =
    (let n = n0 - 1;
         n = n OR drop_bit 1 n;
         n = n OR drop_bit 2 n;
         n = n OR drop_bit 4 n;
         n = n OR drop_bit 8 n;
         n = n OR drop_bit 16 n
     in n + 1)"

definition amqp_next_power_two_64 :: "uint64 \<Rightarrow> uint64" where
  "amqp_next_power_two_64 n0 =
    (let n = n0 - 1;
         n = n OR drop_bit 1 n;
         n = n OR drop_bit 2 n;
         n = n OR drop_bit 4 n;
         n = n OR drop_bit 8 n;
         n = n OR drop_bit 16 n;
         n = n OR drop_bit 32 n
     in n + 1)"

text \<open>
  Smearing: after the steps the word has bit \<open>i\<close> exactly when the argument has a bit at \<open>i\<close>
  or up to \<open>m - 1\<close> places above it. Each step doubles \<open>m\<close>.
\<close>

definition smeared :: "nat \<Rightarrow> 'a::len word \<Rightarrow> 'a word \<Rightarrow> bool" where
  "smeared m x r \<longleftrightarrow> (\<forall>i. bit r i \<longleftrightarrow> (\<exists>d<m. bit x (i + d)))"

lemma smeared_1: "smeared 1 x x"
  by (auto simp: smeared_def)

lemma exists_less_double:
  "(\<exists>d<m + m. P (i + d)) \<longleftrightarrow> (\<exists>d<m. P (i + d)) \<or> (\<exists>d<m. P (i + m + d))" for i m :: nat
proof
  assume "\<exists>d<m + m. P (i + d)"
  then obtain d where d: "d < m + m" "P (i + d)" by blast
  show "(\<exists>d<m. P (i + d)) \<or> (\<exists>d<m. P (i + m + d))"
  proof (cases "d < m")
    case True
    with d show ?thesis by blast
  next
    case False
    then have "d - m < m" "i + m + (d - m) = i + d" using d by auto
    then show ?thesis using d by metis
  qed
next
  assume "(\<exists>d<m. P (i + d)) \<or> (\<exists>d<m. P (i + m + d))"
  then show "\<exists>d<m + m. P (i + d)"
    by (metis add.assoc nat_add_left_cancel_less trans_less_add1)
qed

lemma smeared_double: "smeared m x r \<Longrightarrow> smeared (m + m) x (r OR drop_bit m r)"
  unfolding smeared_def exists_less_double [where P = "bit x"]
  by (simp add: bit_simps add.commute add.left_commute)

lemma smeared_full:
  fixes x :: "'a::len word"
  assumes "smeared LENGTH('a) x r"
  shows "bit r i \<longleftrightarrow> (\<exists>j\<ge>i. bit x j)"
proof
  assume "bit r i"
  then show "\<exists>j\<ge>i. bit x j" using assms unfolding smeared_def by (meson le_add1)
next
  assume "\<exists>j\<ge>i. bit x j"
  then obtain j where "j \<ge> i" "bit x j" by blast
  then have "j - i < LENGTH('a)" "bit x (i + (j - i))"
    using bit_imp_le_length [of x j] by auto
  then show "bit r i" using assms unfolding smeared_def by blast
qed

lemma exists_bit_ge_iff:
  fixes x :: "'a::len word"
  shows "(\<exists>j\<ge>i. bit x j) \<longleftrightarrow> 2 ^ i \<le> unat x"
proof -
  have "(\<exists>j\<ge>i. bit x j) \<longleftrightarrow> (\<exists>j. bit (drop_bit i x) j)"
    by (metis bit_drop_bit_eq comp_apply le_add1 le_add_diff_inverse)
  also have "\<dots> \<longleftrightarrow> drop_bit i x \<noteq> 0" by (metis bit_0_eq bit_eqI bot_apply bot_bool_def)
  also have "\<dots> \<longleftrightarrow> unat x div 2 ^ i \<noteq> 0"
    by (metis drop_bit_eq_div unat_drop_bit_eq unsigned_0 unsigned_word_eqI)
  also have "\<dots> \<longleftrightarrow> 2 ^ i \<le> unat x" by (simp add: div_eq_0_iff not_less)
  finally show ?thesis .
qed

lemma smeared_full_mask:
  fixes x :: "'a::len word"
  assumes "smeared LENGTH('a) x r" and "unat x < 2 ^ k" and "\<And>j. unat x < 2 ^ j \<Longrightarrow> k \<le> j"
  shows "r = mask k"
proof (rule bit_word_eqI)
  fix i assume "i < LENGTH('a)"
  have "2 ^ i \<le> unat x \<longleftrightarrow> i < k"
  proof
    assume "2 ^ i \<le> unat x"
    then have "(2::nat) ^ i < 2 ^ k" using assms(2) by linarith
    then show "i < k" by simp
  next
    assume "i < k"
    then show "2 ^ i \<le> unat x" using assms(3) [of i] by force
  qed
  then show "bit r i = bit (mask k :: 'a word) i"
    using \<open>i < LENGTH('a)\<close> smeared_full [OF assms(1)] exists_bit_ge_iff [of i x]
    by (auto simp: bit_mask_iff)
qed

text \<open>
  The smallest power of two that is not below \<open>n\<close>: what rounding \<open>n\<close> up to a power of two
  means.
\<close>

definition least_power_of_two_ge :: "nat \<Rightarrow> nat \<Rightarrow> bool" where
  "least_power_of_two_ge n p \<longleftrightarrow> (\<exists>k. p = 2 ^ k) \<and> n \<le> p \<and> (\<forall>j. n \<le> 2 ^ j \<longrightarrow> p \<le> 2 ^ j)"

lemma smeared_plus_1:
  fixes n :: "'a::len word"
  assumes sm: "smeared LENGTH('a) (n - 1) r" and "n \<noteq> 0" and le: "unat n \<le> 2 ^ (LENGTH('a) - 1)"
  shows "least_power_of_two_ge (unat n) (unat (r + 1))"
proof -
  define k where "k = (LEAST j. unat (n - 1) < 2 ^ j)"
  have ex: "unat (n - 1) < 2 ^ LENGTH('a)" by simp
  have kk: "unat (n - 1) < 2 ^ k" unfolding k_def by (rule LeastI) (rule ex)
  have kmin: "k \<le> j" if "unat (n - 1) < 2 ^ j" for j
    unfolding k_def using that by (rule Least_le)
  have un: "unat (n - 1) = unat n - 1" and pos: "0 < unat n"
    using \<open>n \<noteq> 0\<close> by (simp_all add: unat_minus_one unat_gt_0)
  have "k \<le> LENGTH('a) - 1" by (rule kmin) (use un pos le in linarith)
  then have "k < LENGTH('a)" by (meson diff_less le_less_trans len_gt_0 zero_less_one)
  have "r = mask k" using sm kk kmin by (rule smeared_full_mask)
  then have "r + 1 = 2 ^ k" by (simp add: mask_eq_decr_exp)
  then have eq: "unat (r + 1) = 2 ^ k" using \<open>k < LENGTH('a)\<close> by (simp add: unat_2_power)
  have "2 ^ k \<le> (2::nat) ^ j" if "unat n \<le> 2 ^ j" for j
    using kmin [of j] that un pos by (simp add: power_increasing)
  moreover have "unat n \<le> 2 ^ k" using kk un pos by linarith
  ultimately show ?thesis unfolding least_power_of_two_ge_def eq by blast
qed

lemma next_power_two_32_smeared:
  "\<exists>r. smeared 32 (n - 1) r \<and> amqp_next_power_two_32 n = r + 1"
proof -
  have "smeared (1 + 1) (n - 1) ((n - 1) OR drop_bit 1 (n - 1))" (is "smeared _ _ ?a")
    by (rule smeared_double [OF smeared_1])
  then have "smeared (2 + 2) (n - 1) (?a OR drop_bit 2 ?a)" (is "smeared _ _ ?b")
    by (intro smeared_double) (simp only: one_add_one)
  then have "smeared (4 + 4) (n - 1) (?b OR drop_bit 4 ?b)" (is "smeared _ _ ?c")
    by (intro smeared_double) simp
  then have "smeared (8 + 8) (n - 1) (?c OR drop_bit 8 ?c)" (is "smeared _ _ ?d")
    by (intro smeared_double) simp
  then have "smeared (16 + 16) (n - 1) (?d OR drop_bit 16 ?d)"
    by (intro smeared_double) simp
  then show ?thesis unfolding amqp_next_power_two_32_def Let_def by fastforce
qed

lemma next_power_two_64_smeared:
  "\<exists>r. smeared 64 (n - 1) r \<and> amqp_next_power_two_64 n = r + 1"
proof -
  have "smeared (1 + 1) (n - 1) ((n - 1) OR drop_bit 1 (n - 1))" (is "smeared _ _ ?a")
    by (rule smeared_double [OF smeared_1])
  then have "smeared (2 + 2) (n - 1) (?a OR drop_bit 2 ?a)" (is "smeared _ _ ?b")
    by (intro smeared_double) (simp only: one_add_one)
  then have "smeared (4 + 4) (n - 1) (?b OR drop_bit 4 ?b)" (is "smeared _ _ ?c")
    by (intro smeared_double) simp
  then have "smeared (8 + 8) (n - 1) (?c OR drop_bit 8 ?c)" (is "smeared _ _ ?d")
    by (intro smeared_double) simp
  then have "smeared (16 + 16) (n - 1) (?d OR drop_bit 16 ?d)" (is "smeared _ _ ?e")
    by (intro smeared_double) simp
  then have "smeared (32 + 32) (n - 1) (?e OR drop_bit 32 ?e)"
    by (intro smeared_double) simp
  then show ?thesis unfolding amqp_next_power_two_64_def Let_def by fastforce
qed

lemma next_power_two_64_ok:
  assumes "n \<noteq> 0" and "unat n \<le> 2 ^ 63"
  shows "least_power_of_two_ge (unat n) (unat (amqp_next_power_two_64 n))"
proof -
  obtain r where "smeared 64 (n - 1) r" "amqp_next_power_two_64 n = r + 1"
    using next_power_two_64_smeared by blast
  then show ?thesis using smeared_plus_1 [of n r] assms by simp
qed

lemma next_power_two_32_ok:
  assumes "n \<noteq> 0" and "unat n \<le> 2 ^ 31"
  shows "least_power_of_two_ge (unat n) (unat (amqp_next_power_two_32 n))"
proof -
  obtain r where "smeared 32 (n - 1) r" "amqp_next_power_two_32 n = r + 1"
    using next_power_two_32_smeared by blast
  then show ?thesis using smeared_plus_1 [of n r] assms by simp
qed

lemma nat_and_pred_eq_0_iff:
  fixes n :: nat
  shows "0 < n \<Longrightarrow> n AND (n - 1) = 0 \<longleftrightarrow> (\<exists>i. n = 2 ^ i)"
proof (induction n rule: less_induct)
  case (less n)
  show ?case
  proof (cases "even n")
    case True
    then obtain m where m: "n = 2 * m" "0 < m" using less.prems by auto
    have "n AND (n - 1) = 2 * (m AND (m - 1))"
    proof -
      have "(n - 1) div 2 = m - 1" "odd (n - 1)" using m by auto
      then show ?thesis using m by (subst and_nat_rec) simp
    qed
    moreover have "(\<exists>i. n = 2 ^ i) \<longleftrightarrow> (\<exists>i. m = 2 ^ i)"
    proof
      assume "\<exists>i. n = 2 ^ i"
      then obtain i where i: "n = 2 ^ i" by blast
      then have "i \<noteq> 0" using True m by (cases i) auto
      then show "\<exists>i. m = 2 ^ i" using i m by (cases i) auto
    qed (use m in \<open>metis power_Suc\<close>)
    ultimately show ?thesis using less.IH [of m] m by simp
  next
    case False
    then obtain m where m: "n = 2 * m + 1" by (auto elim: oddE)
    then have "n AND (n - 1) = 2 * m" by (subst and_nat_rec) simp
    moreover have "(\<exists>i. n = 2 ^ i) \<longleftrightarrow> m = 0"
    proof
      assume "\<exists>i. n = 2 ^ i"
      then obtain i where "n = 2 ^ i" by blast
      then show "m = 0" using False m by (cases i) auto
    qed (use m in \<open>auto intro: exI [of _ 0]\<close>)
    ultimately show ?thesis by simp
  qed
qed

lemma is_power_of_two_iff:
  "amqp_is_power_of_two v \<longleftrightarrow> v = 0 \<or> (\<exists>i. unat v = 2 ^ i)"
proof (cases "v = 0")
  case True
  then show ?thesis by (simp add: amqp_is_power_of_two_def)
next
  case False
  have "v AND (v - 1) = 0 \<longleftrightarrow> unat (v AND (v - 1)) = 0" by (simp add: unat_eq_0)
  also have "\<dots> \<longleftrightarrow> unat v AND (unat v - 1) = 0"
    using False by (simp add: unsigned_and_eq unat_minus_one)
  also have "\<dots> \<longleftrightarrow> (\<exists>i. unat v = 2 ^ i)"
    using False by (intro nat_and_pred_eq_0_iff) (simp add: unat_gt_0)
  finally show ?thesis using False by (simp add: amqp_is_power_of_two_def)
qed

lemma trailing_zeros_64_table:
  "list_all (\<lambda>i. amqp_mod_67_bit_position ! (2 ^ i mod 67) = i) [0..<64]"
  by (simp add: upt_rec [of 0] upt_rec [of "Suc 0"] numeral_2_eq_2 [symmetric] amqp_mod_67_bit_position_def)

lemma trailing_zeros_32_table:
  "list_all (\<lambda>i. amqp_mod_37_bit_position ! (2 ^ i mod 37) = i) [0..<32]"
  by (simp add: upt_rec [of 0] upt_rec [of "Suc 0"] numeral_2_eq_2 [symmetric] amqp_mod_37_bit_position_def)

lemma trailing_zeros_64_ok: "i < 64 \<Longrightarrow> amqp_trailing_zeros_64 (2 ^ i) = i"
  using list_all_less [OF trailing_zeros_64_table, of i]
  by (simp add: amqp_trailing_zeros_64_def unat_mod unat_2_power)

lemma trailing_zeros_32_ok: "i < 32 \<Longrightarrow> amqp_trailing_zeros_32 (2 ^ i) = i"
  using list_all_less [OF trailing_zeros_32_table, of i]
  by (simp add: amqp_trailing_zeros_32_def unat_mod unat_2_power)

section \<open>Obfuscation of secrets\<close>

text \<open>
  \<open>amqp_obfuscate\<close> of \<^verbatim>\<open>Misc/Obfuscate.c\<close>: byte \<open>i\<close> is combined with the mask shifted right by
  the rotation count, which runs from 0 to 31 and starts again. The loop of the source is
  the recursion, with \<open>rotate\<close> as its variable \<open>rot\<close>.
\<close>

fun obfuscate_loop :: "uint32 \<Rightarrow> nat \<Rightarrow> byte list \<Rightarrow> byte list" where
  "obfuscate_loop msk rot [] = []"
| "obfuscate_loop msk rot (c # cs) =
     (c XOR ucast (drop_bit rot msk AND 0xff)) # obfuscate_loop msk ((rot + 1) mod 32) cs"

definition amqp_obfuscate :: "uint32 \<Rightarrow> byte list \<Rightarrow> byte list" where
  "amqp_obfuscate msk source = obfuscate_loop msk 0 source"

lemma obfuscate_loop_involution:
  "obfuscate_loop msk r (obfuscate_loop msk r cs) = cs"
  by (induction msk r cs rule: obfuscate_loop.induct) (simp_all add: xor.assoc)

lemma length_obfuscate_loop: "length (obfuscate_loop msk r cs) = length cs"
  by (induction msk r cs rule: obfuscate_loop.induct) simp_all

section \<open>The write loop\<close>

text \<open>
  \<open>write_all\<close> of \<^verbatim>\<open>Misc/IO.c\<close> calls \<open>write\<close> until everything is sent. The operating system is
  a parameter: the list of results its successive calls give. A result is \<open>Wrote k\<close> (the
  call returned \<open>k \<ge> 0\<close>), or \<open>Failed e\<close> (it returned -1 with \<open>errno = e\<close>). The pointer
  \<open>buffer\<close> is an offset from the start of the caller's data, an integer because the source
  adds the return value to it even when that is -1. \<open>sent\<close> records the requests made, as
  pairs of offset and length. \<open>None\<close> is: the results given are used up before the loop ends.
\<close>

datatype write_result = Wrote nat | FailedEINTR | FailedOther

fun write_value :: "write_result \<Rightarrow> int" where
  "write_value (Wrote k) = int k"
| "write_value FailedEINTR = -1"
| "write_value FailedOther = -1"

fun write_all_loop ::
  "write_result list \<Rightarrow> nat \<Rightarrow> int \<Rightarrow> int \<Rightarrow> (int \<times> int) list \<Rightarrow> (int \<times> (int \<times> int) list) option"
where
  "write_all_loop [] n buffer count sent = None"
| "write_all_loop (w # ws) n buffer count sent =
    (let sent = sent @ [(buffer, count)]; written = write_value w
     in if 0 \<le> written \<or> w = FailedEINTR
        then let buffer = buffer + written; count = count - written
             in if count = 0 then Some (int n, sent)
                else write_all_loop ws n buffer count sent
        else Some (written, sent))"

definition write_all :: "write_result list \<Rightarrow> nat \<Rightarrow> (int \<times> (int \<times> int) list) option" where
  "write_all ws n = write_all_loop ws n 0 (int n) []"

text \<open>The offsets the kernel accepted, request by request.\<close>

definition accepted :: "(int \<times> int) list \<Rightarrow> nat list \<Rightarrow> int list" where
  "accepted reqs ks = concat (map2 (\<lambda>r k. map (\<lambda>i. fst r + int i) [0..<k]) reqs ks)"

lemma map_offset_upt: "map (\<lambda>i. int b + int i) [0..<m] = map int [b..<b + m]"
  by (rule nth_equalityI) auto

lemma write_all_loop_partial:
  assumes "sum_list ks = m" and "\<forall>k \<in> set ks. 0 < k" and "ks \<noteq> []"
  shows "\<exists>reqs. write_all_loop (map Wrote ks @ ws) n (int b) (int m) sent = Some (int n, sent @ reqs)
           \<and> accepted reqs ks = map int [b..<b + m]"
  using assms
proof (induction ks arbitrary: b m sent)
  case Nil
  then show ?case by simp
next
  case (Cons k ks)
  show ?case
  proof (cases "ks = []")
    case True
    with Cons.prems show ?thesis
      by (intro exI [of _ "[(int b, int m)]"])
        (simp add: accepted_def Let_def map_offset_upt)
  next
    case False
    define m' where "m' = m - k"
    have m: "m = k + m'" "sum_list ks = m'" using Cons.prems m'_def by auto
    have "0 < m'" using False Cons.prems(2) m(2) by (cases ks) auto
    obtain reqs where reqs: "write_all_loop (map Wrote ks @ ws) n (int (b + k)) (int m')
        (sent @ [(int b, int m)]) = Some (int n, (sent @ [(int b, int m)]) @ reqs)"
      "accepted reqs ks = map int [b + k..<b + k + m']"
      using Cons.IH [of m' "b + k" "sent @ [(int b, int m)]"] Cons.prems False m by auto
    have "write_all_loop (map Wrote (k # ks) @ ws) n (int b) (int m) sent
        = Some (int n, sent @ (int b, int m) # reqs)"
      using reqs(1) \<open>0 < m'\<close> m by (simp add: Let_def)
    moreover have "accepted ((int b, int m) # reqs) (k # ks) = map int [b..<b + m]"
      using reqs(2) m upt_add_eq_append [of b "b + k" m']
      by (simp add: accepted_def map_offset_upt add.assoc)
    ultimately show ?thesis by blast
  qed
qed

end
