(* ===== verification/Buffer.thy ===== *)
theory Buffer
  imports Byte_IO Misc
begin

text \<open>
  The fragmented byte buffer of \<^verbatim>\<open>Buffer/Buffer.c\<close>, \<^verbatim>\<open>Buffer/BufferInlines.h\<close> and
  \<^verbatim>\<open>Buffer/BufferInternal.h\<close>: up to sixteen fragments of 4096 bytes, a write position
  (\<open>limit.size\<close>) and a read position (\<open>limit.index\<close>).

  The array of fragment pointers is a partial map from the fragment number to the bytes of
  the fragment; a fragment the buffer does not own has no entry, and touching it is the
  fault \<open>BadMemory\<close>. The functions the source calls unchecked do no checks here either.
\<close>

section \<open>State\<close>

abbreviation AMQP_BUFFER_MAX_SIZE :: nat where "AMQP_BUFFER_MAX_SIZE \<equiv> 65536"
abbreviation AMQP_BUFFER_FRAGMENT_SIZE :: nat where "AMQP_BUFFER_FRAGMENT_SIZE \<equiv> 4096"
abbreviation AMQP_BUFFER_FRAGMENTS :: nat where "AMQP_BUFFER_FRAGMENTS \<equiv> 16"
abbreviation AMQP_FRAGMENT_INDEX_MASK :: nat where "AMQP_FRAGMENT_INDEX_MASK \<equiv> 4095"
abbreviation AMQP_FRAGMENT_INDEX_BITS :: nat where "AMQP_FRAGMENT_INDEX_BITS \<equiv> 12"

record amqp_buffer_t =
  capacity :: nat
  fragment_size :: nat
  n_fragments :: nat
  fragments :: "nat \<rightharpoonup> (nat \<Rightarrow> byte)"
  limit_index :: nat
  limit_size :: nat
  reference_count :: uint64

section \<open>Operations of Buffer.c and BufferInlines.h\<close>

text \<open>\<open>amqp_malloc\<close> clears the block it returns.\<close>

definition fresh_fragment :: "nat \<Rightarrow> byte" where
  "fresh_fragment = (\<lambda>_. 0)"

fun allocate_fragments :: "(nat \<rightharpoonup> (nat \<Rightarrow> byte)) \<Rightarrow> nat \<Rightarrow> nat \<Rightarrow> (nat \<rightharpoonup> (nat \<Rightarrow> byte))" where
  "allocate_fragments fs block 0 = fs"
| "allocate_fragments fs block (Suc n) =
     allocate_fragments (fs(block \<mapsto> fresh_fragment)) (Suc block) n"

definition amqp_buffer_grow :: "amqp_buffer_t \<Rightarrow> nat \<Rightarrow> nat \<times> amqp_buffer_t" where
  "amqp_buffer_grow buffer new_size0 =
    (let new_size = (if AMQP_BUFFER_MAX_SIZE < new_size0 then AMQP_BUFFER_MAX_SIZE else new_size0)
     in if capacity buffer < new_size
        then let needed_blocks = (new_size - 1) div AMQP_BUFFER_FRAGMENT_SIZE + 1;
                 block = capacity buffer div AMQP_BUFFER_FRAGMENT_SIZE;
                 buffer = buffer\<lparr>fragments :=
                   allocate_fragments (fragments buffer) block (needed_blocks - block),
                   capacity := needed_blocks * AMQP_BUFFER_FRAGMENT_SIZE\<rparr>
             in (capacity buffer, buffer)
        else (capacity buffer, buffer))"

text \<open>
  The pool callback that prepares a buffer. Only the first fragment is owned afterwards:
  pointers left from an earlier use of the pool slot have been freed by the cleanup
  callback. The reference count is the one the slot had.
\<close>

definition amqp_initialize_amqp_buffer_t :: "amqp_buffer_t \<Rightarrow> amqp_buffer_t" where
  "amqp_initialize_amqp_buffer_t buffer =
    buffer\<lparr>fragments := [0 \<mapsto> fresh_fragment],
           capacity := AMQP_BUFFER_FRAGMENT_SIZE,
           fragment_size := AMQP_BUFFER_FRAGMENT_SIZE,
           n_fragments := AMQP_BUFFER_FRAGMENTS,
           limit_index := 0,
           limit_size := 0\<rparr>"

fun free_fragments :: "(nat \<rightharpoonup> (nat \<Rightarrow> byte)) \<Rightarrow> nat \<Rightarrow> nat \<Rightarrow> (nat \<rightharpoonup> (nat \<Rightarrow> byte)) run" where
  "free_fragments fs block 0 = Ret fs"
| "free_fragments fs block (Suc n) =
     (if fs block = None then Fault BadMemory else free_fragments (fs(block := None)) (Suc block) n)"

definition amqp_cleanup_amqp_buffer_t :: "amqp_buffer_t \<Rightarrow> amqp_buffer_t run" where
  "amqp_cleanup_amqp_buffer_t buffer =
    (let actual_blocks = capacity buffer div AMQP_BUFFER_FRAGMENT_SIZE
     in run_bind (free_fragments (fragments buffer) 0 actual_blocks)
          (\<lambda>fs. Ret (buffer\<lparr>fragments := fs\<rparr>)))"

definition amqp_buffer_capacity :: "amqp_buffer_t \<Rightarrow> nat" where
  "amqp_buffer_capacity buffer = capacity buffer"

definition amqp_buffer_available :: "amqp_buffer_t \<Rightarrow> int" where
  "amqp_buffer_available buffer =
     signed_take_bit 31 (int (limit_size buffer) - int (limit_index buffer))"

definition amqp_buffer_check_available :: "amqp_buffer_t \<Rightarrow> nat \<Rightarrow> bool" where
  "amqp_buffer_check_available buffer desired \<longleftrightarrow>
     limit_index buffer < limit_size buffer \<and> desired \<le> limit_size buffer - limit_index buffer"

definition amqp_buffer_check_free_space :: "amqp_buffer_t \<Rightarrow> nat \<Rightarrow> bool" where
  "amqp_buffer_check_free_space buffer needed \<longleftrightarrow>
     size_add (limit_size buffer) needed \<le> capacity buffer"

definition amqp_unchecked_putc_at :: "amqp_buffer_t \<Rightarrow> byte \<Rightarrow> nat \<Rightarrow> amqp_buffer_t run" where
  "amqp_unchecked_putc_at buffer c index =
    (let block = drop_bit AMQP_FRAGMENT_INDEX_BITS index;
         offset = index AND AMQP_FRAGMENT_INDEX_MASK
     in case fragments buffer block of
          None \<Rightarrow> Fault BadMemory
        | Some f \<Rightarrow> Ret (buffer\<lparr>fragments := (fragments buffer)(block \<mapsto> f(offset := c))\<rparr>))"

definition amqp_unchecked_putc :: "amqp_buffer_t \<Rightarrow> byte \<Rightarrow> amqp_buffer_t run" where
  "amqp_unchecked_putc buffer c =
     amqp_unchecked_putc_at (buffer\<lparr>limit_size := limit_size buffer + 1\<rparr>) c (limit_size buffer)"

definition amqp_buffer_putc :: "amqp_buffer_t \<Rightarrow> byte \<Rightarrow> (int \<times> amqp_buffer_t) run" where
  "amqp_buffer_putc buffer c =
    (if limit_size buffer < capacity buffer
     then run_bind (amqp_unchecked_putc buffer c) (\<lambda>buffer. Ret (uint c, buffer))
     else Ret (- 1, buffer))"

definition amqp_buffer_advance_read_index :: "amqp_buffer_t \<Rightarrow> nat \<Rightarrow> amqp_buffer_t" where
  "amqp_buffer_advance_read_index buffer amount =
     buffer\<lparr>limit_index := size_add (limit_index buffer) amount\<rparr>"

definition amqp_buffer_advance_write_point :: "amqp_buffer_t \<Rightarrow> nat \<Rightarrow> amqp_buffer_t" where
  "amqp_buffer_advance_write_point buffer amount =
     buffer\<lparr>limit_size := size_add (limit_size buffer) amount\<rparr>"

definition amqp_buffer_set_write_point :: "amqp_buffer_t \<Rightarrow> nat \<Rightarrow> nat \<times> amqp_buffer_t" where
  "amqp_buffer_set_write_point buffer new_value =
     (limit_size buffer, buffer\<lparr>limit_size := new_value\<rparr>)"

definition amqp_buffer_index :: "amqp_buffer_t \<Rightarrow> nat" where
  "amqp_buffer_index buffer = limit_index buffer"

definition amqp_buffer_size :: "amqp_buffer_t \<Rightarrow> nat" where
  "amqp_buffer_size buffer = limit_size buffer"

definition amqp_buffer_set_write_index :: "amqp_buffer_t \<Rightarrow> nat \<Rightarrow> amqp_buffer_t" where
  "amqp_buffer_set_write_index buffer value = buffer\<lparr>limit_size := value\<rparr>"

definition amqp_buffer_write_point :: "amqp_buffer_t \<Rightarrow> nat" where
  "amqp_buffer_write_point buffer = amqp_buffer_size buffer"

definition amqp_buffer_at_end :: "amqp_buffer_t \<Rightarrow> bool" where
  "amqp_buffer_at_end buffer \<longleftrightarrow> limit_index buffer = limit_size buffer"

definition amqp_buffer_reset_index :: "amqp_buffer_t \<Rightarrow> amqp_buffer_t" where
  "amqp_buffer_reset_index buffer = buffer\<lparr>limit_index := 0\<rparr>"

definition amqp_buffer_reset :: "amqp_buffer_t \<Rightarrow> amqp_buffer_t" where
  "amqp_buffer_reset buffer = buffer\<lparr>limit_index := 0, limit_size := 0\<rparr>"

definition amqp_unchecked_getc_at :: "amqp_buffer_t \<Rightarrow> nat \<Rightarrow> byte run" where
  "amqp_unchecked_getc_at buffer index =
    (let block = drop_bit AMQP_FRAGMENT_INDEX_BITS index;
         offset = index AND AMQP_FRAGMENT_INDEX_MASK
     in case fragments buffer block of None \<Rightarrow> Fault BadMemory | Some f \<Rightarrow> Ret (f offset))"

definition amqp_buffer_unchecked_getc :: "amqp_buffer_t \<Rightarrow> (byte \<times> amqp_buffer_t) run" where
  "amqp_buffer_unchecked_getc buffer =
     run_bind (amqp_unchecked_getc_at buffer (limit_index buffer))
       (\<lambda>c. Ret (c, buffer\<lparr>limit_index := limit_index buffer + 1\<rparr>))"

text \<open>The C function returns -1 at the end of the data.\<close>

definition amqp_buffer_getc :: "amqp_buffer_t \<Rightarrow> (int \<times> amqp_buffer_t) run" where
  "amqp_buffer_getc buffer =
    (if limit_index buffer < limit_size buffer
     then run_bind (amqp_buffer_unchecked_getc buffer) (\<lambda>(c, buffer). Ret (uint c, buffer))
     else Ret (- 1, buffer))"

subsection \<open>Multi-byte integers\<close>

definition amqp_ntoh_8 :: "amqp_buffer_t \<Rightarrow> nat \<Rightarrow> byte run" where
  "amqp_ntoh_8 buffer offset = amqp_unchecked_getc_at buffer offset"

definition amqp_ntoh_16 :: "amqp_buffer_t \<Rightarrow> nat \<Rightarrow> uint16 run" where
  "amqp_ntoh_16 buffer offset =
    run_bind (amqp_unchecked_getc_at buffer offset) (\<lambda>b1.
    run_bind (amqp_unchecked_getc_at buffer (offset + 1)) (\<lambda>b0.
    Ret (word_of_bytes [b0, b1])))"

definition amqp_ntoh_32 :: "amqp_buffer_t \<Rightarrow> nat \<Rightarrow> uint32 run" where
  "amqp_ntoh_32 buffer offset =
    run_bind (amqp_unchecked_getc_at buffer offset) (\<lambda>b3.
    run_bind (amqp_unchecked_getc_at buffer (offset + 1)) (\<lambda>b2.
    run_bind (amqp_unchecked_getc_at buffer (offset + 2)) (\<lambda>b1.
    run_bind (amqp_unchecked_getc_at buffer (offset + 3)) (\<lambda>b0.
    Ret (word_of_bytes [b0, b1, b2, b3])))))"

definition amqp_ntoh_64 :: "amqp_buffer_t \<Rightarrow> nat \<Rightarrow> uint64 run" where
  "amqp_ntoh_64 buffer offset =
    run_bind (amqp_unchecked_getc_at buffer offset) (\<lambda>b7.
    run_bind (amqp_unchecked_getc_at buffer (offset + 1)) (\<lambda>b6.
    run_bind (amqp_unchecked_getc_at buffer (offset + 2)) (\<lambda>b5.
    run_bind (amqp_unchecked_getc_at buffer (offset + 3)) (\<lambda>b4.
    run_bind (amqp_unchecked_getc_at buffer (offset + 4)) (\<lambda>b3.
    run_bind (amqp_unchecked_getc_at buffer (offset + 5)) (\<lambda>b2.
    run_bind (amqp_unchecked_getc_at buffer (offset + 6)) (\<lambda>b1.
    run_bind (amqp_unchecked_getc_at buffer (offset + 7)) (\<lambda>b0.
    Ret (word_of_bytes [b0, b1, b2, b3, b4, b5, b6, b7])))))))))"

definition amqp_hton_16 :: "amqp_buffer_t \<Rightarrow> uint16 \<Rightarrow> amqp_buffer_t run" where
  "amqp_hton_16 buffer value =
    run_bind (amqp_unchecked_putc buffer (word_byte value 1)) (\<lambda>buffer.
    amqp_unchecked_putc buffer (word_byte value 0))"

definition amqp_hton_32 :: "amqp_buffer_t \<Rightarrow> uint32 \<Rightarrow> amqp_buffer_t run" where
  "amqp_hton_32 buffer value =
    run_bind (amqp_unchecked_putc buffer (word_byte value 3)) (\<lambda>buffer.
    run_bind (amqp_unchecked_putc buffer (word_byte value 2)) (\<lambda>buffer.
    run_bind (amqp_unchecked_putc buffer (word_byte value 1)) (\<lambda>buffer.
    amqp_unchecked_putc buffer (word_byte value 0))))"

definition amqp_hton_64 :: "amqp_buffer_t \<Rightarrow> uint64 \<Rightarrow> amqp_buffer_t run" where
  "amqp_hton_64 buffer value =
    run_bind (amqp_unchecked_putc buffer (word_byte value 7)) (\<lambda>buffer.
    run_bind (amqp_unchecked_putc buffer (word_byte value 6)) (\<lambda>buffer.
    run_bind (amqp_unchecked_putc buffer (word_byte value 5)) (\<lambda>buffer.
    run_bind (amqp_unchecked_putc buffer (word_byte value 4)) (\<lambda>buffer.
    run_bind (amqp_unchecked_putc buffer (word_byte value 3)) (\<lambda>buffer.
    run_bind (amqp_unchecked_putc buffer (word_byte value 2)) (\<lambda>buffer.
    run_bind (amqp_unchecked_putc buffer (word_byte value 1)) (\<lambda>buffer.
    amqp_unchecked_putc buffer (word_byte value 0))))))))"

definition amqp_buffer_read_uint32 :: "amqp_buffer_t \<Rightarrow> nat \<Rightarrow> uint32 run" where
  "amqp_buffer_read_uint32 buffer offset = amqp_ntoh_32 buffer offset"

definition amqp_buffer_read_uint16 :: "amqp_buffer_t \<Rightarrow> nat \<Rightarrow> uint16 run" where
  "amqp_buffer_read_uint16 buffer offset = amqp_ntoh_16 buffer offset"

definition amqp_buffer_read_uint8 :: "amqp_buffer_t \<Rightarrow> nat \<Rightarrow> byte run" where
  "amqp_buffer_read_uint8 buffer offset = amqp_unchecked_getc_at buffer offset"

definition amqp_buffer_write_uint32 :: "amqp_buffer_t \<Rightarrow> uint32 \<Rightarrow> amqp_buffer_t run" where
  "amqp_buffer_write_uint32 buffer value = amqp_hton_32 buffer value"

definition amqp_buffer_write_uint16 :: "amqp_buffer_t \<Rightarrow> uint16 \<Rightarrow> amqp_buffer_t run" where
  "amqp_buffer_write_uint16 buffer value = amqp_hton_16 buffer value"

definition amqp_buffer_write_uint8 :: "amqp_buffer_t \<Rightarrow> byte \<Rightarrow> amqp_buffer_t run" where
  "amqp_buffer_write_uint8 buffer value = amqp_unchecked_putc buffer value"

subsection \<open>Runs of bytes\<close>

fun put_bytes :: "amqp_buffer_t \<Rightarrow> byte list \<Rightarrow> amqp_buffer_t run" where
  "put_bytes buffer [] = Ret buffer"
| "put_bytes buffer (c # cs) =
     run_bind (amqp_buffer_putc buffer c) (\<lambda>(_, buffer). put_bytes buffer cs)"

definition amqp_buffer_puts :: "amqp_buffer_t \<Rightarrow> byte list \<Rightarrow> (nat \<times> amqp_buffer_t) run" where
  "amqp_buffer_puts buffer source =
    (let n = length source
     in if capacity buffer \<le> size_add (limit_size buffer) n
        then Ret (0, buffer)
        else run_bind (put_bytes buffer source) (\<lambda>buffer. Ret (n, buffer)))"

definition amqp_buffer_backup :: "amqp_buffer_t \<Rightarrow> nat \<Rightarrow> amqp_buffer_t run" where
  "amqp_buffer_backup buffer amount =
     run_assert (amount \<le> limit_size buffer)
       (Ret (buffer\<lparr>limit_size := limit_size buffer - amount\<rparr>))"

fun copy_bytes_from :: "amqp_buffer_t \<Rightarrow> amqp_buffer_t \<Rightarrow> nat \<Rightarrow> nat \<Rightarrow> amqp_buffer_t run" where
  "copy_bytes_from dest source i 0 = Ret dest"
| "copy_bytes_from dest source i (Suc n) =
     run_bind (amqp_unchecked_getc_at source i) (\<lambda>c.
     run_bind (amqp_unchecked_putc dest c) (\<lambda>dest. copy_bytes_from dest source (Suc i) n))"

definition amqp_buffer_put_buffer_contents ::
  "amqp_buffer_t \<Rightarrow> amqp_buffer_t \<Rightarrow> (nat \<times> amqp_buffer_t) run" where
  "amqp_buffer_put_buffer_contents dest source =
     run_assert (limit_size source \<le> capacity dest)
       (run_bind (copy_bytes_from dest source 0 (limit_size source))
          (\<lambda>dest. Ret (limit_size source, dest)))"

text \<open>The result -1 of the source is the largest \<open>uint32_t\<close>.\<close>

definition amqp_buffer_read_size_field :: "amqp_buffer_t \<Rightarrow> nat \<Rightarrow> (uint32 \<times> amqp_buffer_t) run" where
  "amqp_buffer_read_size_field buffer width =
    (if width = 4 then
       (if \<not> amqp_buffer_check_available buffer width then Ret (- 1, buffer)
        else
          run_bind (amqp_buffer_unchecked_getc buffer) (\<lambda>(c, buffer). let result = ucast c in
          run_bind (amqp_buffer_unchecked_getc buffer) (\<lambda>(c, buffer). let result = push_bit 8 result OR ucast c in
          run_bind (amqp_buffer_unchecked_getc buffer) (\<lambda>(c, buffer). let result = push_bit 8 result OR ucast c in
          run_bind (amqp_buffer_unchecked_getc buffer) (\<lambda>(c, buffer). let result = push_bit 8 result OR ucast c in
          Ret (result, buffer))))))
     else if width = 1 then
       run_bind (amqp_buffer_getc buffer) (\<lambda>(c, buffer). Ret (word_of_int c, buffer))
     else Fault Aborted)"

subsection \<open>Scatter and gather\<close>

text \<open>
  An entry of the \<open>io_vectors\<close> array: the fragment and the offset in it that \<open>iov_base\<close>
  points at, and \<open>iov_len\<close>. Storing past the last of the sixteen entries is \<open>BadMemory\<close>.
\<close>

type_synonym iovec = "nat \<times> nat \<times> nat"

function fill_io_vec_loop :: "nat \<Rightarrow> nat \<Rightarrow> iovec list \<Rightarrow> iovec list" where
  "fill_io_vec_loop n block io_vectors =
    (if 0 < n
     then let block = block + 1;
              available = (if AMQP_BUFFER_FRAGMENT_SIZE < n then AMQP_BUFFER_FRAGMENT_SIZE else n)
          in fill_io_vec_loop (n - available) block (io_vectors @ [(block, 0, available)])
     else io_vectors)"
  by pat_completeness auto
termination
  by (relation "measure (\<lambda>(n, _, _). n)") auto

definition amqp_buffer_fill_io_vec :: "nat \<Rightarrow> nat \<Rightarrow> nat \<Rightarrow> iovec list run" where
  "amqp_buffer_fill_io_vec n block offset =
    (let available = AMQP_BUFFER_FRAGMENT_SIZE - offset;
         io_vectors = (if n \<le> available then [(block, offset, n)]
                       else fill_io_vec_loop (n - available) block [(block, offset, available)])
     in if length io_vectors \<le> AMQP_BUFFER_FRAGMENTS then Ret io_vectors else Fault BadMemory)"

definition amqp_buffer_write_io_vec :: "amqp_buffer_t \<Rightarrow> nat \<Rightarrow> iovec list run" where
  "amqp_buffer_write_io_vec buffer n =
    (let block = drop_bit AMQP_FRAGMENT_INDEX_BITS (limit_size buffer);
         offset = limit_size buffer AND AMQP_FRAGMENT_INDEX_MASK
     in run_assert (n \<le> capacity buffer - limit_size buffer)
          (amqp_buffer_fill_io_vec n block offset))"

definition amqp_buffer_read_io_vec :: "amqp_buffer_t \<Rightarrow> iovec list run" where
  "amqp_buffer_read_io_vec buffer =
    (let block = drop_bit AMQP_FRAGMENT_INDEX_BITS (limit_index buffer);
         offset = limit_index buffer AND AMQP_FRAGMENT_INDEX_MASK;
         n = limit_size buffer - limit_index buffer
     in run_assert (n \<le> capacity buffer - limit_index buffer)
          (amqp_buffer_fill_io_vec n block offset))"

text \<open>\<open>memcpy\<close> out of one fragment.\<close>

definition fragment_slice :: "amqp_buffer_t \<Rightarrow> nat \<Rightarrow> nat \<Rightarrow> nat \<Rightarrow> byte list run" where
  "fragment_slice buffer block offset n =
    (case fragments buffer block of
       None \<Rightarrow> Fault BadMemory
     | Some f \<Rightarrow> if offset + n \<le> AMQP_BUFFER_FRAGMENT_SIZE
                 then Ret (map f [offset..<offset + n]) else Fault BadMemory)"

function block_copy_loop :: "amqp_buffer_t \<Rightarrow> nat \<Rightarrow> nat \<Rightarrow> byte list \<Rightarrow> (nat \<times> nat \<times> byte list) run" where
  "block_copy_loop buffer block n destination =
    (if AMQP_BUFFER_FRAGMENT_SIZE < n
     then let block = block + 1
          in run_bind (fragment_slice buffer block 0 AMQP_BUFFER_FRAGMENT_SIZE) (\<lambda>bs.
             block_copy_loop buffer block (n - AMQP_BUFFER_FRAGMENT_SIZE) (destination @ bs))
     else Ret (block, n, destination))"
  by pat_completeness auto
termination
  by (relation "measure (\<lambda>(_, _, n, _). n)") auto

text \<open>The bytes written to \<open>destination\<close>. The last copy of the source uses \<open>fragments[block]\<close>.\<close>

definition amqp_buffer_block_copy :: "amqp_buffer_t \<Rightarrow> nat \<Rightarrow> nat \<Rightarrow> byte list run" where
  "amqp_buffer_block_copy buffer start n =
    (let block = drop_bit AMQP_FRAGMENT_INDEX_BITS start;
         offset = start AND AMQP_FRAGMENT_INDEX_MASK;
         first_fragment_size = AMQP_BUFFER_FRAGMENT_SIZE - offset
     in if n \<le> first_fragment_size then fragment_slice buffer block offset n
        else run_bind (fragment_slice buffer block offset first_fragment_size) (\<lambda>destination.
             run_bind (block_copy_loop buffer block (n - first_fragment_size) destination)
               (\<lambda>(block, n, destination).
                  if 0 < n
                  then run_bind (fragment_slice buffer block 0 n) (\<lambda>bs. Ret (destination @ bs))
                  else Ret destination)))"

definition amqp_buffer_reference :: "amqp_buffer_t \<Rightarrow> amqp_buffer_t" where
  "amqp_buffer_reference buffer = buffer\<lparr>reference_count := reference_count buffer + 1\<rparr>"

definition amqp_buffer_reference_count :: "amqp_buffer_t \<Rightarrow> uint64" where
  "amqp_buffer_reference_count buffer = reference_count buffer"

definition amqp_buffer_release :: "amqp_buffer_t \<Rightarrow> uint64 \<times> amqp_buffer_t" where
  "amqp_buffer_release buffer =
    (let buffer = buffer\<lparr>reference_count := reference_count buffer - 1\<rparr>
     in (reference_count buffer, buffer))"

section \<open>Invariant and abstraction\<close>

text \<open>
  A buffer owns the fragments its capacity counts, and the data ends inside them. The
  abstraction of a buffer is its memory, byte by byte, the data written so far, and the
  part of the data that is still to be read.
\<close>

definition buffer_ok :: "amqp_buffer_t \<Rightarrow> bool" where
  "buffer_ok b \<longleftrightarrow>
    (let k = capacity b div AMQP_BUFFER_FRAGMENT_SIZE
     in 1 \<le> k \<and> k \<le> AMQP_BUFFER_FRAGMENTS \<and> capacity b = k * AMQP_BUFFER_FRAGMENT_SIZE
        \<and> dom (fragments b) = {..<k} \<and> limit_size b \<le> capacity b)"

definition byte_at :: "amqp_buffer_t \<Rightarrow> nat \<Rightarrow> byte" where
  "byte_at b i = the (fragments b (i div AMQP_BUFFER_FRAGMENT_SIZE)) (i mod AMQP_BUFFER_FRAGMENT_SIZE)"

definition contents :: "amqp_buffer_t \<Rightarrow> byte list" where
  "contents b = map (byte_at b) [0..<limit_size b]"

definition unread :: "amqp_buffer_t \<Rightarrow> byte list" where
  "unread b = drop (limit_index b) (contents b)"

named_theorems buffer_simps \<open>field updates under the abstraction of a buffer\<close>

lemma index_block [buffer_simps]: "drop_bit AMQP_FRAGMENT_INDEX_BITS i = i div AMQP_BUFFER_FRAGMENT_SIZE" for i :: nat
  by (simp add: drop_bit_eq_div)

lemma index_offset [buffer_simps]: "i AND AMQP_FRAGMENT_INDEX_MASK = i mod AMQP_BUFFER_FRAGMENT_SIZE" for i :: nat
proof -
  have "(AMQP_FRAGMENT_INDEX_MASK :: nat) = mask 12" by (simp add: mask_eq_exp_minus_1)
  moreover have "i AND mask 12 = i mod 2 ^ 12"
    by (simp only: take_bit_eq_mask [symmetric] take_bit_eq_mod)
  ultimately show ?thesis by simp
qed

lemma byte_at_limits [simp]:
  "byte_at (b\<lparr>limit_size := n\<rparr>) = byte_at b"
  "byte_at (b\<lparr>limit_index := n\<rparr>) = byte_at b"
  by (auto simp: byte_at_def)

lemma contents_index [simp]: "contents (b\<lparr>limit_index := n\<rparr>) = contents b"
  by (simp add: contents_def)

lemma length_contents [simp]: "length (contents b) = limit_size b"
  by (simp add: contents_def)

lemma contents_nth: "i < limit_size b \<Longrightarrow> contents b ! i = byte_at b i"
  by (simp add: contents_def)

lemma buffer_ok_index [simp]: "buffer_ok (b\<lparr>limit_index := n\<rparr>) = buffer_ok b"
  by (simp add: buffer_ok_def)

lemma buffer_ok_size: "buffer_ok b \<Longrightarrow> n \<le> capacity b \<Longrightarrow> buffer_ok (b\<lparr>limit_size := n\<rparr>)"
  by (simp add: buffer_ok_def Let_def)

lemma buffer_ok_bounds:
  assumes "buffer_ok b"
  shows "limit_size b \<le> capacity b" and "capacity b \<le> AMQP_BUFFER_MAX_SIZE"
    and "AMQP_BUFFER_FRAGMENT_SIZE \<le> capacity b"
  using assms by (auto simp: buffer_ok_def Let_def)

lemma owned_fragment:
  assumes "buffer_ok b" and "i < capacity b"
  obtains f where "fragments b (i div AMQP_BUFFER_FRAGMENT_SIZE) = Some f"
proof -
  have "i div AMQP_BUFFER_FRAGMENT_SIZE < capacity b div AMQP_BUFFER_FRAGMENT_SIZE"
    using assms by (auto simp: buffer_ok_def Let_def)
  then have "i div AMQP_BUFFER_FRAGMENT_SIZE \<in> dom (fragments b)"
    using assms(1) by (auto simp: buffer_ok_def Let_def)
  then show ?thesis using that by blast
qed

lemma unchecked_getc_at_ok:
  "buffer_ok b \<Longrightarrow> i < capacity b \<Longrightarrow> amqp_unchecked_getc_at b i = Ret (byte_at b i)"
  by (rule owned_fragment [of b i])
    (auto simp: amqp_unchecked_getc_at_def Let_def byte_at_def buffer_simps)

lemma unchecked_putc_at_ok:
  assumes "buffer_ok b" and "i < capacity b"
  shows "\<exists>b'. amqp_unchecked_putc_at b c i = Ret b' \<and> buffer_ok b' \<and> byte_at b' = (byte_at b)(i := c)
    \<and> (\<exists>fs. b' = b\<lparr>fragments := fs\<rparr>)"
proof -
  obtain f where f: "fragments b (i div AMQP_BUFFER_FRAGMENT_SIZE) = Some f"
    using owned_fragment [OF assms] by blast
  let ?b = "b\<lparr>fragments := (fragments b)(i div AMQP_BUFFER_FRAGMENT_SIZE \<mapsto> f(i mod AMQP_BUFFER_FRAGMENT_SIZE := c))\<rparr>"
  have r: "amqp_unchecked_putc_at b c i = Ret ?b"
    using f by (simp add: amqp_unchecked_putc_at_def Let_def buffer_simps)
  have ok: "buffer_ok ?b"
    using assms f by (auto simp: buffer_ok_def Let_def insert_absorb domI)
  have "byte_at ?b = (byte_at b)(i := c)"
  proof (rule ext)
    fix j
    show "byte_at ?b j = ((byte_at b)(i := c)) j"
    proof (cases "j div AMQP_BUFFER_FRAGMENT_SIZE = i div AMQP_BUFFER_FRAGMENT_SIZE")
      case True
      then have "j = i \<longleftrightarrow> j mod AMQP_BUFFER_FRAGMENT_SIZE = i mod AMQP_BUFFER_FRAGMENT_SIZE"
        by (metis div_mod_decomp)
      then show ?thesis using True f by (auto simp: byte_at_def)
    qed (auto simp: byte_at_def)
  qed
  with r ok show ?thesis by blast
qed

text \<open>The buffer provides the byte store and the writer of the codec.\<close>

definition buffer_rest :: "amqp_buffer_t \<Rightarrow> nat \<times> nat \<times> nat \<times> uint64" where
  "buffer_rest b = (limit_index b, fragment_size b, n_fragments b, reference_count b)"

interpretation buf: byte_writer buffer_ok capacity byte_at amqp_unchecked_getc_at limit_size
  buffer_rest amqp_unchecked_putc
proof unfold_locales
  fix b :: amqp_buffer_t and i :: nat
  assume "buffer_ok b" and "i < capacity b"
  then show "amqp_unchecked_getc_at b i = Ret (byte_at b i)" by (rule unchecked_getc_at_ok)
next
  fix b :: amqp_buffer_t and c :: byte
  assume b: "buffer_ok b" and room: "limit_size b < capacity b"
  let ?b = "b\<lparr>limit_size := limit_size b + 1\<rparr>"
  have ok: "buffer_ok ?b" by (rule buffer_ok_size) (use b room in auto)
  obtain fs where "amqp_unchecked_putc_at ?b c (limit_size b) = Ret (?b\<lparr>fragments := fs\<rparr>)"
    "buffer_ok (?b\<lparr>fragments := fs\<rparr>)" "byte_at (?b\<lparr>fragments := fs\<rparr>) = (byte_at b)(limit_size b := c)"
    using unchecked_putc_at_ok [OF ok, of "limit_size b" c] room by auto
  then show "\<exists>b'. amqp_unchecked_putc b c = Ret b' \<and> buffer_ok b' \<and> capacity b' = capacity b \<and>
      limit_size b' = Suc (limit_size b) \<and> byte_at b' = (byte_at b)(limit_size b := c) \<and>
      buffer_rest b' = buffer_rest b"
    by (auto simp: amqp_unchecked_putc_def buffer_rest_def)
qed

text \<open>What a client of the buffer gets back after appending a run of bytes.\<close>

definition appended :: "amqp_buffer_t \<Rightarrow> byte list \<Rightarrow> amqp_buffer_t \<Rightarrow> bool" where
  "appended b cs b' \<longleftrightarrow> buffer_ok b' \<and> capacity b' = capacity b
     \<and> limit_size b' = limit_size b + length cs \<and> byte_at b' = overlay (byte_at b) (limit_size b) cs
     \<and> buffer_rest b' = buffer_rest b"

lemma appended_contents: "appended b cs b' \<Longrightarrow> contents b' = contents b @ cs"
  by (simp add: appended_def contents_def map_overlay_append)

lemma appended_Nil: "buffer_ok b \<Longrightarrow> appended b [] b"
  by (simp add: appended_def)

lemma overlay_append: "overlay (overlay m p xs) (p + length xs) ys = overlay m p (xs @ ys)"
  by (rule ext) (auto simp: overlay_def nth_append)

lemma appended_trans: "appended b xs b1 \<Longrightarrow> appended b1 ys b2 \<Longrightarrow> appended b (xs @ ys) b2"
  by (simp add: appended_def overlay_append)

lemma appended_index: "appended b cs b' \<Longrightarrow> limit_index b' = limit_index b"
  by (simp add: appended_def buffer_rest_def)

lemma put_list_appended:
  assumes "buffer_ok b" and "limit_size b + length cs \<le> capacity b"
  obtains b' where "put_list amqp_unchecked_putc b cs = Ret b'" and "appended b cs b'"
  using buf.put_list_ok [OF assms] by (auto simp: appended_def)

lemma putc_appended:
  assumes "buffer_ok b" and "limit_size b < capacity b"
  obtains b' where "amqp_unchecked_putc b c = Ret b'" and "appended b [c] b'"
  using put_list_appended [of b "[c]"] assms by auto

lemma hton_put_list:
  "amqp_hton_16 b v2 = put_list amqp_unchecked_putc b (be_bytes 2 v2)"
  "amqp_hton_32 b v4 = put_list amqp_unchecked_putc b (be_bytes 4 v4)"
  "amqp_hton_64 b v8 = put_list amqp_unchecked_putc b (be_bytes 8 v8)"
  by (simp_all add: be_bytes_unfold amqp_hton_16_def amqp_hton_32_def amqp_hton_64_def)

lemma get_list_Ret: "get_list get b i n = Ret cs \<Longrightarrow> length cs = n"
  by (induction n arbitrary: i cs) (auto simp: run_simps)

lemma ntoh_get_list:
  "amqp_ntoh_16 b i = run_bind (get_list amqp_unchecked_getc_at b i 2) (\<lambda>cs. Ret (word_of_bytes (rev cs)))"
  "amqp_ntoh_32 b i = run_bind (get_list amqp_unchecked_getc_at b i 4) (\<lambda>cs. Ret (word_of_bytes (rev cs)))"
  "amqp_ntoh_64 b i = run_bind (get_list amqp_unchecked_getc_at b i 8) (\<lambda>cs. Ret (word_of_bytes (rev cs)))"
  by (simp_all add: amqp_ntoh_16_def amqp_ntoh_32_def amqp_ntoh_64_def eval_nat_numeral run_bind_assoc)

lemma ntoh_ok:
  assumes "buffer_ok b"
  shows "i + 2 \<le> capacity b \<Longrightarrow> amqp_ntoh_16 b i = Ret (word_of_bytes (rev (map (byte_at b) [i..<i + 2])))"
    and "i + 4 \<le> capacity b \<Longrightarrow> amqp_ntoh_32 b i = Ret (word_of_bytes (rev (map (byte_at b) [i..<i + 4])))"
    and "i + 8 \<le> capacity b \<Longrightarrow> amqp_ntoh_64 b i = Ret (word_of_bytes (rev (map (byte_at b) [i..<i + 8])))"
  using buf.get_list_ok [OF assms, of i] by (simp_all add: ntoh_get_list)

lemma map_overlay_hit: "map (overlay m p cs) [p..<p + length cs] = cs"
  by (rule nth_equalityI) (auto simp: overlay_def)

lemma getc_ok:
  assumes "buffer_ok b" and "limit_index b < limit_size b"
  shows "amqp_buffer_getc b = Ret (uint (byte_at b (limit_index b)), b\<lparr>limit_index := limit_index b + 1\<rparr>)"
  using assms unchecked_getc_at_ok [of b "limit_index b"] buffer_ok_bounds(1) [of b]
  by (simp add: amqp_buffer_getc_def amqp_buffer_unchecked_getc_def)

lemma unchecked_getc_ok:
  assumes "buffer_ok b" and "limit_index b < limit_size b"
  shows "amqp_buffer_unchecked_getc b = Ret (byte_at b (limit_index b), b\<lparr>limit_index := limit_index b + 1\<rparr>)"
  using assms unchecked_getc_at_ok [of b "limit_index b"] buffer_ok_bounds(1) [of b]
  by (simp add: amqp_buffer_unchecked_getc_def)

lemma put_bytes_put_list:
  "buffer_ok b \<Longrightarrow> limit_size b + length cs \<le> capacity b \<Longrightarrow>
   put_bytes b cs = put_list amqp_unchecked_putc b cs"
proof (induction cs arbitrary: b)
  case Nil
  then show ?case by simp
next
  case (Cons c cs)
  obtain b' where b': "amqp_unchecked_putc b c = Ret b'" "appended b [c] b'"
    using putc_appended [of b c] Cons.prems by auto
  have "put_bytes b' cs = put_list amqp_unchecked_putc b' cs"
    using b'(2) Cons.prems by (intro Cons.IH) (auto simp: appended_def)
  then show ?case using b'(1) Cons.prems by (simp add: amqp_buffer_putc_def)
qed

lemma puts_appended:
  assumes "buffer_ok b" and "limit_size b + length cs < capacity b"
  obtains b' where "amqp_buffer_puts b cs = Ret (length cs, b')" and "appended b cs b'"
proof -
  have "limit_size b + length cs < 2 ^ 64" using buffer_ok_bounds [OF assms(1)] assms(2) by simp
  moreover obtain b' where "put_list amqp_unchecked_putc b cs = Ret b'" "appended b cs b'"
    using put_list_appended [of b cs] assms by auto
  ultimately show ?thesis
    using that [of b'] assms by (simp add: amqp_buffer_puts_def Let_def put_bytes_put_list)
qed

text \<open>A run that would end exactly at the capacity is dropped: the test is \<open>>=\<close>.\<close>

lemma puts_full:
  assumes "buffer_ok b" and "limit_size b + length cs = capacity b"
  shows "amqp_buffer_puts b cs = Ret (0, b)"
  using buffer_ok_bounds [OF assms(1)] assms(2) by (simp add: amqp_buffer_puts_def Let_def)

section \<open>Growth, initialisation and cleanup\<close>

lemma allocate_fragments_dom:
  "dom (allocate_fragments fs block n) = dom fs \<union> {block..<block + n}"
proof (induction fs block n rule: allocate_fragments.induct)
  case (2 fs block n)
  have "{block..<block + Suc n} = insert block {Suc block..<Suc block + n}" by auto
  then show ?case by (simp only: allocate_fragments.simps "2.IH" dom_fun_upd option.simps if_False) blast
qed simp

lemma allocate_fragments_other:
  "i < block \<Longrightarrow> allocate_fragments fs block n i = fs i"
  by (induction fs block n rule: allocate_fragments.induct) auto

lemma grow_blocks:
  assumes "capacity b < n" and "n \<le> AMQP_BUFFER_MAX_SIZE" and "capacity b = k * AMQP_BUFFER_FRAGMENT_SIZE"
  defines "m \<equiv> (n - 1) div AMQP_BUFFER_FRAGMENT_SIZE + 1"
  shows "k < m" and "m \<le> AMQP_BUFFER_FRAGMENTS" and "n \<le> m * AMQP_BUFFER_FRAGMENT_SIZE"
proof -
  define q where "q = (n - 1) div AMQP_BUFFER_FRAGMENT_SIZE"
  have q: "n - 1 < AMQP_BUFFER_FRAGMENT_SIZE + q * AMQP_BUFFER_FRAGMENT_SIZE" "q * AMQP_BUFFER_FRAGMENT_SIZE \<le> n - 1"
    unfolding q_def by (rule dividend_less_div_times, simp) (rule div_times_less_eq_dividend)
  have "m = q + 1" by (simp add: m_def q_def)
  then show "k < m" "m \<le> AMQP_BUFFER_FRAGMENTS" "n \<le> m * AMQP_BUFFER_FRAGMENT_SIZE"
    using q assms(1-3) by simp_all
qed

lemma grow_ok:
  assumes "buffer_ok b"
  shows "buffer_ok (snd (amqp_buffer_grow b n))"
    and "contents (snd (amqp_buffer_grow b n)) = contents b"
    and "min n AMQP_BUFFER_MAX_SIZE \<le> capacity (snd (amqp_buffer_grow b n))"
proof -
  define k where "k = capacity b div AMQP_BUFFER_FRAGMENT_SIZE"
  define s where "s = min n AMQP_BUFFER_MAX_SIZE"
  define m where "m = (s - 1) div AMQP_BUFFER_FRAGMENT_SIZE + 1"
  have k: "capacity b = k * AMQP_BUFFER_FRAGMENT_SIZE" "1 \<le> k" "dom (fragments b) = {..<k}"
      "limit_size b \<le> capacity b"
    using assms by (auto simp: buffer_ok_def Let_def k_def)
  have step: "amqp_buffer_grow b n = (if capacity b < s
     then (m * AMQP_BUFFER_FRAGMENT_SIZE, b\<lparr>fragments := allocate_fragments (fragments b) k (m - k),
            capacity := m * AMQP_BUFFER_FRAGMENT_SIZE\<rparr>) else (capacity b, b))"
    by (auto simp: amqp_buffer_grow_def Let_def s_def m_def k_def min_def)
  have km: "k < m" "m \<le> AMQP_BUFFER_FRAGMENTS" "s \<le> m * AMQP_BUFFER_FRAGMENT_SIZE" if "capacity b < s"
    using grow_blocks [OF that _ k(1)] by (simp_all add: s_def m_def)
  show "buffer_ok (snd (amqp_buffer_grow b n))"
  proof (cases "capacity b < s")
    case True
    have "{..<k} \<union> {k..<k + (m - k)} = {..<m}" using km [OF True] by auto
    then show ?thesis using km [OF True] k
      by (simp add: step True buffer_ok_def Let_def allocate_fragments_dom del: fun_upd_apply)
  qed (use assms in \<open>simp add: step\<close>)
  show "min n AMQP_BUFFER_MAX_SIZE \<le> capacity (snd (amqp_buffer_grow b n))"
    using km by (auto simp: step s_def)
  have "byte_at (snd (amqp_buffer_grow b n)) i = byte_at b i" if "i < limit_size b" for i
  proof -
    have "i div AMQP_BUFFER_FRAGMENT_SIZE < k" using that k by auto
    then show ?thesis by (simp add: step byte_at_def allocate_fragments_other)
  qed
  then show "contents (snd (amqp_buffer_grow b n)) = contents b"
    by (auto simp: contents_def step)
qed

lemma buffer_initialize_ok: "buffer_ok (amqp_initialize_amqp_buffer_t b)"
  by (auto simp: amqp_initialize_amqp_buffer_t_def buffer_ok_def)

lemma free_fragments_ok:
  "{block..<block + n} \<subseteq> dom fs \<Longrightarrow>
   \<exists>fs'. free_fragments fs block n = Ret fs' \<and> dom fs' = dom fs - {block..<block + n}"
proof (induction fs block n rule: free_fragments.induct)
  case (2 fs block n)
  have split: "{block..<block + Suc n} = insert block {Suc block..<Suc block + n}" by auto
  have some: "fs block \<noteq> None" using "2.prems" unfolding split by blast
  have "{Suc block..<Suc block + n} \<subseteq> dom (fs(block := None))"
    using "2.prems" unfolding split by (simp add: subset_iff)
  with "2.IH" some obtain fs' where "free_fragments (fs(block := None)) (Suc block) n = Ret fs'"
    "dom fs' = dom (fs(block := None)) - {Suc block..<Suc block + n}" by blast
  with some show ?case unfolding split by (simp add: set_diff_eq del: fun_upd_apply)
qed simp

lemma cleanup_ok:
  assumes "buffer_ok b"
  shows "\<exists>b'. amqp_cleanup_amqp_buffer_t b = Ret b' \<and> fragments b' = Map.empty"
  using free_fragments_ok [of 0 "capacity b div AMQP_BUFFER_FRAGMENT_SIZE" "fragments b"] assms
  by (auto simp: amqp_cleanup_amqp_buffer_t_def Let_def buffer_ok_def lessThan_atLeast0)

section \<open>Scatter and gather\<close>

text \<open>The buffer positions an array of \<open>iovec\<close> entries covers, in order.\<close>

definition iov_positions :: "iovec list \<Rightarrow> nat list" where
  "iov_positions vs = concat (map (\<lambda>(block, offset, n).
     [block * AMQP_BUFFER_FRAGMENT_SIZE + offset..<block * AMQP_BUFFER_FRAGMENT_SIZE + offset + n]) vs)"

definition iov_inside :: "iovec list \<Rightarrow> bool" where
  "iov_inside vs \<longleftrightarrow> (\<forall>(block, offset, n) \<in> set vs. offset + n \<le> AMQP_BUFFER_FRAGMENT_SIZE)"

lemma iov_positions_snoc:
  "iov_positions (vs @ [(block, offset, n)]) = iov_positions vs @
     [block * AMQP_BUFFER_FRAGMENT_SIZE + offset..<block * AMQP_BUFFER_FRAGMENT_SIZE + offset + n]"
  by (simp add: iov_positions_def)

declare fill_io_vec_loop.simps [simp del] block_copy_loop.simps [simp del]

lemma fill_io_vec_loop_ok:
  assumes "iov_positions vs = [p..<(block + 1) * AMQP_BUFFER_FRAGMENT_SIZE]" and "iov_inside vs"
    and "p \<le> (block + 1) * AMQP_BUFFER_FRAGMENT_SIZE"
  shows "iov_positions (fill_io_vec_loop n block vs) = [p..<(block + 1) * AMQP_BUFFER_FRAGMENT_SIZE + n]
    \<and> iov_inside (fill_io_vec_loop n block vs)
    \<and> length (fill_io_vec_loop n block vs) = length vs + (n + 4095) div 4096"
  using assms
proof (induction n block vs rule: fill_io_vec_loop.induct)
  case (1 n block vs)
  show ?case
  proof (cases "0 < n")
    case False
    with 1 show ?thesis by (subst (1 2 3) fill_io_vec_loop.simps) simp
  next
    case True
    define a where "a = (if AMQP_BUFFER_FRAGMENT_SIZE < n then AMQP_BUFFER_FRAGMENT_SIZE else n)"
    let ?vs = "vs @ [(block + 1, 0, a)]"
    have step: "fill_io_vec_loop n block vs = fill_io_vec_loop (n - a) (block + 1) ?vs"
      using True by (subst fill_io_vec_loop.simps) (simp add: a_def Let_def)
    have pos: "iov_positions ?vs = [p..<(block + 1) * AMQP_BUFFER_FRAGMENT_SIZE + a]"
      using "1.prems"(1,3) unfolding iov_positions_snoc
      using upt_add_eq_append [OF "1.prems"(3), of a] by simp
    have ins: "iov_inside ?vs" using "1.prems"(2) by (auto simp: iov_inside_def a_def)
    show ?thesis
    proof (cases "AMQP_BUFFER_FRAGMENT_SIZE < n")
      case True
      have "iov_positions ?vs = [p..<(block + 1 + 1) * AMQP_BUFFER_FRAGMENT_SIZE]"
        using pos True by (simp add: a_def algebra_simps)
      moreover have "(n - 4096 + 4095) div 4096 + 1 = (n + 4095) div 4096" using True by linarith
      ultimately show ?thesis
        using "1.IH" [OF \<open>0 < n\<close>, of "block + 1" a] ins True "1.prems"(3) step
        by (simp add: a_def algebra_simps)
    next
      case False
      then have "fill_io_vec_loop n block vs = ?vs"
        using step by (simp add: a_def fill_io_vec_loop.simps [of 0])
      moreover have "(n + 4095) div 4096 = 1" using False \<open>0 < n\<close> by linarith
      ultimately show ?thesis using pos ins False by (simp add: a_def)
    qed
  qed
qed

lemma fill_io_vec_ok:
  assumes "p + n \<le> AMQP_BUFFER_MAX_SIZE" and "p < AMQP_BUFFER_MAX_SIZE"
  shows "\<exists>vs. amqp_buffer_fill_io_vec n (p div AMQP_BUFFER_FRAGMENT_SIZE) (p mod AMQP_BUFFER_FRAGMENT_SIZE) = Ret vs
    \<and> iov_positions vs = [p..<p + n] \<and> iov_inside vs"
proof -
  define block offset where "block = p div AMQP_BUFFER_FRAGMENT_SIZE" and "offset = p mod AMQP_BUFFER_FRAGMENT_SIZE"
  have p: "p = block * AMQP_BUFFER_FRAGMENT_SIZE + offset" and off: "offset < AMQP_BUFFER_FRAGMENT_SIZE"
    by (simp_all add: block_def offset_def)
  show ?thesis
  proof (cases "n \<le> AMQP_BUFFER_FRAGMENT_SIZE - offset")
    case True
    then have "amqp_buffer_fill_io_vec n block offset = Ret [(block, offset, n)]"
      by (simp add: amqp_buffer_fill_io_vec_def Let_def)
    moreover have "iov_positions [(block, offset, n)] = [p..<p + n]" "iov_inside [(block, offset, n)]"
      using True off p by (auto simp: iov_positions_def iov_inside_def)
    ultimately show ?thesis by (auto simp: block_def offset_def)
  next
    case False
    define a where "a = AMQP_BUFFER_FRAGMENT_SIZE - offset"
    let ?vs = "fill_io_vec_loop (n - a) block [(block, offset, a)]"
    have "iov_positions [(block, offset, a)] = [p..<(block + 1) * AMQP_BUFFER_FRAGMENT_SIZE]"
      "iov_inside [(block, offset, a)]" "p \<le> (block + 1) * AMQP_BUFFER_FRAGMENT_SIZE"
      using off p by (auto simp: iov_positions_def iov_inside_def a_def add.commute)
    from fill_io_vec_loop_ok [OF this, of "n - a"]
    have vs: "iov_positions ?vs = [p..<(block + 1) * AMQP_BUFFER_FRAGMENT_SIZE + (n - a)]" "iov_inside ?vs"
      "length ?vs = 1 + (n - a + 4095) div 4096" by simp_all
    have "(block + 1) * AMQP_BUFFER_FRAGMENT_SIZE + (n - a) = p + n" using False off p by (simp add: a_def)
    moreover have "length ?vs \<le> AMQP_BUFFER_FRAGMENTS"
      using vs(3) assms p off False unfolding a_def by linarith
    ultimately have "iov_positions ?vs = [p..<p + n]" "amqp_buffer_fill_io_vec n block offset = Ret ?vs"
      using vs(1) False by (simp_all add: amqp_buffer_fill_io_vec_def Let_def a_def del: length_append)
    then show ?thesis using vs(2) by (auto simp: block_def offset_def)
  qed
qed

lemma fragment_slice_ok:
  assumes "buffer_ok b" and "block * AMQP_BUFFER_FRAGMENT_SIZE < capacity b"
    and "offset + n \<le> AMQP_BUFFER_FRAGMENT_SIZE"
  shows "fragment_slice b block offset n =
    Ret (map (byte_at b) [block * AMQP_BUFFER_FRAGMENT_SIZE + offset..<block * AMQP_BUFFER_FRAGMENT_SIZE + offset + n])"
proof -
  obtain f where f: "fragments b block = Some f"
    using owned_fragment [OF assms(1,2)] by auto
  have "map f [offset..<offset + n] =
    map (byte_at b) [block * AMQP_BUFFER_FRAGMENT_SIZE + offset..<block * AMQP_BUFFER_FRAGMENT_SIZE + offset + n]"
    using assms(3) f by (intro nth_equalityI) (auto simp: byte_at_def add.assoc)
  then show ?thesis using f assms(3) by (simp add: fragment_slice_def)
qed

lemma block_copy_one_fragment:
  assumes "buffer_ok b" and "start + n \<le> capacity b" and "start < capacity b"
    and "start mod AMQP_BUFFER_FRAGMENT_SIZE + n \<le> AMQP_BUFFER_FRAGMENT_SIZE"
  shows "amqp_buffer_block_copy b start n = Ret (map (byte_at b) [start..<start + n])"
proof -
  have "n \<le> AMQP_BUFFER_FRAGMENT_SIZE - start mod AMQP_BUFFER_FRAGMENT_SIZE" using assms(4) by simp
  moreover have "start div AMQP_BUFFER_FRAGMENT_SIZE * AMQP_BUFFER_FRAGMENT_SIZE < capacity b"
    using assms(3) by (meson div_times_less_eq_dividend le_less_trans)
  ultimately show ?thesis
    using fragment_slice_ok [OF assms(1), of "start div AMQP_BUFFER_FRAGMENT_SIZE" "start mod AMQP_BUFFER_FRAGMENT_SIZE" n] assms(4)
    by (simp add: amqp_buffer_block_copy_def Let_def buffer_simps)
qed

text \<open>
  A copy that ends in the fragment after the one it starts in takes its last bytes from the
  beginning of the fragment it started in: the source does not advance \<open>block\<close> for the last
  copy.
\<close>

lemma block_copy_two_fragments:
  assumes "buffer_ok b" and "start + n \<le> capacity b"
    and "AMQP_BUFFER_FRAGMENT_SIZE < start mod AMQP_BUFFER_FRAGMENT_SIZE + n"
    and "start mod AMQP_BUFFER_FRAGMENT_SIZE + n \<le> 2 * AMQP_BUFFER_FRAGMENT_SIZE"
  defines "base \<equiv> start div AMQP_BUFFER_FRAGMENT_SIZE * AMQP_BUFFER_FRAGMENT_SIZE"
  shows "amqp_buffer_block_copy b start n =
    Ret (map (byte_at b) [start..<base + AMQP_BUFFER_FRAGMENT_SIZE] @
         map (byte_at b) [base..<start + n - AMQP_BUFFER_FRAGMENT_SIZE])"
proof -
  define block offset where "block = start div AMQP_BUFFER_FRAGMENT_SIZE" and "offset = start mod AMQP_BUFFER_FRAGMENT_SIZE"
  define m where "m = n - (AMQP_BUFFER_FRAGMENT_SIZE - offset)"
  have st: "start = base + offset" "offset < AMQP_BUFFER_FRAGMENT_SIZE" "base = block * AMQP_BUFFER_FRAGMENT_SIZE"
    by (simp_all add: base_def block_def offset_def)
  have on: "AMQP_BUFFER_FRAGMENT_SIZE < offset + n" "offset + n \<le> 2 * AMQP_BUFFER_FRAGMENT_SIZE"
    using assms(3,4) by (simp_all add: offset_def)
  have lt: "base < capacity b" using assms(2) on st(1,2) by linarith
  have m: "0 < m" "m \<le> AMQP_BUFFER_FRAGMENT_SIZE" "base + m = start + n - AMQP_BUFFER_FRAGMENT_SIZE"
    using on st(1,2) unfolding m_def by linarith+
  have first: "fragment_slice b block offset (AMQP_BUFFER_FRAGMENT_SIZE - offset)
      = Ret (map (byte_at b) [start..<base + AMQP_BUFFER_FRAGMENT_SIZE])"
    using fragment_slice_ok [OF assms(1), of block offset "AMQP_BUFFER_FRAGMENT_SIZE - offset"] lt st(2)
    unfolding st(1) st(3) by simp
  have last: "fragment_slice b block 0 m = Ret (map (byte_at b) [base..<start + n - AMQP_BUFFER_FRAGMENT_SIZE])"
    using fragment_slice_ok [OF assms(1), of block 0 m] lt m(2)
    unfolding m(3) [symmetric] unfolding st(3) by simp
  have loop: "block_copy_loop b block m dst = Ret (block, m, dst)" for dst
    using m(2) by (subst block_copy_loop.simps) simp
  have "\<not> n \<le> AMQP_BUFFER_FRAGMENT_SIZE - offset" using m(1) by (simp add: m_def)
  then show ?thesis
    using m(1) unfolding amqp_buffer_block_copy_def Let_def index_block index_offset
      block_def [symmetric] offset_def [symmetric] m_def [symmetric]
    by (simp only: first last loop run_bind.simps prod.case if_True if_False)
qed

lemma copy_bytes_from_ok:
  assumes "buffer_ok src" and "i + n \<le> capacity src" and "buffer_ok dst" and "limit_size dst + n \<le> capacity dst"
  shows "\<exists>d. copy_bytes_from dst src i n = Ret d \<and> appended dst (map (byte_at src) [i..<i + n]) d"
  using assms(2-4)
proof (induction n arbitrary: i dst)
  case 0
  then show ?case by (simp add: appended_Nil)
next
  case (Suc n)
  obtain d1 where d1: "amqp_unchecked_putc dst (byte_at src i) = Ret d1" "appended dst [byte_at src i] d1"
    using putc_appended [of dst "byte_at src i"] Suc.prems by auto
  then have "buffer_ok d1" "limit_size d1 + n \<le> capacity d1" using Suc.prems by (auto simp: appended_def)
  then obtain d where d: "copy_bytes_from d1 src (Suc i) n = Ret d"
    "appended d1 (map (byte_at src) [Suc i..<Suc i + n]) d"
    using Suc.IH [of "Suc i" d1] Suc.prems by auto
  have "map (byte_at src) [i..<i + Suc n] = [byte_at src i] @ map (byte_at src) [Suc i..<Suc i + n]"
    by (simp add: upt_conv_Cons del: upt_Suc)
  then have "appended dst (map (byte_at src) [i..<i + Suc n]) d"
    using appended_trans [OF d1(2) d(2)] by (simp only: )
  then show ?case
    using d1 d(1) Suc.prems unchecked_getc_at_ok [OF assms(1), of i] by (auto simp del: upt_Suc)
qed

section \<open>Clients that only append\<close>

text \<open>
  What remains of \<open>appended\<close> when the bytes past the write position do not matter: the data
  grows at its end. Writing over a part of the new data (a size field that is patched) and
  taking back a part of it keep the relation.
\<close>

definition extends :: "amqp_buffer_t \<Rightarrow> byte list \<Rightarrow> amqp_buffer_t \<Rightarrow> bool" where
  "extends b cs b' \<longleftrightarrow> buffer_ok b' \<and> capacity b' = capacity b \<and> contents b' = contents b @ cs
     \<and> buffer_rest b' = buffer_rest b"

lemma appended_extends: "appended b cs b' \<Longrightarrow> extends b cs b'"
  by (auto simp: extends_def appended_contents) (auto simp: appended_def)

lemma extends_refl: "buffer_ok b \<Longrightarrow> extends b [] b"
  by (simp add: extends_def)

lemma extends_trans: "extends b xs b1 \<Longrightarrow> extends b1 ys b2 \<Longrightarrow> extends b (xs @ ys) b2"
  by (simp add: extends_def)

lemma extendsD:
  assumes "extends b cs b'"
  shows "buffer_ok b'" and "capacity b' = capacity b" and "limit_size b' = limit_size b + length cs"
    and "contents b' = contents b @ cs" and "limit_index b' = limit_index b"
proof -
  show c: "contents b' = contents b @ cs" using assms by (simp add: extends_def)
  show "limit_size b' = limit_size b + length cs" using arg_cong [OF c, of length] by simp
qed (use assms in \<open>auto simp: extends_def buffer_rest_def\<close>)

lemma putc_extends:
  assumes "buffer_ok b" and "limit_size b < capacity b"
  obtains b' where "amqp_unchecked_putc b c = Ret b'" and "extends b [c] b'"
  using putc_appended [OF assms] appended_extends by metis

lemma put_list_extends:
  assumes "buffer_ok b" and "limit_size b + length cs \<le> capacity b"
  obtains b' where "put_list amqp_unchecked_putc b cs = Ret b'" and "extends b cs b'"
  using put_list_appended [OF assms] appended_extends by metis

lemma checked_putc_extends:
  assumes "buffer_ok b" and "limit_size b < capacity b"
  obtains b' where "amqp_buffer_putc b c = Ret (uint c, b')" and "extends b [c] b'"
proof -
  obtain b' where "amqp_unchecked_putc b c = Ret b'" "extends b [c] b'"
    using putc_extends [OF assms] by blast
  then show ?thesis using that [of b'] assms(2) by (simp add: amqp_buffer_putc_def)
qed

lemma puts_extends:
  assumes "buffer_ok b" and "limit_size b + length cs < capacity b"
  obtains b' where "amqp_buffer_puts b cs = Ret (length cs, b')" and "extends b cs b'"
  using puts_appended [OF assms] appended_extends by metis

lemma patch_extends:
  assumes b': "extends b (xs @ ys @ zs) b'" and len: "length ys' = length ys"
  obtains b2 where "put_list amqp_unchecked_putc (amqp_buffer_set_write_index b' (limit_size b + length xs)) ys' = Ret b2"
    and "extends b (xs @ ys' @ zs) (amqp_buffer_set_write_index b2 (limit_size b'))"
proof -
  let ?p = "limit_size b + length xs"
  let ?b = "b'\<lparr>limit_size := ?p\<rparr>"
  note e = extendsD [OF b']
  have le: "?p + length ys \<le> limit_size b'" using e(3) by simp
  have cap: "limit_size b' \<le> capacity b'" using buffer_ok_bounds [OF e(1)] by simp
  have ok: "buffer_ok ?b" using buffer_ok_size [OF e(1)] le cap by simp
  obtain b2 where b2: "put_list amqp_unchecked_putc ?b ys' = Ret b2" "appended ?b ys' b2"
    using put_list_appended [OF ok, of ys'] le cap len by auto
  let ?r = "b2\<lparr>limit_size := limit_size b'\<rparr>"
  have "buffer_ok ?r" using b2(2) cap by (auto simp: appended_def intro: buffer_ok_size)
  moreover have "contents ?r = contents b @ xs @ ys' @ zs"
  proof -
    have "byte_at b2 = overlay (byte_at b') ?p ys'" using b2(2) by (simp add: appended_def)
    then have "contents ?r = map (overlay (byte_at b') ?p ys') [0..<limit_size b']"
      by (simp add: contents_def)
    also have "\<dots> = take ?p (contents b') @ ys' @ drop (?p + length ys') (contents b')"
      using map_overlay_inside [of ?p ys' "limit_size b'" "byte_at b'"] le len by (simp add: contents_def)
    also have "\<dots> = contents b @ xs @ ys' @ zs" using e(4) len by simp
    finally show ?thesis .
  qed
  ultimately have "extends b (xs @ ys' @ zs) ?r"
    using b2(2) b' by (auto simp: extends_def appended_def buffer_rest_def)
  then show ?thesis using that [of b2] b2(1) by (simp add: amqp_buffer_set_write_index_def)
qed

lemma backup_extends:
  assumes "extends b (xs @ ys) b'"
  obtains b2 where "amqp_buffer_backup b' (length ys) = Ret b2" and "extends b xs b2"
proof -
  note e = extendsD [OF assms]
  let ?b = "b'\<lparr>limit_size := limit_size b' - length ys\<rparr>"
  have le: "limit_size b' - length ys \<le> capacity b'" using buffer_ok_bounds [OF e(1)] by simp
  have "contents ?b = take (limit_size b' - length ys) (contents b')"
    by (simp add: contents_def take_map)
  also have "\<dots> = contents b @ xs" using e(3,4) by simp
  finally have "extends b xs ?b"
    using buffer_ok_size [OF e(1) le] assms by (simp add: extends_def buffer_rest_def)
  then show ?thesis using that [of ?b] e(3) by (simp add: amqp_buffer_backup_def)
qed

end
