(* ===== verification/MetaData.thy ===== *)
theory MetaData
  imports Prelude
begin

text \<open>
  The table of encodings of \<^verbatim>\<open>Codec/Type/EncodingMetaData.c\<close>: for every format code the width
  of its fixed part, the decoder that reads it, its names and the flags a decoded value
  starts with; and the binary search that finds an entry. The pointer to the decoder is a
  constructor of \<open>amqp_decoder_t\<close>, one per C function; the pointer to the print method is
  left out.
\<close>

section \<open>Flags\<close>

abbreviation amqp_is_null :: uint32 where "amqp_is_null \<equiv> 0x1"
abbreviation amqp_is_boolean :: uint32 where "amqp_is_boolean \<equiv> 0x2"
abbreviation amqp_is_unsigned :: uint32 where "amqp_is_unsigned \<equiv> 0x4"
abbreviation amqp_is_byte :: uint32 where "amqp_is_byte \<equiv> 0x8"
abbreviation amqp_is_short :: uint32 where "amqp_is_short \<equiv> 0x10"
abbreviation amqp_is_int :: uint32 where "amqp_is_int \<equiv> 0x20"
abbreviation amqp_is_long :: uint32 where "amqp_is_long \<equiv> 0x40"
abbreviation amqp_is_float :: uint32 where "amqp_is_float \<equiv> 0x80"
abbreviation amqp_is_double :: uint32 where "amqp_is_double \<equiv> 0x100"
abbreviation amqp_is_timestamp :: uint32 where "amqp_is_timestamp \<equiv> 0x200"
abbreviation amqp_is_uuid :: uint32 where "amqp_is_uuid \<equiv> 0x400"
abbreviation amqp_is_decimal32 :: uint32 where "amqp_is_decimal32 \<equiv> 0x800"
abbreviation amqp_is_decimal64 :: uint32 where "amqp_is_decimal64 \<equiv> 0x1000"
abbreviation amqp_is_decimal128 :: uint32 where "amqp_is_decimal128 \<equiv> 0x2000"
abbreviation amqp_is_char :: uint32 where "amqp_is_char \<equiv> 0x4000"
abbreviation amqp_is_fixed_mask :: uint32 where "amqp_is_fixed_mask \<equiv> 0x7fff"
abbreviation amqp_is_binary :: uint32 where "amqp_is_binary \<equiv> 0x8000"
abbreviation amqp_is_string :: uint32 where "amqp_is_string \<equiv> 0x10000"
abbreviation amqp_is_symbol :: uint32 where "amqp_is_symbol \<equiv> 0x20000"
abbreviation amqp_is_variable_mask :: uint32 where "amqp_is_variable_mask \<equiv> 0x38000"
abbreviation amqp_is_list :: uint32 where "amqp_is_list \<equiv> 0x40000"
abbreviation amqp_is_map :: uint32 where "amqp_is_map \<equiv> 0x80000"
abbreviation amqp_is_array :: uint32 where "amqp_is_array \<equiv> 0x100000"
abbreviation amqp_is_composite :: uint32 where "amqp_is_composite \<equiv> 0x200000"
abbreviation amqp_is_container_mask :: uint32 where "amqp_is_container_mask \<equiv> 0x3c0000"
abbreviation amqp_is_descriptor :: uint32 where "amqp_is_descriptor \<equiv> 0x400000"
abbreviation amqp_is_described :: uint32 where "amqp_is_described \<equiv> 0x800000"
abbreviation amqp_is_extension :: uint32 where "amqp_is_extension \<equiv> 0x1000000"
abbreviation amqp_is_invalid :: uint32 where "amqp_is_invalid \<equiv> 0x2000000"
abbreviation amqp_is_encoded :: uint32 where "amqp_is_encoded \<equiv> 0x10000000"
abbreviation amqp_is_incomplete :: uint32 where "amqp_is_incomplete \<equiv> 0x20000000"
abbreviation amqp_is_contained :: uint32 where "amqp_is_contained \<equiv> 0x40000000"

section \<open>Entries\<close>

datatype amqp_decoder_t =
    Decode_described_type
  | Decode_null
  | Decode_boolean_true
  | Decode_boolean_false
  | Decode_uint0
  | Decode_ulong0
  | Decode_list_0
  | Decode_extension_type
  | Decode_ubyte
  | Decode_byte
  | Decode_small_uint
  | Decode_small_ulong
  | Decode_small_int
  | Decode_small_long
  | Decode_boolean
  | Decode_ushort
  | Decode_short
  | Decode_uint
  | Decode_int
  | Decode_float
  | Decode_char
  | Decode_decimal32
  | Decode_ulong
  | Decode_long
  | Decode_double
  | Decode_timestamp
  | Decode_decimal64
  | Decode_decimal128
  | Decode_uuid
  | Decode_binary_vbin8
  | Decode_string_str8_utf8
  | Decode_symbol_sym8
  | Decode_binary_vbin32
  | Decode_string_str32_utf8
  | Decode_symbol_sym32
  | Decode_list_8
  | Decode_map_8
  | Decode_list_32
  | Decode_map_32
  | Decode_array_8
  | Decode_array_32

datatype amqp_category = CategoryFixed | CategoryVariable | CategoryCompound | CategoryArray

record amqp_encoding_meta_data_t =
  format_code :: byte
  width :: nat
  type_decoder :: amqp_decoder_t
  type_name :: string
  encoding_name :: string
  meta_flags :: uint32
  category_name_index :: amqp_category

definition amqp_type_meta_data_described :: amqp_encoding_meta_data_t where
  "amqp_type_meta_data_described =
    \<lparr>format_code = 0x00, width = 0, type_decoder = Decode_described_type,
     type_name = ''described'', encoding_name = '''', meta_flags = amqp_is_composite,
     category_name_index = CategoryCompound\<rparr>"

definition amqp_type_meta_data_null :: amqp_encoding_meta_data_t where
  "amqp_type_meta_data_null =
    \<lparr>format_code = 0x40, width = 0, type_decoder = Decode_null,
     type_name = ''null'', encoding_name = '''', meta_flags = amqp_is_null,
     category_name_index = CategoryFixed\<rparr>"

definition amqp_type_meta_data_boolean_true :: amqp_encoding_meta_data_t where
  "amqp_type_meta_data_boolean_true =
    \<lparr>format_code = 0x41, width = 0, type_decoder = Decode_boolean_true,
     type_name = ''boolean'', encoding_name = ''true'', meta_flags = amqp_is_boolean,
     category_name_index = CategoryFixed\<rparr>"

definition amqp_type_meta_data_boolean_false :: amqp_encoding_meta_data_t where
  "amqp_type_meta_data_boolean_false =
    \<lparr>format_code = 0x42, width = 0, type_decoder = Decode_boolean_false,
     type_name = ''boolean'', encoding_name = ''false'', meta_flags = amqp_is_boolean,
     category_name_index = CategoryFixed\<rparr>"

definition amqp_type_meta_data_uint_uint0 :: amqp_encoding_meta_data_t where
  "amqp_type_meta_data_uint_uint0 =
    \<lparr>format_code = 0x43, width = 0, type_decoder = Decode_uint0,
     type_name = ''uint'', encoding_name = ''uint0'', meta_flags = amqp_is_int OR amqp_is_unsigned,
     category_name_index = CategoryFixed\<rparr>"

definition amqp_type_meta_data_ulong_ulong0 :: amqp_encoding_meta_data_t where
  "amqp_type_meta_data_ulong_ulong0 =
    \<lparr>format_code = 0x44, width = 0, type_decoder = Decode_ulong0,
     type_name = ''ulong'', encoding_name = ''ulong0'', meta_flags = amqp_is_long OR amqp_is_unsigned,
     category_name_index = CategoryFixed\<rparr>"

definition amqp_type_meta_data_list_0 :: amqp_encoding_meta_data_t where
  "amqp_type_meta_data_list_0 =
    \<lparr>format_code = 0x45, width = 0, type_decoder = Decode_list_0,
     type_name = ''list'', encoding_name = ''list0'', meta_flags = amqp_is_list,
     category_name_index = CategoryFixed\<rparr>"

definition amqp_type_meta_data_extension_fixed_0 :: amqp_encoding_meta_data_t where
  "amqp_type_meta_data_extension_fixed_0 =
    \<lparr>format_code = 0x4f, width = 0, type_decoder = Decode_extension_type,
     type_name = ''extension'', encoding_name = ''fixed-0'', meta_flags = amqp_is_extension,
     category_name_index = CategoryFixed\<rparr>"

definition amqp_type_meta_data_ubyte :: amqp_encoding_meta_data_t where
  "amqp_type_meta_data_ubyte =
    \<lparr>format_code = 0x50, width = 1, type_decoder = Decode_ubyte,
     type_name = ''ubyte'', encoding_name = '''', meta_flags = amqp_is_byte OR amqp_is_unsigned,
     category_name_index = CategoryFixed\<rparr>"

definition amqp_type_meta_data_byte :: amqp_encoding_meta_data_t where
  "amqp_type_meta_data_byte =
    \<lparr>format_code = 0x51, width = 1, type_decoder = Decode_byte,
     type_name = ''byte'', encoding_name = '''', meta_flags = amqp_is_byte,
     category_name_index = CategoryFixed\<rparr>"

definition amqp_type_meta_data_uint_small_uint :: amqp_encoding_meta_data_t where
  "amqp_type_meta_data_uint_small_uint =
    \<lparr>format_code = 0x52, width = 1, type_decoder = Decode_small_uint,
     type_name = ''uint'', encoding_name = ''smalluint'', meta_flags = amqp_is_int OR amqp_is_unsigned,
     category_name_index = CategoryFixed\<rparr>"

definition amqp_type_meta_data_ulong_small_ulong :: amqp_encoding_meta_data_t where
  "amqp_type_meta_data_ulong_small_ulong =
    \<lparr>format_code = 0x53, width = 1, type_decoder = Decode_small_ulong,
     type_name = ''ulong'', encoding_name = ''smallulong'', meta_flags = amqp_is_long OR amqp_is_unsigned,
     category_name_index = CategoryFixed\<rparr>"

definition amqp_type_meta_data_int_small_int :: amqp_encoding_meta_data_t where
  "amqp_type_meta_data_int_small_int =
    \<lparr>format_code = 0x54, width = 1, type_decoder = Decode_small_int,
     type_name = ''int'', encoding_name = ''smallint'', meta_flags = amqp_is_int,
     category_name_index = CategoryFixed\<rparr>"

definition amqp_type_meta_data_long_small_long :: amqp_encoding_meta_data_t where
  "amqp_type_meta_data_long_small_long =
    \<lparr>format_code = 0x55, width = 1, type_decoder = Decode_small_long,
     type_name = ''long'', encoding_name = ''smalllong'', meta_flags = amqp_is_long,
     category_name_index = CategoryFixed\<rparr>"

definition amqp_type_meta_data_boolean :: amqp_encoding_meta_data_t where
  "amqp_type_meta_data_boolean =
    \<lparr>format_code = 0x56, width = 1, type_decoder = Decode_boolean,
     type_name = ''boolean'', encoding_name = '''', meta_flags = amqp_is_boolean,
     category_name_index = CategoryFixed\<rparr>"

definition amqp_type_meta_data_extension_fixed_1 :: amqp_encoding_meta_data_t where
  "amqp_type_meta_data_extension_fixed_1 =
    \<lparr>format_code = 0x5f, width = 1, type_decoder = Decode_extension_type,
     type_name = ''extension'', encoding_name = ''fixed-1'', meta_flags = amqp_is_extension,
     category_name_index = CategoryFixed\<rparr>"

definition amqp_type_meta_data_ushort :: amqp_encoding_meta_data_t where
  "amqp_type_meta_data_ushort =
    \<lparr>format_code = 0x60, width = 2, type_decoder = Decode_ushort,
     type_name = ''ushort'', encoding_name = '''', meta_flags = amqp_is_short OR amqp_is_unsigned,
     category_name_index = CategoryFixed\<rparr>"

definition amqp_type_meta_data_short :: amqp_encoding_meta_data_t where
  "amqp_type_meta_data_short =
    \<lparr>format_code = 0x61, width = 2, type_decoder = Decode_short,
     type_name = ''short'', encoding_name = '''', meta_flags = amqp_is_short,
     category_name_index = CategoryFixed\<rparr>"

definition amqp_type_meta_data_extension_fixed_2 :: amqp_encoding_meta_data_t where
  "amqp_type_meta_data_extension_fixed_2 =
    \<lparr>format_code = 0x6f, width = 2, type_decoder = Decode_extension_type,
     type_name = ''extension'', encoding_name = ''fixed-2'', meta_flags = amqp_is_extension,
     category_name_index = CategoryFixed\<rparr>"

definition amqp_type_meta_data_uint :: amqp_encoding_meta_data_t where
  "amqp_type_meta_data_uint =
    \<lparr>format_code = 0x70, width = 4, type_decoder = Decode_uint,
     type_name = ''uint'', encoding_name = '''', meta_flags = amqp_is_int OR amqp_is_unsigned,
     category_name_index = CategoryFixed\<rparr>"

definition amqp_type_meta_data_int :: amqp_encoding_meta_data_t where
  "amqp_type_meta_data_int =
    \<lparr>format_code = 0x71, width = 4, type_decoder = Decode_int,
     type_name = ''int'', encoding_name = '''', meta_flags = amqp_is_int,
     category_name_index = CategoryFixed\<rparr>"

definition amqp_type_meta_data_float_ieee_754 :: amqp_encoding_meta_data_t where
  "amqp_type_meta_data_float_ieee_754 =
    \<lparr>format_code = 0x72, width = 4, type_decoder = Decode_float,
     type_name = ''float'', encoding_name = ''ieee-754'', meta_flags = amqp_is_float,
     category_name_index = CategoryFixed\<rparr>"

definition amqp_type_meta_data_char_utf32 :: amqp_encoding_meta_data_t where
  "amqp_type_meta_data_char_utf32 =
    \<lparr>format_code = 0x73, width = 4, type_decoder = Decode_char,
     type_name = ''char'', encoding_name = ''utf32'', meta_flags = amqp_is_char,
     category_name_index = CategoryFixed\<rparr>"

definition amqp_type_meta_data_decimal32_ieee_754 :: amqp_encoding_meta_data_t where
  "amqp_type_meta_data_decimal32_ieee_754 =
    \<lparr>format_code = 0x74, width = 4, type_decoder = Decode_decimal32,
     type_name = ''decimal32'', encoding_name = ''ieee-754'', meta_flags = amqp_is_decimal32,
     category_name_index = CategoryFixed\<rparr>"

definition amqp_type_meta_data_extension_fixed_4 :: amqp_encoding_meta_data_t where
  "amqp_type_meta_data_extension_fixed_4 =
    \<lparr>format_code = 0x7f, width = 4, type_decoder = Decode_extension_type,
     type_name = ''extension'', encoding_name = ''fixed-4'', meta_flags = amqp_is_extension,
     category_name_index = CategoryFixed\<rparr>"

definition amqp_type_meta_data_ulong :: amqp_encoding_meta_data_t where
  "amqp_type_meta_data_ulong =
    \<lparr>format_code = 0x80, width = 8, type_decoder = Decode_ulong,
     type_name = ''ulong'', encoding_name = '''', meta_flags = amqp_is_long OR amqp_is_unsigned,
     category_name_index = CategoryFixed\<rparr>"

definition amqp_type_meta_data_long :: amqp_encoding_meta_data_t where
  "amqp_type_meta_data_long =
    \<lparr>format_code = 0x81, width = 8, type_decoder = Decode_long,
     type_name = ''long'', encoding_name = '''', meta_flags = amqp_is_long,
     category_name_index = CategoryFixed\<rparr>"

definition amqp_type_meta_data_double_ieee_754 :: amqp_encoding_meta_data_t where
  "amqp_type_meta_data_double_ieee_754 =
    \<lparr>format_code = 0x82, width = 8, type_decoder = Decode_double,
     type_name = ''double'', encoding_name = ''ieee-754'', meta_flags = amqp_is_double,
     category_name_index = CategoryFixed\<rparr>"

definition amqp_type_meta_data_timestamp_ms64 :: amqp_encoding_meta_data_t where
  "amqp_type_meta_data_timestamp_ms64 =
    \<lparr>format_code = 0x83, width = 8, type_decoder = Decode_timestamp,
     type_name = ''timestamp'', encoding_name = ''ms64'', meta_flags = amqp_is_timestamp,
     category_name_index = CategoryFixed\<rparr>"

definition amqp_type_meta_data_decimal64_ieee_754 :: amqp_encoding_meta_data_t where
  "amqp_type_meta_data_decimal64_ieee_754 =
    \<lparr>format_code = 0x84, width = 8, type_decoder = Decode_decimal64,
     type_name = ''decimal64'', encoding_name = ''ieee-754'', meta_flags = amqp_is_decimal64,
     category_name_index = CategoryFixed\<rparr>"

definition amqp_type_meta_data_extension_fixed_8 :: amqp_encoding_meta_data_t where
  "amqp_type_meta_data_extension_fixed_8 =
    \<lparr>format_code = 0x8f, width = 8, type_decoder = Decode_extension_type,
     type_name = ''extension'', encoding_name = ''fixed-8'', meta_flags = amqp_is_extension,
     category_name_index = CategoryFixed\<rparr>"

definition amqp_type_meta_data_decimal128_ieee_754 :: amqp_encoding_meta_data_t where
  "amqp_type_meta_data_decimal128_ieee_754 =
    \<lparr>format_code = 0x94, width = 16, type_decoder = Decode_decimal128,
     type_name = ''decimal128'', encoding_name = ''ieee-754'', meta_flags = amqp_is_decimal128,
     category_name_index = CategoryFixed\<rparr>"

definition amqp_type_meta_data_uuid :: amqp_encoding_meta_data_t where
  "amqp_type_meta_data_uuid =
    \<lparr>format_code = 0x98, width = 16, type_decoder = Decode_uuid,
     type_name = ''uuid'', encoding_name = '''', meta_flags = amqp_is_uuid,
     category_name_index = CategoryFixed\<rparr>"

definition amqp_type_meta_data_extension_fixed_16 :: amqp_encoding_meta_data_t where
  "amqp_type_meta_data_extension_fixed_16 =
    \<lparr>format_code = 0x9f, width = 16, type_decoder = Decode_extension_type,
     type_name = ''extension'', encoding_name = ''fixed-16'', meta_flags = amqp_is_extension,
     category_name_index = CategoryFixed\<rparr>"

definition amqp_type_meta_data_binary_vbin8 :: amqp_encoding_meta_data_t where
  "amqp_type_meta_data_binary_vbin8 =
    \<lparr>format_code = 0xa0, width = 1, type_decoder = Decode_binary_vbin8,
     type_name = ''binary'', encoding_name = ''vbin8'', meta_flags = amqp_is_binary,
     category_name_index = CategoryVariable\<rparr>"

definition amqp_type_meta_data_string_str8_utf8 :: amqp_encoding_meta_data_t where
  "amqp_type_meta_data_string_str8_utf8 =
    \<lparr>format_code = 0xa1, width = 1, type_decoder = Decode_string_str8_utf8,
     type_name = ''string'', encoding_name = ''str8-utf8'', meta_flags = amqp_is_string,
     category_name_index = CategoryVariable\<rparr>"

definition amqp_type_meta_data_symbol_sym8 :: amqp_encoding_meta_data_t where
  "amqp_type_meta_data_symbol_sym8 =
    \<lparr>format_code = 0xa3, width = 1, type_decoder = Decode_symbol_sym8,
     type_name = ''symbol'', encoding_name = ''sym8'', meta_flags = amqp_is_symbol,
     category_name_index = CategoryVariable\<rparr>"

definition amqp_type_meta_data_extension_variable_1 :: amqp_encoding_meta_data_t where
  "amqp_type_meta_data_extension_variable_1 =
    \<lparr>format_code = 0xaf, width = 1, type_decoder = Decode_extension_type,
     type_name = ''extension'', encoding_name = ''variable-1'', meta_flags = amqp_is_extension,
     category_name_index = CategoryVariable\<rparr>"

definition amqp_type_meta_data_binary_vbin32 :: amqp_encoding_meta_data_t where
  "amqp_type_meta_data_binary_vbin32 =
    \<lparr>format_code = 0xb0, width = 4, type_decoder = Decode_binary_vbin32,
     type_name = ''binary'', encoding_name = ''vbin32'', meta_flags = amqp_is_binary,
     category_name_index = CategoryVariable\<rparr>"

definition amqp_type_meta_data_string_str32_utf8 :: amqp_encoding_meta_data_t where
  "amqp_type_meta_data_string_str32_utf8 =
    \<lparr>format_code = 0xb1, width = 4, type_decoder = Decode_string_str32_utf8,
     type_name = ''string'', encoding_name = ''str32-utf8'', meta_flags = amqp_is_string,
     category_name_index = CategoryVariable\<rparr>"

definition amqp_type_meta_data_symbol_sym32 :: amqp_encoding_meta_data_t where
  "amqp_type_meta_data_symbol_sym32 =
    \<lparr>format_code = 0xb3, width = 4, type_decoder = Decode_symbol_sym32,
     type_name = ''symbol'', encoding_name = ''sym32'', meta_flags = amqp_is_symbol,
     category_name_index = CategoryVariable\<rparr>"

definition amqp_type_meta_data_extension_variable_4 :: amqp_encoding_meta_data_t where
  "amqp_type_meta_data_extension_variable_4 =
    \<lparr>format_code = 0xbf, width = 4, type_decoder = Decode_extension_type,
     type_name = ''extension'', encoding_name = ''variable-4'', meta_flags = amqp_is_extension,
     category_name_index = CategoryVariable\<rparr>"

definition amqp_type_meta_data_list_8 :: amqp_encoding_meta_data_t where
  "amqp_type_meta_data_list_8 =
    \<lparr>format_code = 0xc0, width = 1, type_decoder = Decode_list_8,
     type_name = ''list'', encoding_name = ''list8'', meta_flags = amqp_is_list,
     category_name_index = CategoryCompound\<rparr>"

definition amqp_type_meta_data_map_8 :: amqp_encoding_meta_data_t where
  "amqp_type_meta_data_map_8 =
    \<lparr>format_code = 0xc1, width = 1, type_decoder = Decode_map_8,
     type_name = ''map'', encoding_name = ''map8'', meta_flags = amqp_is_map,
     category_name_index = CategoryCompound\<rparr>"

definition amqp_type_meta_data_extension_compound_1 :: amqp_encoding_meta_data_t where
  "amqp_type_meta_data_extension_compound_1 =
    \<lparr>format_code = 0xcf, width = 1, type_decoder = Decode_extension_type,
     type_name = ''extension'', encoding_name = ''compound-1'', meta_flags = amqp_is_extension,
     category_name_index = CategoryCompound\<rparr>"

definition amqp_type_meta_data_list_32 :: amqp_encoding_meta_data_t where
  "amqp_type_meta_data_list_32 =
    \<lparr>format_code = 0xd0, width = 4, type_decoder = Decode_list_32,
     type_name = ''list'', encoding_name = ''list32'', meta_flags = amqp_is_list,
     category_name_index = CategoryCompound\<rparr>"

definition amqp_type_meta_data_map_32 :: amqp_encoding_meta_data_t where
  "amqp_type_meta_data_map_32 =
    \<lparr>format_code = 0xd1, width = 4, type_decoder = Decode_map_32,
     type_name = ''map'', encoding_name = ''map32'', meta_flags = amqp_is_map,
     category_name_index = CategoryCompound\<rparr>"

definition amqp_type_meta_data_extension_compound_4 :: amqp_encoding_meta_data_t where
  "amqp_type_meta_data_extension_compound_4 =
    \<lparr>format_code = 0xdf, width = 4, type_decoder = Decode_extension_type,
     type_name = ''extension'', encoding_name = ''compound-4'', meta_flags = amqp_is_extension,
     category_name_index = CategoryCompound\<rparr>"

definition amqp_type_meta_data_array_8 :: amqp_encoding_meta_data_t where
  "amqp_type_meta_data_array_8 =
    \<lparr>format_code = 0xe0, width = 1, type_decoder = Decode_array_8,
     type_name = ''array'', encoding_name = ''array8'', meta_flags = amqp_is_array,
     category_name_index = CategoryArray\<rparr>"

definition amqp_type_meta_data_extension_array_1 :: amqp_encoding_meta_data_t where
  "amqp_type_meta_data_extension_array_1 =
    \<lparr>format_code = 0xef, width = 1, type_decoder = Decode_extension_type,
     type_name = ''extension'', encoding_name = ''array-1'', meta_flags = amqp_is_extension,
     category_name_index = CategoryArray\<rparr>"

definition amqp_type_meta_data_array_32 :: amqp_encoding_meta_data_t where
  "amqp_type_meta_data_array_32 =
    \<lparr>format_code = 0xf0, width = 4, type_decoder = Decode_array_32,
     type_name = ''array'', encoding_name = ''array32'', meta_flags = amqp_is_array,
     category_name_index = CategoryArray\<rparr>"

definition amqp_type_meta_data_extension_array_4 :: amqp_encoding_meta_data_t where
  "amqp_type_meta_data_extension_array_4 =
    \<lparr>format_code = 0xff, width = 4, type_decoder = Decode_extension_type,
     type_name = ''extension'', encoding_name = ''array-4'', meta_flags = amqp_is_extension,
     category_name_index = CategoryArray\<rparr>"

definition amqp_type_lookup_table :: "amqp_encoding_meta_data_t list" where
  "amqp_type_lookup_table =
    [amqp_type_meta_data_described,
     amqp_type_meta_data_null,
     amqp_type_meta_data_boolean_true,
     amqp_type_meta_data_boolean_false,
     amqp_type_meta_data_uint_uint0,
     amqp_type_meta_data_ulong_ulong0,
     amqp_type_meta_data_list_0,
     amqp_type_meta_data_extension_fixed_0,
     amqp_type_meta_data_ubyte,
     amqp_type_meta_data_byte,
     amqp_type_meta_data_uint_small_uint,
     amqp_type_meta_data_ulong_small_ulong,
     amqp_type_meta_data_int_small_int,
     amqp_type_meta_data_long_small_long,
     amqp_type_meta_data_boolean,
     amqp_type_meta_data_extension_fixed_1,
     amqp_type_meta_data_ushort,
     amqp_type_meta_data_short,
     amqp_type_meta_data_extension_fixed_2,
     amqp_type_meta_data_uint,
     amqp_type_meta_data_int,
     amqp_type_meta_data_float_ieee_754,
     amqp_type_meta_data_char_utf32,
     amqp_type_meta_data_decimal32_ieee_754,
     amqp_type_meta_data_extension_fixed_4,
     amqp_type_meta_data_ulong,
     amqp_type_meta_data_long,
     amqp_type_meta_data_double_ieee_754,
     amqp_type_meta_data_timestamp_ms64,
     amqp_type_meta_data_decimal64_ieee_754,
     amqp_type_meta_data_extension_fixed_8,
     amqp_type_meta_data_decimal128_ieee_754,
     amqp_type_meta_data_uuid,
     amqp_type_meta_data_extension_fixed_16,
     amqp_type_meta_data_binary_vbin8,
     amqp_type_meta_data_string_str8_utf8,
     amqp_type_meta_data_symbol_sym8,
     amqp_type_meta_data_extension_variable_1,
     amqp_type_meta_data_binary_vbin32,
     amqp_type_meta_data_string_str32_utf8,
     amqp_type_meta_data_symbol_sym32,
     amqp_type_meta_data_extension_variable_4,
     amqp_type_meta_data_list_8,
     amqp_type_meta_data_map_8,
     amqp_type_meta_data_extension_compound_1,
     amqp_type_meta_data_list_32,
     amqp_type_meta_data_map_32,
     amqp_type_meta_data_extension_compound_4,
     amqp_type_meta_data_array_8,
     amqp_type_meta_data_extension_array_1,
     amqp_type_meta_data_array_32,
     amqp_type_meta_data_extension_array_4]"

lemmas meta_data_defs =
  amqp_type_meta_data_described_def
  amqp_type_meta_data_null_def
  amqp_type_meta_data_boolean_true_def
  amqp_type_meta_data_boolean_false_def
  amqp_type_meta_data_uint_uint0_def
  amqp_type_meta_data_ulong_ulong0_def
  amqp_type_meta_data_list_0_def
  amqp_type_meta_data_extension_fixed_0_def
  amqp_type_meta_data_ubyte_def
  amqp_type_meta_data_byte_def
  amqp_type_meta_data_uint_small_uint_def
  amqp_type_meta_data_ulong_small_ulong_def
  amqp_type_meta_data_int_small_int_def
  amqp_type_meta_data_long_small_long_def
  amqp_type_meta_data_boolean_def
  amqp_type_meta_data_extension_fixed_1_def
  amqp_type_meta_data_ushort_def
  amqp_type_meta_data_short_def
  amqp_type_meta_data_extension_fixed_2_def
  amqp_type_meta_data_uint_def
  amqp_type_meta_data_int_def
  amqp_type_meta_data_float_ieee_754_def
  amqp_type_meta_data_char_utf32_def
  amqp_type_meta_data_decimal32_ieee_754_def
  amqp_type_meta_data_extension_fixed_4_def
  amqp_type_meta_data_ulong_def
  amqp_type_meta_data_long_def
  amqp_type_meta_data_double_ieee_754_def
  amqp_type_meta_data_timestamp_ms64_def
  amqp_type_meta_data_decimal64_ieee_754_def
  amqp_type_meta_data_extension_fixed_8_def
  amqp_type_meta_data_decimal128_ieee_754_def
  amqp_type_meta_data_uuid_def
  amqp_type_meta_data_extension_fixed_16_def
  amqp_type_meta_data_binary_vbin8_def
  amqp_type_meta_data_string_str8_utf8_def
  amqp_type_meta_data_symbol_sym8_def
  amqp_type_meta_data_extension_variable_1_def
  amqp_type_meta_data_binary_vbin32_def
  amqp_type_meta_data_string_str32_utf8_def
  amqp_type_meta_data_symbol_sym32_def
  amqp_type_meta_data_extension_variable_4_def
  amqp_type_meta_data_list_8_def
  amqp_type_meta_data_map_8_def
  amqp_type_meta_data_extension_compound_1_def
  amqp_type_meta_data_list_32_def
  amqp_type_meta_data_map_32_def
  amqp_type_meta_data_extension_compound_4_def
  amqp_type_meta_data_array_8_def
  amqp_type_meta_data_extension_array_1_def
  amqp_type_meta_data_array_32_def
  amqp_type_meta_data_extension_array_4_def

section \<open>Lookup\<close>

text \<open>The loop of \<open>amqp_type_meta_data_lookup\<close>, a binary search over the positions \<open>s\<close> to \<open>e - 1\<close>.\<close>

function lookup_loop ::
  "amqp_encoding_meta_data_t list \<Rightarrow> int \<Rightarrow> nat \<Rightarrow> nat \<Rightarrow> amqp_encoding_meta_data_t option" where
  "lookup_loop tbl code s e =
    (if s < e
     then let m = s + (e - s) div 2; candidate = tbl ! m
          in if uint (format_code candidate) = code then Some candidate
             else if code < uint (format_code candidate) then lookup_loop tbl code s m
             else lookup_loop tbl code (m + 1) e
     else None)"
  by pat_completeness auto
termination
  by (relation "measure (\<lambda>(_, _, s, e). e - s)") (auto simp: Let_def)

declare lookup_loop.simps [simp del]

definition amqp_type_meta_data_lookup :: "int \<Rightarrow> amqp_encoding_meta_data_t option" where
  "amqp_type_meta_data_lookup code =
     lookup_loop amqp_type_lookup_table code 0 (length amqp_type_lookup_table)"

text \<open>
  On a table sorted by format code the search finds the entry with the code, if there is one.
\<close>

lemma lookup_loop_step:
  fixes s e :: nat
  assumes "s < e" "m = s + (e - s) div 2"
  shows "lookup_loop tbl code s e =
    (if uint (format_code (tbl ! m)) = code then Some (tbl ! m)
     else if code < uint (format_code (tbl ! m)) then lookup_loop tbl code s m
     else lookup_loop tbl code (m + 1) e)"
  using assms by (subst lookup_loop.simps) (simp add: Let_def)

lemma lookup_loop_empty: "\<not> s < e \<Longrightarrow> lookup_loop tbl code s e = None"
  by (subst lookup_loop.simps) simp

lemma lookup_loop_Some:
  "lookup_loop tbl code s e = Some d \<Longrightarrow> e \<le> length tbl \<Longrightarrow> d \<in> set tbl \<and> uint (format_code d) = code"
proof (induction tbl code s e rule: lookup_loop.induct)
  case (1 tbl code s e)
  define m where "m = s + (e - s) div 2"
  have se: "s < e" using "1.prems"(1) lookup_loop_empty by fastforce
  have m: "m < e" using se unfolding m_def by linarith
  note step = lookup_loop_step [OF se m_def, of tbl code]
  show ?case
  proof (cases "uint (format_code (tbl ! m)) = code")
    case True
    then show ?thesis using "1.prems" step m by auto
  next
    case ne: False
    show ?thesis
    proof (cases "code < uint (format_code (tbl ! m))")
      case True
      then show ?thesis using "1.IH"(1) [OF se m_def refl ne True] "1.prems" step ne m by simp
    next
      case False
      then show ?thesis using "1.IH"(2) [OF se m_def refl ne False] "1.prems" step ne by simp
    qed
  qed
qed

lemma lookup_loop_None:
  "lookup_loop tbl code s e = None \<Longrightarrow> sorted (map (\<lambda>d. uint (format_code d)) tbl) \<Longrightarrow> e \<le> length tbl \<Longrightarrow>
   s \<le> i \<Longrightarrow> i < e \<Longrightarrow> uint (format_code (tbl ! i)) \<noteq> code"
proof (induction tbl code s e rule: lookup_loop.induct)
  case (1 tbl code s e)
  define m where "m = s + (e - s) div 2"
  have se: "s < e" using "1.prems" by linarith
  have m: "m < e" "s \<le> m" using se unfolding m_def by linarith+
  have mono: "uint (format_code (tbl ! j)) \<le> uint (format_code (tbl ! k))" if "j \<le> k" "k < e" for j k
    using sorted_nth_mono [OF "1.prems"(2), of j k] that "1.prems"(3) by simp
  note lookup_loop_step [OF se m_def, of tbl code]
  then have ne: "uint (format_code (tbl ! m)) \<noteq> code"
    and low: "code < uint (format_code (tbl ! m)) \<Longrightarrow> lookup_loop tbl code s m = None"
    and high: "\<not> code < uint (format_code (tbl ! m)) \<Longrightarrow> lookup_loop tbl code (m + 1) e = None"
    using "1.prems"(1) by (auto split: if_splits)
  show ?case
  proof (cases "code < uint (format_code (tbl ! m))")
    case True
    show ?thesis
    proof (cases "i < m")
      case True
      with \<open>code < _\<close> show ?thesis
        using "1.IH"(1) [OF se m_def refl ne] low "1.prems"(2-4) m by simp
    next
      case False
      then show ?thesis using mono [of m i] True "1.prems"(5) by simp
    qed
  next
    case False
    show ?thesis
    proof (cases "m < i")
      case True
      with False show ?thesis
        using "1.IH"(2) [OF se m_def refl ne False] high "1.prems"(2,3,5) by simp
    next
      case False
      then show ?thesis using mono [of i m] \<open>\<not> code < _\<close> ne m by fastforce
    qed
  qed
qed

lemma table_codes:
  "map (\<lambda>d. uint (format_code d)) amqp_type_lookup_table =
    [0x00, 0x40, 0x41, 0x42, 0x43, 0x44, 0x45, 0x4f, 0x50, 0x51, 0x52, 0x53, 0x54, 0x55, 0x56, 0x5f,
     0x60, 0x61, 0x6f, 0x70, 0x71, 0x72, 0x73, 0x74, 0x7f, 0x80, 0x81, 0x82, 0x83, 0x84, 0x8f, 0x94,
     0x98, 0x9f, 0xa0, 0xa1, 0xa3, 0xaf, 0xb0, 0xb1, 0xb3, 0xbf, 0xc0, 0xc1, 0xcf, 0xd0, 0xd1, 0xdf,
     0xe0, 0xef, 0xf0, 0xff]"
  by (simp add: amqp_type_lookup_table_def meta_data_defs)

lemma table_sorted: "sorted (map (\<lambda>d. uint (format_code d)) amqp_type_lookup_table)"
  unfolding table_codes by simp

lemma table_distinct: "distinct (map (\<lambda>d. uint (format_code d)) amqp_type_lookup_table)"
  unfolding table_codes by simp

lemma lookup_iff:
  "amqp_type_meta_data_lookup code = Some d \<longleftrightarrow>
     d \<in> set amqp_type_lookup_table \<and> uint (format_code d) = code"
proof
  assume "amqp_type_meta_data_lookup code = Some d"
  then show "d \<in> set amqp_type_lookup_table \<and> uint (format_code d) = code"
    unfolding amqp_type_meta_data_lookup_def by (rule lookup_loop_Some) simp
next
  assume d: "d \<in> set amqp_type_lookup_table \<and> uint (format_code d) = code"
  then obtain i where i: "i < length amqp_type_lookup_table" "amqp_type_lookup_table ! i = d"
    by (auto simp: in_set_conv_nth)
  have "amqp_type_meta_data_lookup code \<noteq> None"
    using lookup_loop_None [of amqp_type_lookup_table code 0 "length amqp_type_lookup_table" i]
      table_sorted i d unfolding amqp_type_meta_data_lookup_def by auto
  then obtain d' where d': "amqp_type_meta_data_lookup code = Some d'" by blast
  then have "d' \<in> set amqp_type_lookup_table" "uint (format_code d') = code"
    unfolding amqp_type_meta_data_lookup_def by (auto dest: lookup_loop_Some)
  then have "d' = d" using d table_distinct by (auto simp: distinct_map inj_on_def)
  with d' show "amqp_type_meta_data_lookup code = Some d" by simp
qed

text \<open>Each entry is found under its own code.\<close>

lemma lookup_entry:
  "d \<in> set amqp_type_lookup_table \<Longrightarrow> amqp_type_meta_data_lookup (uint (format_code d)) = Some d"
  by (simp add: lookup_iff)

end
