(* ===== verification/Types.thy ===== *)
theory Types
  imports Buffer MetaData
begin

text \<open>
  The tagged value \<open>amqp_type_t\<close> of \<^verbatim>\<open>Codec/Type/Type.h\<close>, its pool and the arrays of element
  pointers of \<^verbatim>\<open>Codec/Type/Type.c\<close>. Values live in a heap indexed by address. Allocation hands out
  addresses in increasing order and never clears the object, as the memory pool does when it
  reuses a slot: what the object holds besides \<open>extension_type_code\<close> is whatever the heap has at
  the address. The arrays of element pointers come from \<open>amqp_malloc\<close>, which clears them, and
  have addresses of their own, so that a dangling pointer and a double free are observable as
  the fault \<open>BadMemory\<close>.
\<close>

section \<open>Error codes\<close>

abbreviation AMQP_ERROR_BUFFER_OVERRUN :: int where "AMQP_ERROR_BUFFER_OVERRUN \<equiv> 0x1000"
abbreviation AMQP_ERROR_BUFFER_INDEX_OUT_OF_BOUNDS :: int where "AMQP_ERROR_BUFFER_INDEX_OUT_OF_BOUNDS \<equiv> 0x1001"
abbreviation AMQP_ERROR_BUFFER_WOULD_OVERRUN :: int where "AMQP_ERROR_BUFFER_WOULD_OVERRUN \<equiv> 0x1002"
abbreviation AMQP_ERROR_UNKNOWN_FORMAT_CODE :: int where "AMQP_ERROR_UNKNOWN_FORMAT_CODE \<equiv> 0x1003"
abbreviation AMQP_ERROR_UNKNOWN_ARRAY_ELEMENT_FORMAT_CODE :: int where "AMQP_ERROR_UNKNOWN_ARRAY_ELEMENT_FORMAT_CODE \<equiv> 0x1004"
abbreviation AMQP_ERROR_UNSUPPORTED_FORMAT_CODE :: int where "AMQP_ERROR_UNSUPPORTED_FORMAT_CODE \<equiv> 0x1005"
abbreviation AMQP_ERROR_BUFFER_POSITION_OUT_OF_BOUNDS :: int where "AMQP_ERROR_BUFFER_POSITION_OUT_OF_BOUNDS \<equiv> 0x1006"
abbreviation AMQP_ERROR_INVALID_SYMBOL_CHARACTER :: int where "AMQP_ERROR_INVALID_SYMBOL_CHARACTER \<equiv> 0x1007"
abbreviation AMQP_ERROR_INVALID_UTF8_CHARACTER :: int where "AMQP_ERROR_INVALID_UTF8_CHARACTER \<equiv> 0x1008"
abbreviation AMQP_ERROR_INVALID_UTF32_CHARACTER :: int where "AMQP_ERROR_INVALID_UTF32_CHARACTER \<equiv> 0x1009"
abbreviation AMQP_ERROR_VARIABLE_TYPE_MALFORMED :: int where "AMQP_ERROR_VARIABLE_TYPE_MALFORMED \<equiv> 0x100a"
abbreviation AMQP_ERROR_INVALID_FRAME_HEADER :: int where "AMQP_ERROR_INVALID_FRAME_HEADER \<equiv> 0x100b"
abbreviation AMQP_ERROR_ARRAY_ELEMENT_TYPE_INCORRECT :: int where "AMQP_ERROR_ARRAY_ELEMENT_TYPE_INCORRECT \<equiv> 0x100c"
abbreviation AMQP_ERROR_ARRAY_ELEMENT_TYPE_MISMATCH :: int where "AMQP_ERROR_ARRAY_ELEMENT_TYPE_MISMATCH \<equiv> 0x100d"
abbreviation AMQP_ERROR_DESCRIBED_TYPE_OVERFLOW :: int where "AMQP_ERROR_DESCRIBED_TYPE_OVERFLOW \<equiv> 0x100e"
abbreviation AMQP_ERROR_COMPLETE_WRONG_CONTAINER :: int where "AMQP_ERROR_COMPLETE_WRONG_CONTAINER \<equiv> 0x100f"
abbreviation AMQP_ERROR_NO_DESCRIPTOR :: int where "AMQP_ERROR_NO_DESCRIPTOR \<equiv> 0x1010"
abbreviation AMQP_ERROR_NO_DESCRIBED_TYPE :: int where "AMQP_ERROR_NO_DESCRIBED_TYPE \<equiv> 0x1011"
abbreviation AMQP_ERROR_DESCRIPTOR_INVALID :: int where "AMQP_ERROR_DESCRIPTOR_INVALID \<equiv> 0x1012"
abbreviation AMQP_ERROR_DESCRIBED_INVALID :: int where "AMQP_ERROR_DESCRIBED_INVALID \<equiv> 0x1013"
abbreviation AMQP_ERROR_INVALID_FRAME_SIZE :: int where "AMQP_ERROR_INVALID_FRAME_SIZE \<equiv> 0x1014"
abbreviation AMQP_ERROR_INCOMPLETE_WRITE :: int where "AMQP_ERROR_INCOMPLETE_WRITE \<equiv> 0x1015"
abbreviation AMQP_ERROR_INCOMPLETE_FRAME_HEADER :: int where "AMQP_ERROR_INCOMPLETE_FRAME_HEADER \<equiv> 0x1016"
abbreviation AMQP_ERROR_INCOMPLETE_FRAME :: int where "AMQP_ERROR_INCOMPLETE_FRAME \<equiv> 0x1017"
abbreviation AMQP_ERROR_MEMORY_ERROR :: int where "AMQP_ERROR_MEMORY_ERROR \<equiv> 0x1018"
abbreviation AMQP_ERROR_BLOCK_NOT_FREED :: int where "AMQP_ERROR_BLOCK_NOT_FREED \<equiv> 0x1019"
abbreviation AMQP_ERROR_OBJECT_NOT_DEALLOCATED :: int where "AMQP_ERROR_OBJECT_NOT_DEALLOCATED \<equiv> 0x101a"
abbreviation AMQP_ERROR_ILLEGAL_STATE :: int where "AMQP_ERROR_ILLEGAL_STATE \<equiv> 0x101b"
abbreviation AMQP_ERROR_NEGOTIATION_FAILED :: int where "AMQP_ERROR_NEGOTIATION_FAILED \<equiv> 0x101c"
abbreviation AMQP_ERROR_NO_PROTOCOL :: int where "AMQP_ERROR_NO_PROTOCOL \<equiv> 0x101d"
abbreviation AMQP_ERROR_UNKNOWN_PROTOCOL :: int where "AMQP_ERROR_UNKNOWN_PROTOCOL \<equiv> 0x101e"
abbreviation AMQP_ERROR_INVALID_HEADER :: int where "AMQP_ERROR_INVALID_HEADER \<equiv> 0x101f"
abbreviation AMQP_ERROR_UNITIALIZED_ACTION :: int where "AMQP_ERROR_UNITIALIZED_ACTION \<equiv> 0x1020"
abbreviation AMQP_ERROR_PARTIAL_READ :: int where "AMQP_ERROR_PARTIAL_READ \<equiv> 0x1021"
abbreviation AMQP_ERROR_CLIENT_DISCONNECT :: int where "AMQP_ERROR_CLIENT_DISCONNECT \<equiv> 0x1022"
abbreviation AMQP_ERROR_BROKER_DISCONNECT :: int where "AMQP_ERROR_BROKER_DISCONNECT \<equiv> 0x1023"
abbreviation AMQP_ERROR_WRITE_DISCHARGE_TIMEOUT :: int where "AMQP_ERROR_WRITE_DISCHARGE_TIMEOUT \<equiv> 0x1024"
abbreviation AMQP_ERROR_INPUT_DRAIN_TIMEOUT :: int where "AMQP_ERROR_INPUT_DRAIN_TIMEOUT \<equiv> 0x1025"
abbreviation AMQP_ERROR_CORRUPT_FRAME_HEADER :: int where "AMQP_ERROR_CORRUPT_FRAME_HEADER \<equiv> 0x1026"
abbreviation AMQP_ERROR_INVALID_FRAME_TYPE :: int where "AMQP_ERROR_INVALID_FRAME_TYPE \<equiv> 0x1027"
abbreviation AMQP_ERROR_INVALID_FRAME :: int where "AMQP_ERROR_INVALID_FRAME \<equiv> 0x1028"
abbreviation AMQP_ERROR_FRAME_DECODE_FAILED :: int where "AMQP_ERROR_FRAME_DECODE_FAILED \<equiv> 0x1029"
abbreviation AMQP_ERROR_MULTIPLE_DECODE_FAILED :: int where "AMQP_ERROR_MULTIPLE_DECODE_FAILED \<equiv> 0x102a"
abbreviation AMQP_ERROR_NO_SASL_MECHANISM :: int where "AMQP_ERROR_NO_SASL_MECHANISM \<equiv> 0x102b"
abbreviation AMQP_ERROR_FRAME_FIELD_DECODE_FAILED :: int where "AMQP_ERROR_FRAME_FIELD_DECODE_FAILED \<equiv> 0x102c"
abbreviation AMQP_ERROR_FRAME_FIELD_RANGE_ERROR :: int where "AMQP_ERROR_FRAME_FIELD_RANGE_ERROR \<equiv> 0x102d"
abbreviation AMQP_ERROR_NO_HOST_NAME :: int where "AMQP_ERROR_NO_HOST_NAME \<equiv> 0x102e"
abbreviation AMQP_ERROR_SASL_PLUGINS_REGISTERED :: int where "AMQP_ERROR_SASL_PLUGINS_REGISTERED \<equiv> 0x102f"
abbreviation AMQP_ERROR_UNSUPPORTED_SASL_MECHANISM :: int where "AMQP_ERROR_UNSUPPORTED_SASL_MECHANISM \<equiv> 0x1030"
abbreviation AMQP_ERROR_OUT_OF_SEQUENCE_SASL_FRAME :: int where "AMQP_ERROR_OUT_OF_SEQUENCE_SASL_FRAME \<equiv> 0x1031"
abbreviation AMQP_ERROR_OUT_OF_SEQUENCE_AMQP_FRAME :: int where "AMQP_ERROR_OUT_OF_SEQUENCE_AMQP_FRAME \<equiv> 0x1032"

section \<open>State\<close>

record amqp_type_constructor_t =
  meta_data :: "amqp_encoding_meta_data_t option"
  typedef_flags :: uint32
  constructor_format_code :: byte
  extension_type_code :: byte

record amqp_buffer_position_t =
  position_index :: nat
  position_size :: nat

text \<open>
  The union \<open>value\<close>. The views \<open>b1\<close>, \<open>b2\<close>, \<open>b4\<close> and \<open>b8\<close> overlay one another and are the low bytes of
  \<open>value_b8\<close>; \<open>compound\<close>, \<open>list\<close>, \<open>map\<close>, \<open>described\<close> and the first two members of \<open>array\<close> are one
  view, \<open>value_count\<close> and \<open>value_elements\<close>. No function reads one of these groups after having
  written another. The view \<open>variable.buffer\<close> is the buffer the codec works on and is passed as
  an argument.
\<close>

record amqp_value_t =
  value_b8 :: uint64
  value_uuid :: "byte list"
  value_count :: nat
  value_elements :: "nat option"
  value_array_constructor :: "nat option"

record amqp_type_t =
  invalid_cause :: int
  constructor :: amqp_type_constructor_t
  position :: amqp_buffer_position_t
  value_of :: amqp_value_t
  saved_container :: "nat option"

text \<open>The part of \<open>amqp_context_t\<close> the codec uses: the pool of values, the arrays, \<open>encode.container\<close> and one setting.\<close>

record amqp_context_t =
  types :: "nat \<Rightarrow> amqp_type_t"
  live :: "nat \<Rightarrow> bool"
  next_type :: nat
  arrays :: "nat \<rightharpoonup> nat option list"
  next_array :: nat
  encode_container :: "nat option"
  continue_on_usage_error :: bool

definition update_type :: "amqp_context_t \<Rightarrow> nat \<Rightarrow> (amqp_type_t \<Rightarrow> amqp_type_t) \<Rightarrow> amqp_context_t" where
  "update_type context a f = context\<lparr>types := (types context)(a := f (types context a))\<rparr>"

lemma types_update_same [simp]: "types (update_type c a f) a = f (types c a)"
  and types_update_other: "x \<noteq> a \<Longrightarrow> types (update_type c a f) x = types c x"
  and update_type_fields [simp]:
    "next_type (update_type c a f) = next_type c" "next_array (update_type c a f) = next_array c"
    "arrays (update_type c a f) = arrays c" "live (update_type c a f) = live c"
    "encode_container (update_type c a f) = encode_container c"
    "continue_on_usage_error (update_type c a f) = continue_on_usage_error c"
  by (auto simp: update_type_def)

section \<open>Views of the value\<close>

definition value_b1 :: "amqp_value_t \<Rightarrow> byte" where "value_b1 v = ucast (value_b8 v)"
definition value_b2 :: "amqp_value_t \<Rightarrow> uint16" where "value_b2 v = ucast (value_b8 v)"
definition value_b4 :: "amqp_value_t \<Rightarrow> uint32" where "value_b4 v = ucast (value_b8 v)"

text \<open>Storing a view leaves the bytes above it as they were.\<close>

definition set_b1 :: "byte \<Rightarrow> amqp_value_t \<Rightarrow> amqp_value_t" where
  "set_b1 x v = v\<lparr>value_b8 := (value_b8 v AND NOT (mask 8)) OR ucast x\<rparr>"
definition set_b2 :: "uint16 \<Rightarrow> amqp_value_t \<Rightarrow> amqp_value_t" where
  "set_b2 x v = v\<lparr>value_b8 := (value_b8 v AND NOT (mask 16)) OR ucast x\<rparr>"
definition set_b4 :: "uint32 \<Rightarrow> amqp_value_t \<Rightarrow> amqp_value_t" where
  "set_b4 x v = v\<lparr>value_b8 := (value_b8 v AND NOT (mask 32)) OR ucast x\<rparr>"
definition set_b8 :: "uint64 \<Rightarrow> amqp_value_t \<Rightarrow> amqp_value_t" where
  "set_b8 x v = v\<lparr>value_b8 := x\<rparr>"

lemma b1_set_b1 [simp]: "value_b1 (set_b1 x v) = x"
  by (rule bit_word_eqI) (auto simp: value_b1_def set_b1_def bit_simps)

lemma b2_set_b2 [simp]: "value_b2 (set_b2 x v) = x"
  by (rule bit_word_eqI) (auto simp: value_b2_def set_b2_def bit_simps)

lemma b4_set_b4 [simp]: "value_b4 (set_b4 x v) = x"
  by (rule bit_word_eqI) (auto simp: value_b4_def set_b4_def bit_simps)

lemma b8_set_b8 [simp]: "value_b8 (set_b8 x v) = x"
  by (simp add: set_b8_def)

lemma set_views_other [simp]:
  "value_uuid (set_b1 x1 v) = value_uuid v" "value_uuid (set_b2 x2 v) = value_uuid v"
  "value_uuid (set_b4 x4 v) = value_uuid v" "value_uuid (set_b8 x8 v) = value_uuid v"
  "value_count (set_b1 x1 v) = value_count v" "value_count (set_b2 x2 v) = value_count v"
  "value_count (set_b4 x4 v) = value_count v" "value_count (set_b8 x8 v) = value_count v"
  "value_elements (set_b1 x1 v) = value_elements v" "value_elements (set_b2 x2 v) = value_elements v"
  "value_elements (set_b4 x4 v) = value_elements v" "value_elements (set_b8 x8 v) = value_elements v"
  by (simp_all add: set_b1_def set_b2_def set_b4_def set_b8_def)

section \<open>Flags\<close>

definition has_flags :: "amqp_type_t \<Rightarrow> uint32 \<Rightarrow> bool" where
  "has_flags t bits \<longleftrightarrow> typedef_flags (constructor t) AND bits \<noteq> 0"

definition amqp_typedef_flags_set :: "uint32 \<Rightarrow> amqp_type_t \<Rightarrow> amqp_type_t" where
  "amqp_typedef_flags_set flags t =
     t\<lparr>constructor := constructor t\<lparr>typedef_flags := typedef_flags (constructor t) OR flags\<rparr>\<rparr>"

definition amqp_typedef_flags_clear :: "uint32 \<Rightarrow> amqp_type_t \<Rightarrow> amqp_type_t" where
  "amqp_typedef_flags_clear bits t =
     t\<lparr>constructor := constructor t\<lparr>typedef_flags := typedef_flags (constructor t) AND NOT bits\<rparr>\<rparr>"

definition amqp_typedef_flags_test :: "amqp_type_t \<Rightarrow> uint32 \<Rightarrow> uint32" where
  "amqp_typedef_flags_test t bits = typedef_flags (constructor t) AND bits"

text \<open>A null pointer counts as the null value.\<close>

definition amqp_type_is_null :: "amqp_type_t option \<Rightarrow> bool" where
  "amqp_type_is_null p = (case p of None \<Rightarrow> True | Some t \<Rightarrow> has_flags t amqp_is_null)"

definition amqp_type_is_not_null :: "amqp_type_t option \<Rightarrow> bool" where
  "amqp_type_is_not_null p = (case p of None \<Rightarrow> False | Some t \<Rightarrow> \<not> has_flags t amqp_is_null)"

definition amqp_type_is_boolean :: "amqp_type_t \<Rightarrow> bool" where
  "amqp_type_is_boolean t \<longleftrightarrow> has_flags t amqp_is_boolean"

definition amqp_type_is_unsigned :: "amqp_type_t \<Rightarrow> bool" where
  "amqp_type_is_unsigned t \<longleftrightarrow> has_flags t amqp_is_unsigned"

definition amqp_type_is_ubyte :: "amqp_type_t \<Rightarrow> bool" where
  "amqp_type_is_ubyte t \<longleftrightarrow>
     typedef_flags (constructor t) AND (amqp_is_byte OR amqp_is_unsigned) = amqp_is_byte OR amqp_is_unsigned"

definition amqp_type_is_ushort :: "amqp_type_t \<Rightarrow> bool" where
  "amqp_type_is_ushort t \<longleftrightarrow>
     typedef_flags (constructor t) AND (amqp_is_short OR amqp_is_unsigned) = amqp_is_short OR amqp_is_unsigned"

definition amqp_type_is_uint :: "amqp_type_t \<Rightarrow> bool" where
  "amqp_type_is_uint t \<longleftrightarrow>
     typedef_flags (constructor t) AND (amqp_is_int OR amqp_is_unsigned) = amqp_is_int OR amqp_is_unsigned"

definition amqp_type_is_ulong :: "amqp_type_t \<Rightarrow> bool" where
  "amqp_type_is_ulong t \<longleftrightarrow>
     typedef_flags (constructor t) AND (amqp_is_long OR amqp_is_unsigned) = amqp_is_long OR amqp_is_unsigned"

definition amqp_type_is_signed :: "amqp_type_t \<Rightarrow> bool" where
  "amqp_type_is_signed t \<longleftrightarrow> \<not> has_flags t amqp_is_unsigned"

definition amqp_type_is_byte :: "amqp_type_t \<Rightarrow> bool" where
  "amqp_type_is_byte t \<longleftrightarrow> has_flags t amqp_is_byte \<and> amqp_type_is_signed t"

definition amqp_type_is_short :: "amqp_type_t \<Rightarrow> bool" where
  "amqp_type_is_short t \<longleftrightarrow> has_flags t amqp_is_short \<and> amqp_type_is_signed t"

definition amqp_type_is_int :: "amqp_type_t \<Rightarrow> bool" where
  "amqp_type_is_int t \<longleftrightarrow> has_flags t amqp_is_int \<and> amqp_type_is_signed t"

definition amqp_type_is_long :: "amqp_type_t \<Rightarrow> bool" where
  "amqp_type_is_long t \<longleftrightarrow> has_flags t amqp_is_long \<and> amqp_type_is_signed t"

definition amqp_type_is_float :: "amqp_type_t \<Rightarrow> bool" where
  "amqp_type_is_float t \<longleftrightarrow> has_flags t amqp_is_float"

definition amqp_type_is_double :: "amqp_type_t \<Rightarrow> bool" where
  "amqp_type_is_double t \<longleftrightarrow> has_flags t amqp_is_double"

definition amqp_type_is_timestamp :: "amqp_type_t \<Rightarrow> bool" where
  "amqp_type_is_timestamp t \<longleftrightarrow> has_flags t amqp_is_timestamp"

definition amqp_type_is_uuid :: "amqp_type_t \<Rightarrow> bool" where
  "amqp_type_is_uuid t \<longleftrightarrow> has_flags t amqp_is_uuid"

definition amqp_type_is_decimal32 :: "amqp_type_t \<Rightarrow> bool" where
  "amqp_type_is_decimal32 t \<longleftrightarrow> has_flags t amqp_is_decimal32"

definition amqp_type_is_decimal64 :: "amqp_type_t \<Rightarrow> bool" where
  "amqp_type_is_decimal64 t \<longleftrightarrow> has_flags t amqp_is_decimal64"

definition amqp_type_is_decimal128 :: "amqp_type_t \<Rightarrow> bool" where
  "amqp_type_is_decimal128 t \<longleftrightarrow> has_flags t amqp_is_decimal128"

definition amqp_type_is_char :: "amqp_type_t \<Rightarrow> bool" where
  "amqp_type_is_char t \<longleftrightarrow> has_flags t amqp_is_char"

definition amqp_type_is_binary :: "amqp_type_t \<Rightarrow> bool" where
  "amqp_type_is_binary t \<longleftrightarrow> has_flags t amqp_is_binary"

definition amqp_type_is_string :: "amqp_type_t \<Rightarrow> bool" where
  "amqp_type_is_string t \<longleftrightarrow> has_flags t amqp_is_string"

definition amqp_type_is_symbol :: "amqp_type_t \<Rightarrow> bool" where
  "amqp_type_is_symbol t \<longleftrightarrow> has_flags t amqp_is_symbol"

definition amqp_type_is_variable :: "amqp_type_t \<Rightarrow> bool" where
  "amqp_type_is_variable t \<longleftrightarrow> has_flags t amqp_is_variable_mask"

definition amqp_type_is_list :: "amqp_type_t \<Rightarrow> bool" where
  "amqp_type_is_list t \<longleftrightarrow> has_flags t amqp_is_list"

definition amqp_type_is_map :: "amqp_type_t \<Rightarrow> bool" where
  "amqp_type_is_map t \<longleftrightarrow> has_flags t amqp_is_map"

definition amqp_type_is_array :: "amqp_type_t \<Rightarrow> bool" where
  "amqp_type_is_array t \<longleftrightarrow> has_flags t amqp_is_array"

definition amqp_type_is_container :: "amqp_type_t \<Rightarrow> bool" where
  "amqp_type_is_container t \<longleftrightarrow> has_flags t amqp_is_container_mask"

definition amqp_type_is_composite :: "amqp_type_t \<Rightarrow> bool" where
  "amqp_type_is_composite t \<longleftrightarrow> has_flags t amqp_is_composite"

definition amqp_type_is_descriptor :: "amqp_type_t \<Rightarrow> bool" where
  "amqp_type_is_descriptor t \<longleftrightarrow> has_flags t amqp_is_descriptor"

definition amqp_type_is_described :: "amqp_type_t \<Rightarrow> bool" where
  "amqp_type_is_described t \<longleftrightarrow> has_flags t amqp_is_described"

definition amqp_type_is_encoded :: "amqp_type_t \<Rightarrow> bool" where
  "amqp_type_is_encoded t \<longleftrightarrow> has_flags t amqp_is_encoded"

definition amqp_type_is_incomplete :: "amqp_type_t \<Rightarrow> bool" where
  "amqp_type_is_incomplete t \<longleftrightarrow> has_flags t amqp_is_incomplete"

definition amqp_type_is_empty_list :: "amqp_type_t \<Rightarrow> bool" where
  "amqp_type_is_empty_list t \<longleftrightarrow> amqp_type_is_list t \<and> value_count (value_of t) = 0"

definition amqp_type_is_valid :: "amqp_type_t \<Rightarrow> bool" where
  "amqp_type_is_valid t \<longleftrightarrow> \<not> has_flags t (amqp_is_invalid OR amqp_is_incomplete)"

definition amqp_type_is_invalid :: "amqp_type_t \<Rightarrow> bool" where
  "amqp_type_is_invalid t \<longleftrightarrow> has_flags t (amqp_is_invalid OR amqp_is_incomplete)"

definition amqp_type_is_contained :: "amqp_type_t \<Rightarrow> bool" where
  "amqp_type_is_contained t \<longleftrightarrow> has_flags t amqp_is_contained"

definition amqp_mark_type_invalid :: "int \<Rightarrow> amqp_type_t \<Rightarrow> amqp_type_t" where
  "amqp_mark_type_invalid cause t = (amqp_typedef_flags_set amqp_is_invalid t)\<lparr>invalid_cause := cause\<rparr>"

definition amqp_type_match :: "amqp_type_t \<Rightarrow> amqp_type_t \<Rightarrow> bool" where
  "amqp_type_match lhs rhs \<longleftrightarrow>
     constructor_format_code (constructor lhs) = constructor_format_code (constructor rhs)"

text \<open>\<open>wchar_t\<close> is a signed 32-bit integer on the supported platforms.\<close>

definition amqp_validate_char :: "uint32 \<Rightarrow> bool" where
  "amqp_validate_char c \<longleftrightarrow> sint c < 0xd800 \<or> (0xdfff < sint c \<and> sint c \<le> 0x10ffff)"

section \<open>Conversions\<close>

definition amqp_type_to_boolean :: "amqp_type_t \<Rightarrow> int" where
  "amqp_type_to_boolean t = sint (value_b1 (value_of t))"

definition amqp_type_to_ubyte :: "amqp_type_t \<Rightarrow> byte run" where
  "amqp_type_to_ubyte t = run_assert (amqp_type_is_ubyte t) (Ret (value_b1 (value_of t)))"

definition amqp_type_to_byte :: "amqp_type_t \<Rightarrow> byte run" where
  "amqp_type_to_byte t = run_assert (amqp_type_is_byte t) (Ret (value_b1 (value_of t)))"

definition amqp_type_to_ushort :: "amqp_type_t \<Rightarrow> uint16 run" where
  "amqp_type_to_ushort t = run_assert (amqp_type_is_ushort t) (Ret (value_b2 (value_of t)))"

definition amqp_type_to_short :: "amqp_type_t \<Rightarrow> uint16 run" where
  "amqp_type_to_short t = run_assert (amqp_type_is_short t) (Ret (value_b2 (value_of t)))"

definition amqp_type_to_uint :: "amqp_type_t \<Rightarrow> uint32 run" where
  "amqp_type_to_uint t = run_assert (amqp_type_is_uint t) (Ret (value_b4 (value_of t)))"

definition amqp_type_to_int :: "amqp_type_t \<Rightarrow> uint32 run" where
  "amqp_type_to_int t = run_assert (amqp_type_is_int t) (Ret (value_b4 (value_of t)))"

definition amqp_type_to_char :: "amqp_type_t \<Rightarrow> uint32 run" where
  "amqp_type_to_char t = run_assert (amqp_type_is_char t) (Ret (value_b4 (value_of t)))"

definition amqp_type_to_ulong :: "amqp_type_t \<Rightarrow> uint64 run" where
  "amqp_type_to_ulong t = run_assert (amqp_type_is_ulong t) (Ret (value_b8 (value_of t)))"

definition amqp_type_to_long :: "amqp_type_t \<Rightarrow> uint64 run" where
  "amqp_type_to_long t = run_assert (amqp_type_is_long t) (Ret (value_b8 (value_of t)))"

definition amqp_type_to_timestamp :: "amqp_type_t \<Rightarrow> uint64 run" where
  "amqp_type_to_timestamp t = run_assert (amqp_type_is_timestamp t) (Ret (value_b8 (value_of t)))"

definition amqp_type_to_float :: "amqp_type_t \<Rightarrow> uint32 run" where
  "amqp_type_to_float t = run_assert (amqp_type_is_float t) (Ret (value_b4 (value_of t)))"

definition amqp_type_to_double :: "amqp_type_t \<Rightarrow> uint64 run" where
  "amqp_type_to_double t = run_assert (amqp_type_is_double t) (Ret (value_b8 (value_of t)))"

text \<open>The signed and floating types keep their bits: \<open>sint\<close> reads the signed ones.\<close>

section \<open>Pool and element arrays\<close>

definition amqp_initialize_amqp_type_t :: "amqp_type_t \<Rightarrow> amqp_type_t" where
  "amqp_initialize_amqp_type_t t = t\<lparr>constructor := constructor t\<lparr>extension_type_code := - 1\<rparr>\<rparr>"

definition amqp_allocate_type :: "amqp_context_t \<Rightarrow> nat \<times> amqp_context_t" where
  "amqp_allocate_type context =
    (let a = next_type context
     in (a, update_type (context\<lparr>live := (live context)(a := True), next_type := a + 1\<rparr>) a
              amqp_initialize_amqp_type_t))"

definition amqp_allocate_amqp_type_t_array :: "amqp_context_t \<Rightarrow> nat \<Rightarrow> nat \<times> amqp_context_t" where
  "amqp_allocate_amqp_type_t_array context count =
    (let n = (count div 16 + 1) * 16; p = next_array context
     in (p, context\<lparr>arrays := (arrays context)(p \<mapsto> replicate n None), next_array := p + 1\<rparr>))"

text \<open>
  \<open>amqp_realloc\<close> keeps the block when it is already long enough; a block that moves is the
  same array here.
\<close>

definition amqp_realloc_amqp_type_t_array :: "amqp_context_t \<Rightarrow> nat \<Rightarrow> nat \<Rightarrow> (nat \<times> amqp_context_t) run" where
  "amqp_realloc_amqp_type_t_array context elements count =
    (let old_n = ((count - 1) div 16 + 1) * 16; new_n = (count div 16 + 1) * 16
     in if old_n < new_n
        then case arrays context elements of
               None \<Rightarrow> Fault BadMemory
             | Some es \<Rightarrow> Ret (elements, context\<lparr>arrays := (arrays context)(elements \<mapsto>
                              es @ replicate (new_n - length es) None)\<rparr>)
        else Ret (elements, context))"

definition store_element :: "amqp_context_t \<Rightarrow> nat option \<Rightarrow> nat \<Rightarrow> nat \<Rightarrow> amqp_context_t run" where
  "store_element context elements i a =
    (case elements of
       None \<Rightarrow> Fault BadMemory
     | Some p \<Rightarrow>
         (case arrays context p of
            None \<Rightarrow> Fault BadMemory
          | Some es \<Rightarrow> if i < length es
                       then Ret (context\<lparr>arrays := (arrays context)(p \<mapsto> es[i := Some a])\<rparr>)
                       else Fault BadMemory))"

definition load_element :: "amqp_context_t \<Rightarrow> nat option \<Rightarrow> nat \<Rightarrow> nat option run" where
  "load_element context elements i =
    (case elements of
       None \<Rightarrow> Fault BadMemory
     | Some p \<Rightarrow>
         (case arrays context p of
            None \<Rightarrow> Fault BadMemory
          | Some es \<Rightarrow> if i < length es then Ret (es ! i) else Fault BadMemory))"

definition amqp_type_list_element :: "amqp_context_t \<Rightarrow> amqp_type_t \<Rightarrow> nat \<Rightarrow> nat option run" where
  "amqp_type_list_element context t index =
     run_assert (amqp_type_is_list t \<and> index < value_count (value_of t))
       (load_element context (value_elements (value_of t)) index)"

definition amqp_type_map_element :: "amqp_context_t \<Rightarrow> amqp_type_t \<Rightarrow> nat \<Rightarrow> nat option run" where
  "amqp_type_map_element context t index =
     run_assert (amqp_type_is_map t \<and> index < value_count (value_of t))
       (load_element context (value_elements (value_of t)) index)"

definition amqp_type_get_descriptor :: "amqp_context_t \<Rightarrow> amqp_type_t \<Rightarrow> nat option run" where
  "amqp_type_get_descriptor context t =
     run_assert (amqp_type_is_composite t) (load_element context (value_elements (value_of t)) 0)"

definition amqp_type_get_described :: "amqp_context_t \<Rightarrow> amqp_type_t \<Rightarrow> nat option run" where
  "amqp_type_get_described context t =
     run_assert (amqp_type_is_composite t) (load_element context (value_elements (value_of t)) 1)"

definition amqp_type_array_type :: "amqp_type_t \<Rightarrow> nat option run" where
  "amqp_type_array_type t =
     run_assert (amqp_type_is_array t) (Ret (value_array_constructor (value_of t)))"

definition amqp_type_copy_to :: "amqp_buffer_t \<Rightarrow> amqp_type_t \<Rightarrow> nat \<Rightarrow> (nat \<times> byte list) run" where
  "amqp_type_copy_to buffer t amount =
     run_assert (amqp_type_is_variable t)
       (let size = (if amount < position_size (position t) then amount else position_size (position t))
        in run_bind (amqp_buffer_block_copy buffer (position_index (position t)) size)
             (\<lambda>bs. Ret (size, bs)))"

definition amqp_type_get_byte_at :: "amqp_buffer_t \<Rightarrow> amqp_type_t \<Rightarrow> nat \<Rightarrow> byte run" where
  "amqp_type_get_byte_at buffer t index =
     run_assert (amqp_type_is_variable t)
       (amqp_unchecked_getc_at buffer (position_index (position t) + index))"

section \<open>Deallocation\<close>

text \<open>
  \<open>amqp_deallocate\<close> on the pool of values: the destroyer callback, then the slot is free. The
  recursion through the elements of a container is bounded by the depth \<open>fuel\<close>.
\<close>

fun deallocate_elements ::
  "(amqp_context_t \<Rightarrow> nat option \<Rightarrow> amqp_context_t run) \<Rightarrow> amqp_context_t \<Rightarrow> nat option list \<Rightarrow> amqp_context_t run" where
  "deallocate_elements deallocate context [] = Ret context"
| "deallocate_elements deallocate context (p # ps) =
     run_bind (deallocate context p) (\<lambda>context. deallocate_elements deallocate context ps)"

definition amqp_deallocate_amqp_type_t_array ::
  "(amqp_context_t \<Rightarrow> nat option \<Rightarrow> amqp_context_t run) \<Rightarrow> amqp_context_t \<Rightarrow> nat option \<Rightarrow> nat \<Rightarrow> amqp_context_t run" where
  "amqp_deallocate_amqp_type_t_array deallocate context array count =
    (case array of
       None \<Rightarrow> Ret context
     | Some p \<Rightarrow>
         (case arrays context p of
            None \<Rightarrow> Fault BadMemory
          | Some es \<Rightarrow>
              if length es < count then Fault BadMemory
              else run_bind (deallocate_elements deallocate context (take count es))
                     (\<lambda>context. Ret (context\<lparr>arrays := (arrays context)(p := None)\<rparr>))))"

definition amqp_cleanup_amqp_type_t ::
  "(amqp_context_t \<Rightarrow> nat option \<Rightarrow> amqp_context_t run) \<Rightarrow> amqp_context_t \<Rightarrow> nat \<Rightarrow> amqp_context_t run" where
  "amqp_cleanup_amqp_type_t deallocate context a =
    (let t = types context a; v = value_of t
     in run_bind
          (if amqp_type_is_container t
           then amqp_deallocate_amqp_type_t_array deallocate context (value_elements v) (value_count v)
           else Ret context)
          (\<lambda>context.
             if amqp_type_is_array t \<and>
                (\<not> amqp_type_is_encoded t \<or> (amqp_type_is_encoded t \<and> value_count v = 0))
             then deallocate context (value_array_constructor v)
             else Ret context))"

primrec amqp_deallocate_type :: "nat \<Rightarrow> amqp_context_t \<Rightarrow> nat option \<Rightarrow> amqp_context_t run" where
  "amqp_deallocate_type 0 context p = Fault OutOfFuel"
| "amqp_deallocate_type (Suc fuel) context p =
    (case p of
       None \<Rightarrow> Ret context
     | Some a \<Rightarrow>
         if \<not> live context a then Fault BadMemory
         else run_bind (amqp_cleanup_amqp_type_t (amqp_deallocate_type fuel) context a)
                (\<lambda>context. Ret (context\<lparr>live := (live context)(a := False)\<rparr>)))"

section \<open>Flags after updates\<close>

lemma has_flags_other [simp]:
  "has_flags (t\<lparr>value_of := v\<rparr>) bits = has_flags t bits"
  "has_flags (t\<lparr>position := q\<rparr>) bits = has_flags t bits"
  "has_flags (t\<lparr>saved_container := s\<rparr>) bits = has_flags t bits"
  "has_flags (t\<lparr>invalid_cause := i\<rparr>) bits = has_flags t bits"
  by (simp_all add: has_flags_def)

lemmas type_flag_defs =
  amqp_type_is_boolean_def amqp_type_is_unsigned_def amqp_type_is_signed_def
  amqp_type_is_byte_def amqp_type_is_short_def amqp_type_is_int_def amqp_type_is_long_def
  amqp_type_is_ubyte_def amqp_type_is_ushort_def amqp_type_is_uint_def amqp_type_is_ulong_def
  amqp_type_is_float_def amqp_type_is_double_def amqp_type_is_timestamp_def amqp_type_is_uuid_def
  amqp_type_is_binary_def amqp_type_is_string_def amqp_type_is_symbol_def amqp_type_is_variable_def
  amqp_type_is_list_def amqp_type_is_map_def amqp_type_is_array_def amqp_type_is_container_def
  amqp_type_is_composite_def amqp_type_is_encoded_def amqp_type_is_valid_def amqp_type_is_invalid_def

lemma has_flags_set [simp]:
  "has_flags (amqp_typedef_flags_set f t) bits \<longleftrightarrow> has_flags t bits \<or> f AND bits \<noteq> 0"
  by (auto simp: has_flags_def amqp_typedef_flags_set_def bit.conj_disj_distrib2 or_eq_0_iff)

lemma flags_set_set: "amqp_typedef_flags_set f (amqp_typedef_flags_set g t) = amqp_typedef_flags_set (g OR f) t"
  by (simp add: amqp_typedef_flags_set_def or.assoc)

lemma has_flags_clear:
  "bits AND f = 0 \<Longrightarrow> has_flags (amqp_typedef_flags_clear f t) bits = has_flags t bits"
proof -
  assume disjoint: "bits AND f = 0"
  have "\<not> bit (bits AND f) n" for n unfolding disjoint by simp
  then have "bits AND NOT f = bits" by (intro bit_word_eqI) (auto simp: bit_simps)
  then have "w AND NOT f AND bits = w AND bits" for w :: uint32
    by (simp add: and.assoc and.commute [of "NOT f"])
  then show ?thesis by (simp add: has_flags_def amqp_typedef_flags_clear_def and.assoc)
qed

end
