(* ===== verification/Encode.thy ===== *)
theory Encode
  imports Types
begin

text \<open>
  The encoder of \<^verbatim>\<open>Codec/Encode/Encode.c\<close>. Every operation appends to the buffer, allocates the
  value it describes and links it into the container that is being encoded
  (\<open>context->encode.container\<close>); containers are opened by their \<open>amqp_encode_\<close> function and closed
  by \<open>amqp_complete_type\<close>, which patches their size and count fields. A null result is \<open>None\<close>.
\<close>

type_synonym encode_result = "(nat option \<times> amqp_context_t \<times> amqp_buffer_t) run"

section \<open>Containers being encoded\<close>

definition allocate_elements :: "amqp_context_t \<Rightarrow> nat option \<Rightarrow> nat \<Rightarrow> (nat \<times> amqp_context_t) run" where
  "allocate_elements context elements count =
    (case elements of
       None \<Rightarrow> Ret (amqp_allocate_amqp_type_t_array context 1)
     | Some p \<Rightarrow> amqp_realloc_amqp_type_t_array context p count)"

definition set_flags_at :: "uint32 \<Rightarrow> nat \<Rightarrow> amqp_context_t \<Rightarrow> amqp_context_t" where
  "set_flags_at flags a context = update_type context a (amqp_typedef_flags_set flags)"

definition update_value :: "amqp_context_t \<Rightarrow> nat \<Rightarrow> (amqp_value_t \<Rightarrow> amqp_value_t) \<Rightarrow> amqp_context_t" where
  "update_value context a f = update_type context a (\<lambda>t. t\<lparr>value_of := f (value_of t)\<rparr>)"

definition amqp_add_element_to_container :: "amqp_context_t \<Rightarrow> nat \<Rightarrow> nat \<Rightarrow> amqp_context_t run" where
  "amqp_add_element_to_container context container a =
    (let count = value_count (value_of (types context container));
         context = update_value context container (value_count_update (\<lambda>_. count + 1));
         context = set_flags_at amqp_is_contained a context
     in run_bind
          (if amqp_type_is_composite (types context container)
           then if count = 0 then Ret (set_flags_at amqp_is_descriptor a context)
                else if count = 1 then Ret (set_flags_at amqp_is_described a context)
                else Fault Aborted
           else Ret context)
          (\<lambda>context.
        run_bind (allocate_elements context (value_elements (value_of (types context container))) (count + 1))
          (\<lambda>(p, context).
        let context = update_value context container (value_elements_update (\<lambda>_. Some p))
        in store_element context (Some p) count a)))"

definition is_i_contained_within_array :: "amqp_context_t \<Rightarrow> bool" where
  "is_i_contained_within_array context =
    (case encode_container context of None \<Rightarrow> False | Some a \<Rightarrow> amqp_type_is_array (types context a))"

definition push_container :: "amqp_context_t \<Rightarrow> nat \<Rightarrow> amqp_context_t" where
  "push_container context a =
    (update_type (set_flags_at amqp_is_incomplete a context) a
       (\<lambda>t. t\<lparr>saved_container := encode_container context\<rparr>))\<lparr>encode_container := Some a\<rparr>"

definition pop_container :: "amqp_context_t \<Rightarrow> (nat \<times> amqp_context_t) run" where
  "pop_container context =
    (case encode_container context of
       None \<Rightarrow> Fault AssertFailed
     | Some result \<Rightarrow>
         let context = update_type context result (amqp_typedef_flags_clear amqp_is_incomplete);
             context = context\<lparr>encode_container := saved_container (types context result)\<rparr>
         in Ret (result, update_type context result (\<lambda>t. t\<lparr>saved_container := None\<rparr>)))"

definition initialize_constructor ::
  "uint32 \<Rightarrow> amqp_encoding_meta_data_t \<Rightarrow> amqp_type_constructor_t \<Rightarrow> amqp_type_constructor_t" where
  "initialize_constructor extra_typedef_flags meta k =
     k\<lparr>constructor_format_code := format_code meta, meta_data := Some meta,
        typedef_flags := meta_flags meta OR amqp_is_encoded OR extra_typedef_flags\<rparr>"

definition emit_constructor :: "amqp_buffer_t \<Rightarrow> amqp_type_constructor_t \<Rightarrow> amqp_buffer_t run" where
  "emit_constructor buffer k =
     run_bind (amqp_buffer_putc buffer (constructor_format_code k)) (\<lambda>(_, buffer). Ret buffer)"

definition initialize_type ::
  "amqp_context_t \<Rightarrow> amqp_buffer_t \<Rightarrow> uint32 \<Rightarrow> amqp_encoding_meta_data_t \<Rightarrow>
   (nat \<times> amqp_context_t \<times> amqp_buffer_t) run" where
  "initialize_type context buffer extra_typedef_flags meta =
    (let enclosing_container = encode_container context;
         (a, context) = amqp_allocate_type context;
         context = update_type context a
           (\<lambda>t. t\<lparr>constructor := initialize_constructor extra_typedef_flags meta (constructor t)\<rparr>);
         k = constructor (types context a)
     in run_bind
          (case enclosing_container of
             None \<Rightarrow> run_bind (emit_constructor buffer k) (\<lambda>buffer. Ret (context, buffer))
           | Some container \<Rightarrow>
               run_bind
                 (if \<not> amqp_type_is_array (types context container)
                  then run_bind (emit_constructor buffer k) (\<lambda>buffer. Ret (context, buffer))
                  else if value_count (value_of (types context container)) = 0
                  then run_bind (emit_constructor buffer k) (\<lambda>buffer.
                       Ret (update_value context container (value_array_constructor_update (\<lambda>_. Some a)), buffer))
                  else (case value_array_constructor (value_of (types context container)) of
                          None \<Rightarrow> Fault BadMemory
                        | Some c \<Rightarrow>
                            if \<not> amqp_type_match (types context c) (types context a)
                            then Ret (update_type
                                   (update_type context a (amqp_mark_type_invalid AMQP_ERROR_ARRAY_ELEMENT_TYPE_INCORRECT))
                                   container (amqp_mark_type_invalid AMQP_ERROR_ARRAY_ELEMENT_TYPE_INCORRECT), buffer)
                            else Ret (context, buffer)))
                 (\<lambda>(context, buffer).
               run_bind (amqp_add_element_to_container context container a) (\<lambda>context.
               Ret (context, buffer))))
          (\<lambda>(context, buffer).
        Ret (a, if amqp_type_is_container (types context a) then push_container context a else context, buffer)))"

section \<open>Fixed and variable width values\<close>

definition set_position_at :: "nat \<Rightarrow> nat \<Rightarrow> nat \<Rightarrow> amqp_context_t \<Rightarrow> amqp_context_t" where
  "set_position_at i n a context =
     update_type context a (\<lambda>t. t\<lparr>position := \<lparr>position_index = i, position_size = n\<rparr>\<rparr>)"

definition amqp_encode_fixed ::
  "amqp_context_t \<Rightarrow> amqp_buffer_t \<Rightarrow> amqp_encoding_meta_data_t \<Rightarrow> encode_result" where
  "amqp_encode_fixed context buffer meta =
    (if \<not> amqp_buffer_check_free_space buffer (width meta + 1) then Ret (None, context, buffer)
     else run_bind (initialize_type context buffer 0 meta) (\<lambda>(a, context, buffer).
          Ret (Some a, set_position_at (amqp_buffer_size buffer) (width meta) a context, buffer)))"

definition amqp_hton_uint :: "amqp_buffer_t \<Rightarrow> uint32 \<Rightarrow> amqp_buffer_t run" where
  "amqp_hton_uint buffer v = amqp_hton_32 buffer v"

definition amqp_encode_simple_variable ::
  "amqp_context_t \<Rightarrow> amqp_buffer_t \<Rightarrow> amqp_encoding_meta_data_t \<Rightarrow> byte list \<Rightarrow> encode_result" where
  "amqp_encode_simple_variable context buffer meta v =
    (let size = length v
     in if \<not> amqp_buffer_check_free_space buffer (size_add (width meta + 1) size) then Ret (None, context, buffer)
        else
          run_bind (initialize_type context buffer 0 meta) (\<lambda>(a, context, buffer).
          run_bind
            (if width meta = 1 then amqp_unchecked_putc buffer (word_of_nat size AND 0xff)
             else if width meta = 4 then amqp_hton_uint buffer (word_of_nat size)
             else Fault Aborted) (\<lambda>buffer.
          let context = set_position_at (amqp_buffer_size buffer) size a context
          in run_bind (amqp_buffer_puts buffer v) (\<lambda>(_, buffer).
             Ret (Some a, context, buffer)))))"

text \<open>The position of a container is only its start until it is completed.\<close>

definition set_index_at :: "nat \<Rightarrow> nat \<Rightarrow> amqp_context_t \<Rightarrow> amqp_context_t" where
  "set_index_at i a context =
     update_type context a (\<lambda>t. t\<lparr>position := (position t)\<lparr>position_index := i\<rparr>\<rparr>)"

definition encode_compound_type ::
  "amqp_context_t \<Rightarrow> amqp_buffer_t \<Rightarrow> uint32 \<Rightarrow> amqp_encoding_meta_data_t \<Rightarrow> encode_result" where
  "encode_compound_type context buffer extra_typedef_flags meta =
    (if \<not> amqp_buffer_check_free_space buffer (width meta * 2 + 2) then Fault Aborted
     else
       run_bind (initialize_type context buffer extra_typedef_flags meta) (\<lambda>(a, context, buffer).
       if width meta = 0 then Ret (Some a, set_index_at (amqp_buffer_size buffer) a context, buffer)
       else if width meta = 1 then
         run_bind (amqp_unchecked_putc buffer 1) (\<lambda>buffer.
         let context = set_index_at (amqp_buffer_size buffer) a context
         in run_bind (amqp_unchecked_putc buffer 0) (\<lambda>buffer. Ret (Some a, context, buffer)))
       else if width meta = 4 then
         run_bind (amqp_hton_uint buffer 4) (\<lambda>buffer.
         let context = set_index_at (amqp_buffer_size buffer) a context
         in run_bind (amqp_hton_uint buffer 0) (\<lambda>buffer. Ret (Some a, context, buffer)))
       else Fault Aborted))"

definition amqp_encode_null :: "amqp_context_t \<Rightarrow> amqp_buffer_t \<Rightarrow> encode_result" where
  "amqp_encode_null context buffer = amqp_encode_fixed context buffer amqp_type_meta_data_null"

text \<open>The bytes that follow the constructor of a fixed width value, when it was encoded.\<close>

definition then_put :: "(amqp_buffer_t \<Rightarrow> amqp_buffer_t run) \<Rightarrow> encode_result \<Rightarrow> encode_result" where
  "then_put put r =
     run_bind r (\<lambda>(p, context, buffer).
     case p of
       None \<Rightarrow> Ret (None, context, buffer)
     | Some a \<Rightarrow> run_bind (put buffer) (\<lambda>buffer. Ret (Some a, context, buffer)))"

definition amqp_encode_fixed_one_byte ::
  "amqp_context_t \<Rightarrow> amqp_buffer_t \<Rightarrow> amqp_encoding_meta_data_t \<Rightarrow> byte \<Rightarrow> encode_result" where
  "amqp_encode_fixed_one_byte context buffer meta v =
     then_put (\<lambda>buffer. amqp_unchecked_putc buffer v) (amqp_encode_fixed context buffer meta)"

text \<open>The result is dereferenced without a test for null.\<close>

definition amqp_encode_boolean :: "amqp_context_t \<Rightarrow> amqp_buffer_t \<Rightarrow> int \<Rightarrow> encode_result" where
  "amqp_encode_boolean context buffer v =
    run_bind
      (if is_i_contained_within_array context
       then amqp_encode_fixed_one_byte context buffer amqp_type_meta_data_boolean (if v \<noteq> 0 then 1 else 0)
       else amqp_encode_fixed context buffer
              (if v \<noteq> 0 then amqp_type_meta_data_boolean_true else amqp_type_meta_data_boolean_false))
      (\<lambda>(p, context, buffer).
    case p of
      None \<Rightarrow> Fault BadMemory
    | Some a \<Rightarrow> Ret (Some a, update_value context a (set_b1 (word_of_int v)), buffer))"

definition amqp_encode_ubyte :: "amqp_context_t \<Rightarrow> amqp_buffer_t \<Rightarrow> byte \<Rightarrow> encode_result" where
  "amqp_encode_ubyte context buffer v =
     amqp_encode_fixed_one_byte context buffer amqp_type_meta_data_ubyte (v AND 0xff)"

definition amqp_encode_byte :: "amqp_context_t \<Rightarrow> amqp_buffer_t \<Rightarrow> byte \<Rightarrow> encode_result" where
  "amqp_encode_byte context buffer v =
     amqp_encode_fixed_one_byte context buffer amqp_type_meta_data_byte (v AND 0xff)"

definition amqp_encode_fixed_two_byte ::
  "amqp_context_t \<Rightarrow> amqp_buffer_t \<Rightarrow> amqp_encoding_meta_data_t \<Rightarrow> uint16 \<Rightarrow> encode_result" where
  "amqp_encode_fixed_two_byte context buffer meta v =
     then_put (\<lambda>buffer. amqp_hton_16 buffer v) (amqp_encode_fixed context buffer meta)"

definition amqp_encode_ushort :: "amqp_context_t \<Rightarrow> amqp_buffer_t \<Rightarrow> uint16 \<Rightarrow> encode_result" where
  "amqp_encode_ushort context buffer v =
     amqp_encode_fixed_two_byte context buffer amqp_type_meta_data_ushort v"

definition amqp_encode_short :: "amqp_context_t \<Rightarrow> amqp_buffer_t \<Rightarrow> uint16 \<Rightarrow> encode_result" where
  "amqp_encode_short context buffer v =
     amqp_encode_fixed_two_byte context buffer amqp_type_meta_data_short v"

definition amqp_encode_fixed_four_byte ::
  "amqp_context_t \<Rightarrow> amqp_buffer_t \<Rightarrow> amqp_encoding_meta_data_t \<Rightarrow> uint32 \<Rightarrow> encode_result" where
  "amqp_encode_fixed_four_byte context buffer meta v =
     then_put (\<lambda>buffer. amqp_hton_32 buffer v) (amqp_encode_fixed context buffer meta)"

definition amqp_encode_small_int :: "amqp_context_t \<Rightarrow> amqp_buffer_t \<Rightarrow> uint32 \<Rightarrow> encode_result" where
  "amqp_encode_small_int context buffer v =
     amqp_encode_fixed_one_byte context buffer amqp_type_meta_data_int_small_int (ucast (v AND 0xff))"

definition amqp_encode_int :: "amqp_context_t \<Rightarrow> amqp_buffer_t \<Rightarrow> uint32 \<Rightarrow> encode_result" where
  "amqp_encode_int context buffer v =
    (if v = scast (ucast (v AND 0xff) :: byte) then amqp_encode_small_int context buffer v
     else amqp_encode_fixed_four_byte context buffer amqp_type_meta_data_int v)"

definition amqp_encode_small_uint :: "amqp_context_t \<Rightarrow> amqp_buffer_t \<Rightarrow> uint32 \<Rightarrow> encode_result" where
  "amqp_encode_small_uint context buffer v =
     amqp_encode_fixed_one_byte context buffer amqp_type_meta_data_uint_small_uint (ucast (v AND 0xff))"

definition amqp_encode_uint0 :: "amqp_context_t \<Rightarrow> amqp_buffer_t \<Rightarrow> encode_result" where
  "amqp_encode_uint0 context buffer = amqp_encode_fixed context buffer amqp_type_meta_data_uint_uint0"

definition amqp_encode_uint :: "amqp_context_t \<Rightarrow> amqp_buffer_t \<Rightarrow> uint32 \<Rightarrow> encode_result" where
  "amqp_encode_uint context buffer v =
    (if v = 0 then amqp_encode_uint0 context buffer
     else if v < 255 then amqp_encode_small_uint context buffer v
     else amqp_encode_fixed_four_byte context buffer amqp_type_meta_data_uint v)"

definition amqp_encode_fixed_eight_byte ::
  "amqp_context_t \<Rightarrow> amqp_buffer_t \<Rightarrow> amqp_encoding_meta_data_t \<Rightarrow> uint64 \<Rightarrow> encode_result" where
  "amqp_encode_fixed_eight_byte context buffer meta v =
     then_put (\<lambda>buffer. amqp_hton_64 buffer v) (amqp_encode_fixed context buffer meta)"

definition amqp_encode_ulong0 :: "amqp_context_t \<Rightarrow> amqp_buffer_t \<Rightarrow> encode_result" where
  "amqp_encode_ulong0 context buffer = amqp_encode_fixed context buffer amqp_type_meta_data_ulong_ulong0"

definition amqp_encode_small_ulong :: "amqp_context_t \<Rightarrow> amqp_buffer_t \<Rightarrow> uint64 \<Rightarrow> encode_result" where
  "amqp_encode_small_ulong context buffer v =
     amqp_encode_fixed_one_byte context buffer amqp_type_meta_data_ulong_small_ulong (ucast (v AND 0xff))"

definition amqp_encode_ulong :: "amqp_context_t \<Rightarrow> amqp_buffer_t \<Rightarrow> uint64 \<Rightarrow> encode_result" where
  "amqp_encode_ulong context buffer v =
    (if v = 0 then amqp_encode_ulong0 context buffer
     else if v < 255 then amqp_encode_small_ulong context buffer v
     else amqp_encode_fixed_eight_byte context buffer amqp_type_meta_data_ulong v)"

definition amqp_encode_small_long :: "amqp_context_t \<Rightarrow> amqp_buffer_t \<Rightarrow> uint64 \<Rightarrow> encode_result" where
  "amqp_encode_small_long context buffer v =
     amqp_encode_fixed_one_byte context buffer amqp_type_meta_data_long_small_long (ucast (v AND 0xff))"

definition amqp_encode_long :: "amqp_context_t \<Rightarrow> amqp_buffer_t \<Rightarrow> uint64 \<Rightarrow> encode_result" where
  "amqp_encode_long context buffer v =
    (if v = scast (ucast (v AND 0xff) :: byte) then amqp_encode_small_long context buffer v
     else amqp_encode_fixed_eight_byte context buffer amqp_type_meta_data_long v)"

definition amqp_encode_timestamp :: "amqp_context_t \<Rightarrow> amqp_buffer_t \<Rightarrow> uint64 \<Rightarrow> encode_result" where
  "amqp_encode_timestamp context buffer v =
     amqp_encode_fixed_eight_byte context buffer amqp_type_meta_data_timestamp_ms64 v"

text \<open>Floating point values are their bit patterns.\<close>

definition amqp_encode_float :: "amqp_context_t \<Rightarrow> amqp_buffer_t \<Rightarrow> uint32 \<Rightarrow> encode_result" where
  "amqp_encode_float context buffer v =
     amqp_encode_fixed_four_byte context buffer amqp_type_meta_data_float_ieee_754 v"

definition amqp_encode_double :: "amqp_context_t \<Rightarrow> amqp_buffer_t \<Rightarrow> uint64 \<Rightarrow> encode_result" where
  "amqp_encode_double context buffer v =
     amqp_encode_fixed_eight_byte context buffer amqp_type_meta_data_double_ieee_754 v"

text \<open>These three are not implemented in the source and return null.\<close>

definition amqp_encode_char :: "amqp_context_t \<Rightarrow> amqp_buffer_t \<Rightarrow> uint32 \<Rightarrow> encode_result" where
  "amqp_encode_char context buffer v =
     Ret (None, context, buffer)"

definition amqp_encode_decimal32 :: "amqp_context_t \<Rightarrow> amqp_buffer_t \<Rightarrow> uint32 \<Rightarrow> encode_result" where
  "amqp_encode_decimal32 context buffer v =
     Ret (None, context, buffer)"

definition amqp_encode_decimal64 :: "amqp_context_t \<Rightarrow> amqp_buffer_t \<Rightarrow> uint64 \<Rightarrow> encode_result" where
  "amqp_encode_decimal64 context buffer v =
     Ret (None, context, buffer)"

definition amqp_encode_uuid :: "amqp_context_t \<Rightarrow> amqp_buffer_t \<Rightarrow> byte list \<Rightarrow> encode_result" where
  "amqp_encode_uuid context buffer v =
     then_put (\<lambda>buffer. run_bind (amqp_buffer_puts buffer v) (\<lambda>(_, buffer). Ret buffer))
       (amqp_encode_fixed context buffer amqp_type_meta_data_uuid)"

definition amqp_encode_binary_vbin8 :: "amqp_context_t \<Rightarrow> amqp_buffer_t \<Rightarrow> byte list \<Rightarrow> encode_result" where
  "amqp_encode_binary_vbin8 context buffer v =
     amqp_encode_simple_variable context buffer amqp_type_meta_data_binary_vbin8 v"

definition amqp_encode_binary_vbin32 :: "amqp_context_t \<Rightarrow> amqp_buffer_t \<Rightarrow> byte list \<Rightarrow> encode_result" where
  "amqp_encode_binary_vbin32 context buffer v =
     amqp_encode_simple_variable context buffer amqp_type_meta_data_binary_vbin32 v"

definition amqp_encode_binary :: "amqp_context_t \<Rightarrow> amqp_buffer_t \<Rightarrow> byte list \<Rightarrow> encode_result" where
  "amqp_encode_binary context buffer v =
    (if length v < 256 then amqp_encode_binary_vbin8 context buffer v else amqp_encode_binary_vbin32 context buffer v)"

definition amqp_encode_symbol_sym8n :: "amqp_context_t \<Rightarrow> amqp_buffer_t \<Rightarrow> byte list \<Rightarrow> encode_result" where
  "amqp_encode_symbol_sym8n context buffer v =
     amqp_encode_simple_variable context buffer amqp_type_meta_data_symbol_sym8 v"

definition amqp_encode_symbol_sym32n :: "amqp_context_t \<Rightarrow> amqp_buffer_t \<Rightarrow> byte list \<Rightarrow> encode_result" where
  "amqp_encode_symbol_sym32n context buffer v =
     amqp_encode_simple_variable context buffer amqp_type_meta_data_symbol_sym32 v"

definition amqp_encode_symboln :: "amqp_context_t \<Rightarrow> amqp_buffer_t \<Rightarrow> byte list \<Rightarrow> encode_result" where
  "amqp_encode_symboln context buffer v =
    (if length v < 256 then amqp_encode_symbol_sym8n context buffer v else amqp_encode_symbol_sym32n context buffer v)"

text \<open>The characters of a C string, up to the terminator.\<close>

definition c_string :: "byte list \<Rightarrow> byte list" where
  "c_string = takeWhile (\<lambda>c. c \<noteq> 0)"

definition amqp_encode_symbol_sym8 :: "amqp_context_t \<Rightarrow> amqp_buffer_t \<Rightarrow> byte list \<Rightarrow> encode_result" where
  "amqp_encode_symbol_sym8 context buffer v =
     amqp_encode_symbol_sym8n context buffer (c_string v)"

definition amqp_encode_symbol_sym32 :: "amqp_context_t \<Rightarrow> amqp_buffer_t \<Rightarrow> byte list \<Rightarrow> encode_result" where
  "amqp_encode_symbol_sym32 context buffer v =
     amqp_encode_symbol_sym32n context buffer (c_string v)"

definition amqp_encode_symbol :: "amqp_context_t \<Rightarrow> amqp_buffer_t \<Rightarrow> byte list \<Rightarrow> encode_result" where
  "amqp_encode_symbol context buffer v =
     amqp_encode_symboln context buffer (c_string v)"

definition encode_string_utf8 :: "amqp_context_t \<Rightarrow> amqp_buffer_t \<Rightarrow> byte list \<Rightarrow> encode_result" where
  "encode_string_utf8 context buffer v =
     amqp_encode_simple_variable context buffer
       (if length v < 256 then amqp_type_meta_data_string_str8_utf8 else amqp_type_meta_data_string_str32_utf8) v"

definition amqp_encode_string :: "amqp_context_t \<Rightarrow> amqp_buffer_t \<Rightarrow> byte list \<Rightarrow> encode_result" where
  "amqp_encode_string context buffer v =
     encode_string_utf8 context buffer (c_string v)"

definition amqp_encode_stringn :: "amqp_context_t \<Rightarrow> amqp_buffer_t \<Rightarrow> byte list \<Rightarrow> encode_result" where
  "amqp_encode_stringn context buffer v =
     encode_string_utf8 context buffer v"

section \<open>Containers\<close>

definition amqp_encode_list_8 :: "amqp_context_t \<Rightarrow> amqp_buffer_t \<Rightarrow> encode_result" where
  "amqp_encode_list_8 context buffer = encode_compound_type context buffer amqp_is_list amqp_type_meta_data_list_8"

definition amqp_encode_list_32 :: "amqp_context_t \<Rightarrow> amqp_buffer_t \<Rightarrow> encode_result" where
  "amqp_encode_list_32 context buffer = encode_compound_type context buffer amqp_is_list amqp_type_meta_data_list_32"

definition amqp_encode_array_8 :: "amqp_context_t \<Rightarrow> amqp_buffer_t \<Rightarrow> encode_result" where
  "amqp_encode_array_8 context buffer = encode_compound_type context buffer amqp_is_array amqp_type_meta_data_array_8"

definition amqp_encode_array_32 :: "amqp_context_t \<Rightarrow> amqp_buffer_t \<Rightarrow> encode_result" where
  "amqp_encode_array_32 context buffer = encode_compound_type context buffer amqp_is_array amqp_type_meta_data_array_32"

definition amqp_encode_map_8 :: "amqp_context_t \<Rightarrow> amqp_buffer_t \<Rightarrow> encode_result" where
  "amqp_encode_map_8 context buffer = encode_compound_type context buffer amqp_is_map amqp_type_meta_data_map_8"

definition amqp_encode_map_32 :: "amqp_context_t \<Rightarrow> amqp_buffer_t \<Rightarrow> encode_result" where
  "amqp_encode_map_32 context buffer = encode_compound_type context buffer amqp_is_map amqp_type_meta_data_map_32"

definition amqp_start_encode_described_type :: "amqp_context_t \<Rightarrow> amqp_buffer_t \<Rightarrow> encode_result" where
  "amqp_start_encode_described_type context buffer = encode_compound_type context buffer amqp_is_composite amqp_type_meta_data_described"

text \<open>The size and count fields are patched in place; a count of more than two parts marks a described value.\<close>

definition complete_container_type :: "amqp_context_t \<Rightarrow> amqp_buffer_t \<Rightarrow> nat \<Rightarrow> encode_result" where
  "complete_container_type context buffer a =
    (let saved_buffer_write_position = amqp_buffer_size buffer;
         index = position_index (position (types context a));
         size = saved_buffer_write_position - index;
         count = value_count (value_of (types context a));
         context = update_type context a (\<lambda>t. t\<lparr>position := (position t)\<lparr>position_size := size\<rparr>\<rparr>)
     in case meta_data (constructor (types context a)) of
          None \<Rightarrow> Fault BadMemory
        | Some meta \<Rightarrow>
            run_bind
              (if width meta = 0 then
                 (if 2 < count
                  then let context = update_type context a (amqp_mark_type_invalid AMQP_ERROR_DESCRIBED_TYPE_OVERFLOW)
                       in case encode_container context of
                            None \<Rightarrow> Fault AssertFailed
                          | Some c \<Rightarrow> Ret (update_type context c (amqp_mark_type_invalid AMQP_ERROR_DESCRIBED_TYPE_OVERFLOW), buffer)
                  else Ret (context, buffer))
               else if width meta = 1 then
                 run_bind (amqp_unchecked_putc (amqp_buffer_set_write_index buffer (index - 1)) (word_of_nat size)) (\<lambda>buffer.
                 run_bind (amqp_unchecked_putc buffer (word_of_nat count)) (\<lambda>buffer. Ret (context, buffer)))
               else if width meta = 4 then
                 run_bind (amqp_hton_uint (amqp_buffer_set_write_index buffer (index - 4)) (word_of_nat size)) (\<lambda>buffer.
                 run_bind (amqp_hton_uint buffer (word_of_nat count)) (\<lambda>buffer. Ret (context, buffer)))
               else Fault Aborted)
              (\<lambda>(context, buffer).
            Ret (Some a, context, amqp_buffer_set_write_index buffer saved_buffer_write_position)))"

definition complete_empty_list :: "amqp_context_t \<Rightarrow> amqp_buffer_t \<Rightarrow> nat \<Rightarrow> encode_result" where
  "complete_empty_list context buffer a =
    (case meta_data (constructor (types context a)) of
       None \<Rightarrow> Fault BadMemory
     | Some old_meta_data \<Rightarrow>
         let meta = amqp_type_meta_data_list_0;
             context = update_type context a (\<lambda>t. t\<lparr>constructor := constructor t\<lparr>
               meta_data := Some meta, constructor_format_code := format_code meta\<rparr>\<rparr>)
         in run_bind (amqp_buffer_backup buffer (width old_meta_data * 2 + 1)) (\<lambda>buffer.
            run_bind (amqp_buffer_putc buffer (format_code meta)) (\<lambda>(_, buffer).
            Ret (Some a, set_position_at (amqp_buffer_size buffer) (width meta) a context, buffer))))"

definition amqp_complete_type :: "amqp_context_t \<Rightarrow> amqp_buffer_t \<Rightarrow> nat option \<Rightarrow> encode_result" where
  "amqp_complete_type context buffer p =
    run_bind (pop_container context) (\<lambda>(top, context).
    case p of
      Some a \<Rightarrow>
        if top \<noteq> a then
          (if \<not> continue_on_usage_error context then Fault Aborted
           else Ret (None,
             update_type (update_type context a (amqp_mark_type_invalid AMQP_ERROR_COMPLETE_WRONG_CONTAINER))
               top (amqp_mark_type_invalid AMQP_ERROR_COMPLETE_WRONG_CONTAINER), buffer))
        else if is_i_contained_within_array context \<or> \<not> amqp_type_is_empty_list (types context top)
        then complete_container_type context buffer top
        else complete_empty_list context buffer top
    | None \<Rightarrow>
        if is_i_contained_within_array context \<or> \<not> amqp_type_is_empty_list (types context top)
        then complete_container_type context buffer top
        else complete_empty_list context buffer top)"

definition amqp_encode_list_0 :: "amqp_context_t \<Rightarrow> amqp_buffer_t \<Rightarrow> encode_result" where
  "amqp_encode_list_0 context buffer =
    run_bind (amqp_encode_list_8 context buffer) (\<lambda>(p, context, buffer).
    case p of
      None \<Rightarrow> Ret (None, context, buffer)
    | Some a \<Rightarrow> run_bind (amqp_complete_type context buffer (Some a)) (\<lambda>(_, context, buffer).
                Ret (Some a, context, buffer)))"

end
