(* ===== verification/Values.thy ===== *)
theory Values
  imports Prelude
begin

text \<open>
  The reference for the codec: AMQP values as a datatype, and their encoding on the wire as the
  AMQP 1.0 type system defines it, with the choices the library makes (the shortest form of an
  integer, except that 255 takes the long form; the empty list as \<open>list0\<close>). A list and a map
  carry the width of their size and count fields, which the caller of the library chooses.
  Signed integers and floating point numbers are their bit patterns.
\<close>

datatype amqp_val =
    VNull
  | VBoolean bool
  | VUbyte byte | VByte byte
  | VUshort uint16 | VShort uint16
  | VUint uint32 | VInt uint32
  | VUlong uint64 | VLong uint64
  | VTimestamp uint64
  | VFloat uint32 | VDouble uint64
  | VUuid "byte list"
  | VBinary "byte list" | VString "byte list" | VSymbol "byte list"
  | VList bool "amqp_val list"
  | VMap bool "amqp_val list"
  | VDescribed amqp_val amqp_val

definition wire_variable :: "byte \<Rightarrow> byte \<Rightarrow> byte list \<Rightarrow> byte list" where
  "wire_variable code8 code32 bs =
    (if length bs < 256 then [code8, word_of_nat (length bs)] @ bs
     else code32 # be_bytes 4 (word_of_nat (length bs) :: uint32) @ bs)"

definition wire_container :: "bool \<Rightarrow> byte \<Rightarrow> byte \<Rightarrow> nat \<Rightarrow> byte list \<Rightarrow> byte list" where
  "wire_container wide code8 code32 count payload =
    (if wide
     then code32 # be_bytes 4 (word_of_nat (length payload + 4) :: uint32)
            @ be_bytes 4 (word_of_nat count :: uint32) @ payload
     else [code8, word_of_nat (length payload + 1), word_of_nat count] @ payload)"

fun wire :: "amqp_val \<Rightarrow> byte list" and wires :: "amqp_val list \<Rightarrow> byte list" where
  "wire VNull = [0x40]"
| "wire (VBoolean x) = [if x then 0x41 else 0x42]"
| "wire (VUbyte x) = [0x50, x]"
| "wire (VByte x) = [0x51, x]"
| "wire (VUshort x) = 0x60 # be_bytes 2 x"
| "wire (VShort x) = 0x61 # be_bytes 2 x"
| "wire (VUint x) = (if x = 0 then [0x43] else if x < 255 then [0x52, ucast x] else 0x70 # be_bytes 4 x)"
| "wire (VInt x) = (if x = scast (ucast x :: byte) then [0x54, ucast x] else 0x71 # be_bytes 4 x)"
| "wire (VUlong x) = (if x = 0 then [0x44] else if x < 255 then [0x53, ucast x] else 0x80 # be_bytes 8 x)"
| "wire (VLong x) = (if x = scast (ucast x :: byte) then [0x55, ucast x] else 0x81 # be_bytes 8 x)"
| "wire (VTimestamp x) = 0x83 # be_bytes 8 x"
| "wire (VFloat x) = 0x72 # be_bytes 4 x"
| "wire (VDouble x) = 0x82 # be_bytes 8 x"
| "wire (VUuid bs) = 0x98 # bs"
| "wire (VBinary bs) = wire_variable 0xa0 0xb0 bs"
| "wire (VString bs) = wire_variable 0xa1 0xb1 bs"
| "wire (VSymbol bs) = wire_variable 0xa3 0xb3 bs"
| "wire (VList wide vs) =
     (if vs = [] then [0x45] else wire_container wide 0xc0 0xd0 (length vs) (wires vs))"
| "wire (VMap wide vs) = wire_container wide 0xc1 0xd1 (length vs) (wires vs)"
| "wire (VDescribed d v) = 0x00 # wire d @ wire v"
| "wires [] = []"
| "wires (v # vs) = wire v @ wires vs"

text \<open>
  The values that have an encoding: a UUID has 16 bytes, a symbol is ASCII, a string has no zero
  byte, and sizes fit their fields.
\<close>

fun encodable :: "amqp_val \<Rightarrow> bool" and encodables :: "amqp_val list \<Rightarrow> bool" where
  "encodable (VUuid bs) = (length bs = 16)"
| "encodable (VBinary bs) = (length bs < 2 ^ 32 - 1)"
| "encodable (VString bs) = (length bs < 2 ^ 32 - 1 \<and> list_all (\<lambda>c. c \<noteq> 0) bs)"
| "encodable (VSymbol bs) = (length bs < 2 ^ 32 - 1 \<and> list_all (\<lambda>c. c AND 0x80 = 0) bs)"
| "encodable (VList wide vs) =
     (encodables vs \<and> (if wide then length (wires vs) + 4 < 2 ^ 32 - 1 else length (wires vs) + 1 < 256))"
| "encodable (VMap wide vs) =
     (encodables vs \<and> (if wide then length (wires vs) + 4 < 2 ^ 32 - 1 else length (wires vs) + 1 < 256))"
| "encodable (VDescribed d v) = (encodable d \<and> encodable v)"
| "encodable v = True"
| "encodables [] = True"
| "encodables (v # vs) = (encodable v \<and> encodables vs)"

text \<open>
  The space the encoder asks for: an open container occupies its full header and one more byte,
  which a completed empty list gives back.
\<close>

fun space :: "amqp_val \<Rightarrow> nat" and spaces :: "amqp_val list \<Rightarrow> nat" where
  "space (VList wide vs) = (if wide then 10 else 4) + spaces vs"
| "space (VMap wide vs) = (if wide then 10 else 4) + spaces vs"
| "space (VDescribed d v) = 2 + space d + space v"
| "space v = length (wire v)"
| "spaces [] = 0"
| "spaces (v # vs) = space v + spaces vs"

lemma wire_not_Nil [simp]: "wire v \<noteq> []"
  by (cases v) (simp_all add: wire_variable_def wire_container_def)

lemma length_wires: "length vs \<le> length (wires vs)"
proof (induction vs)
  case (Cons v vs)
  moreover have "1 \<le> length (wire v)" by (simp add: Suc_le_eq)
  ultimately show ?case unfolding wires.simps length_append list.size by linarith
qed simp

lemma wire_le_space: "length (wire v) \<le> space v" and wires_le_spaces: "length (wires vs) \<le> spaces vs"
  by (induction v and vs rule: wire_wires.induct) (auto simp: wire_container_def)

lemma wires_append: "wires (us @ vs) = wires us @ wires vs"
  by (induction us) simp_all

end
