(* ===== verification/Encode_Correct.thy ===== *)
theory Encode_Correct
  imports Encode Values
begin

text \<open>
  The encoder against a reference: what each operation appends to the buffer, and what it does
  to the container that is being encoded. The lemmas assume that the pool hands out clean
  objects (no count and no elements left from an earlier use), since the encoder never resets
  the count of a new container; they cover every container but the array.
\<close>

section \<open>Invariant\<close>

definition clean :: "amqp_context_t \<Rightarrow> bool" where
  "clean c \<longleftrightarrow> (\<forall>x\<ge>next_type c. value_count (value_of (types c x)) = 0 \<and> value_elements (value_of (types c x)) = None)"

text \<open>The array of a container has room for its elements and the next one.\<close>

definition elements_room :: "amqp_context_t \<Rightarrow> nat option \<Rightarrow> nat \<Rightarrow> bool" where
  "elements_room c el n \<longleftrightarrow>
    (case el of None \<Rightarrow> n = 0
     | Some p \<Rightarrow> p < next_array c \<and> (\<exists>es. arrays c p = Some es \<and> length es = (n div 16 + 1) * 16))"

definition elements_ok :: "amqp_context_t \<Rightarrow> nat \<Rightarrow> bool" where
  "elements_ok c k \<longleftrightarrow> elements_room c (value_elements (value_of (types c k))) (value_count (value_of (types c k)))"

definition open_container :: "amqp_context_t \<Rightarrow> nat \<Rightarrow> bool" where
  "open_container c k \<longleftrightarrow> k < next_type c \<and> \<not> amqp_type_is_array (types c k) \<and> elements_ok c k
     \<and> (amqp_type_is_composite (types c k) \<longrightarrow> value_count (value_of (types c k)) < 2)"

text \<open>The container \<open>k\<close> got one more element and is otherwise the same.\<close>

definition grown :: "amqp_context_t \<Rightarrow> nat \<Rightarrow> amqp_context_t \<Rightarrow> bool" where
  "grown c k c' \<longleftrightarrow> elements_ok c' k \<and>
    (\<exists>p. types c' k = (types c k)\<lparr>value_of := (value_of (types c k))\<lparr>
            value_count := Suc (value_count (value_of (types c k))), value_elements := Some p\<rparr>\<rparr>
       \<and> (value_elements (value_of (types c k)) = Some p
          \<or> value_elements (value_of (types c k)) = None \<and> next_array c \<le> p))"

definition encode_frame :: "amqp_context_t \<Rightarrow> amqp_context_t \<Rightarrow> bool" where
  "encode_frame c c' \<longleftrightarrow> next_type c \<le> next_type c' \<and> next_array c \<le> next_array c'
     \<and> continue_on_usage_error c' = continue_on_usage_error c
     \<and> (\<forall>x<next_type c. encode_container c \<noteq> Some x \<longrightarrow> types c' x = types c x)
     \<and> (\<forall>k. encode_container c = Some k \<longrightarrow> grown c k c')
     \<and> (\<forall>p<next_array c. (\<forall>k. encode_container c = Some k \<longrightarrow> value_elements (value_of (types c k)) \<noteq> Some p)
          \<longrightarrow> arrays c' p = arrays c p)"

definition encode_ready :: "amqp_context_t \<Rightarrow> bool" where
  "encode_ready c \<longleftrightarrow> clean c \<and> (\<forall>k. encode_container c = Some k \<longrightarrow> open_container c k)"

section \<open>Linking a value into its container\<close>

lemma room_for_next: "n < (n div 16 + 1) * (16::nat)"
  using dividend_less_div_times [of 16 n] by simp

text \<open>Only the arrays differ.\<close>

definition same_types :: "amqp_context_t \<Rightarrow> amqp_context_t \<Rightarrow> bool" where
  "same_types c c' \<longleftrightarrow> (\<exists>ar na. c' = c\<lparr>arrays := ar, next_array := na\<rparr>)"

lemma same_typesI [simp]:
  "same_types c c" "same_types c (c\<lparr>arrays := ar\<rparr>)" "same_types c (c\<lparr>arrays := ar, next_array := na\<rparr>)"
proof -
  have "c = c\<lparr>arrays := arrays c, next_array := next_array c\<rparr>" "c\<lparr>arrays := ar\<rparr> = c\<lparr>arrays := ar, next_array := next_array c\<rparr>"
    by simp_all
  then show "same_types c c" "same_types c (c\<lparr>arrays := ar\<rparr>)" unfolding same_types_def by blast+
qed (auto simp: same_types_def)

lemma same_typesD:
  assumes "same_types c c'"
  shows "types c' = types c" and "next_type c' = next_type c" and "live c' = live c"
    and "encode_container c' = encode_container c" and "continue_on_usage_error c' = continue_on_usage_error c"
  using assms by (auto simp: same_types_def)

lemma allocate_elements_ok:
  assumes "elements_room c el n"
  shows "\<exists>p c' es. allocate_elements c el (n + 1) = Ret (p, c') \<and> same_types c c'
    \<and> next_array c \<le> next_array c' \<and> p < next_array c'
    \<and> (\<forall>q<next_array c. el \<noteq> Some q \<longrightarrow> arrays c' q = arrays c q)
    \<and> arrays c' p = Some es \<and> length es = (Suc n div 16 + 1) * 16
    \<and> (el = Some p \<or> el = None \<and> next_array c \<le> p)"
proof (cases el)
  case None
  then have "n = 0" using assms by (simp add: elements_room_def)
  with None show ?thesis
    by (simp add: allocate_elements_def amqp_allocate_amqp_type_t_array_def Let_def)
next
  case (Some p)
  then obtain es where p: "p < next_array c" "arrays c p = Some es" "length es = (n div 16 + 1) * 16"
    using assms by (auto simp: elements_room_def)
  let ?new = "(Suc n div 16 + 1) * 16"
  have ge: "n div 16 \<le> Suc n div 16" by (rule div_le_mono) simp
  show ?thesis
  proof (cases "(n div 16 + 1) * 16 < ?new")
    case True
    have "allocate_elements c (Some p) (n + 1) =
        Ret (p, c\<lparr>arrays := (arrays c)(p \<mapsto> es @ replicate (?new - length es) None)\<rparr>)"
      using p True by (simp add: allocate_elements_def amqp_realloc_amqp_type_t_array_def Let_def)
    moreover have "length (es @ replicate (?new - length es) None) = ?new" using p(3) True by simp
    ultimately show ?thesis using Some p by (simp del: length_append)
  next
    case False
    then have "Suc n div 16 = n div 16" using ge by simp
    moreover have "allocate_elements c (Some p) (n + 1) = Ret (p, c)"
      using False by (simp add: allocate_elements_def amqp_realloc_amqp_type_t_array_def Let_def)
    ultimately show ?thesis using Some p by simp
  qed
qed

definition link_flags :: "uint32 set" where
  "link_flags = {amqp_is_contained, amqp_is_contained OR amqp_is_descriptor, amqp_is_contained OR amqp_is_described}"

lemma add_element_ok:
  assumes k: "open_container c k" and a: "a < next_type c" "a \<noteq> k"
  shows "\<exists>c' f p. amqp_add_element_to_container c k a = Ret c' \<and> f \<in> link_flags
    \<and> types c' = (types c)(k := (types c k)\<lparr>value_of := (value_of (types c k))\<lparr>
            value_count := Suc (value_count (value_of (types c k))), value_elements := Some p\<rparr>\<rparr>,
          a := amqp_typedef_flags_set f (types c a))
    \<and> next_type c' = next_type c \<and> next_array c \<le> next_array c'
    \<and> encode_container c' = encode_container c \<and> continue_on_usage_error c' = continue_on_usage_error c
    \<and> (\<forall>q<next_array c. value_elements (value_of (types c k)) \<noteq> Some q \<longrightarrow> arrays c' q = arrays c q)
    \<and> elements_ok c' k
    \<and> (value_elements (value_of (types c k)) = Some p
       \<or> value_elements (value_of (types c k)) = None \<and> next_array c \<le> p)"
proof -
  define n el where "n = value_count (value_of (types c k))" and "el = value_elements (value_of (types c k))"
  define f where "f = (if amqp_type_is_composite (types c k)
     then if n = 0 then amqp_is_contained OR amqp_is_descriptor else amqp_is_contained OR amqp_is_described
     else amqp_is_contained)"
  define t where "t = (types c k)\<lparr>value_of := (value_of (types c k))\<lparr>value_count := Suc n\<rparr>\<rparr>"
  define c2 where "c2 = c\<lparr>types := (types c)(k := t, a := amqp_typedef_flags_set f (types c a))\<rparr>"
  have n2: "amqp_type_is_composite (types c k) \<Longrightarrow> n < 2" using k by (simp add: open_container_def n_def)
  have "elements_room c2 el n"
    using k by (simp add: open_container_def elements_ok_def elements_room_def n_def el_def c2_def split: option.splits)
  then obtain p c3 es where al: "allocate_elements c2 el (n + 1) = Ret (p, c3)" and st: "same_types c2 c3"
    and ar: "next_array c \<le> next_array c3" "p < next_array c3" "\<forall>q<next_array c. el \<noteq> Some q \<longrightarrow> arrays c3 q = arrays c q"
      "arrays c3 p = Some es" "length es = (Suc n div 16 + 1) * 16" "el = Some p \<or> el = None \<and> next_array c \<le> p"
    using allocate_elements_ok [of c2 el n] by (auto simp: c2_def)
  note st = same_typesD [OF st]
  define c4 where "c4 = update_value c3 k (value_elements_update (\<lambda>_. Some p))"
  define c5 where "c5 = c4\<lparr>arrays := (arrays c4)(p \<mapsto> es[n := Some a])\<rparr>"
  have n_lt: "n < length es" using room_for_next [of "Suc n"] ar(5) by linarith
  have c4: "arrays c4 = arrays c3" "next_array c4 = next_array c3" by (simp_all add: c4_def update_value_def)
  have store: "store_element c4 (Some p) n a = Ret c5"
    using ar(4) n_lt by (simp add: store_element_def c4 c5_def)
  have el2: "value_elements (value_of (types c2 k)) = el" using a by (simp add: c2_def t_def el_def)
  have sw: "set_flags_at amqp_is_contained a (update_value c k (value_count_update (\<lambda>_. n + 1))) =
      c\<lparr>types := (types c)(k := t, a := amqp_typedef_flags_set amqp_is_contained (types c a))\<rparr>"
    using a by (simp add: t_def set_flags_at_def update_value_def update_type_def)
  have "amqp_add_element_to_container c k a = Ret c5"
    unfolding amqp_add_element_to_container_def Let_def n_def [symmetric] sw
    using a n2 al el2 store c4_def
    by (auto simp: set_flags_at_def update_type_def flags_set_set f_def c2_def t_def type_flag_defs less_2_cases_iff)
  moreover have "types c5 = (types c)(k := (types c k)\<lparr>value_of := (value_of (types c k))\<lparr>
            value_count := Suc n, value_elements := Some p\<rparr>\<rparr>, a := amqp_typedef_flags_set f (types c a))"
    using a st by (simp add: c5_def c4_def update_value_def update_type_def c2_def t_def fun_upd_twist)
  moreover have "f \<in> link_flags" by (simp add: f_def link_flags_def)
  moreover have "elements_ok c5 k"
    using a ar st by (simp add: elements_ok_def elements_room_def c5_def c4_def update_value_def c2_def t_def)
  ultimately show ?thesis
    using ar st c4 unfolding n_def [symmetric] el_def [symmetric]
    by (intro exI [of _ c5] exI [of _ f] exI [of _ p]) (auto simp: c5_def c4_def update_value_def c2_def)
qed

section \<open>A new value\<close>

text \<open>The value \<open>initialize_type\<close> sets up from what the pool slot held.\<close>

definition new_value :: "uint32 \<Rightarrow> amqp_encoding_meta_data_t \<Rightarrow> amqp_type_t \<Rightarrow> amqp_type_t" where
  "new_value ex m t =
     t\<lparr>constructor := initialize_constructor ex m ((constructor t)\<lparr>extension_type_code := - 1\<rparr>)\<rparr>"

lemma new_value_simps [simp]:
  "value_of (new_value ex m t) = value_of t"
  "constructor_format_code (constructor (new_value ex m t)) = format_code m"
  "meta_data (constructor (new_value ex m t)) = Some m"
  "position (new_value ex m t) = position t"
  "has_flags (new_value ex m t) bits \<longleftrightarrow> (meta_flags m OR amqp_is_encoded OR ex) AND bits \<noteq> 0"
  by (simp_all add: new_value_def initialize_constructor_def has_flags_def)

lemma link_flags_simps:
  assumes "f \<in> insert 0 link_flags"
  shows "f AND amqp_is_container_mask = 0" and "f AND (amqp_is_invalid OR amqp_is_incomplete) = 0"
    and "f AND amqp_is_array = 0" and "f AND amqp_is_composite = 0" and "f AND amqp_is_list = 0"
  using assms by (auto simp: link_flags_def)

lemma flags_set_0 [simp]: "amqp_typedef_flags_set 0 t = t"
  by (simp add: amqp_typedef_flags_set_def)

lemma encode_ready_clean: "encode_ready c \<Longrightarrow> clean c"
  and encode_ready_open: "encode_ready c \<Longrightarrow> encode_container c = Some k \<Longrightarrow> open_container c k"
  by (auto simp: encode_ready_def)

lemma initialize_type_ok:
  assumes c: "encode_ready c" and b: "buffer_ok b" "limit_size b < capacity b"
  defines "a \<equiv> next_type c"
  shows "\<exists>c1 b1 f. initialize_type c b ex m =
      Ret (a, if amqp_type_is_container (types c1 a) then push_container c1 a else c1, b1)
    \<and> extends b [format_code m] b1 \<and> encode_frame c c1 \<and> clean c1 \<and> next_type c1 = Suc a
    \<and> encode_container c1 = encode_container c \<and> f \<in> insert 0 link_flags
    \<and> types c1 a = amqp_typedef_flags_set f (new_value ex m (types c a))"
proof -
  obtain b1 where b1: "amqp_buffer_putc b (format_code m) = Ret (uint (format_code m), b1)" "extends b [format_code m] b1"
    using checked_putc_extends [OF b] by blast
  define c0 where "c0 = c\<lparr>types := (types c)(a := new_value ex m (types c a)), live := (live c)(a := True), next_type := Suc a\<rparr>"
  have c0: "(let (x, d) = amqp_allocate_type c in update_type d x
      (\<lambda>t. t\<lparr>constructor := initialize_constructor ex m (constructor t)\<rparr>)) = c0"
    by (simp add: c0_def a_def amqp_allocate_type_def Let_def update_type_def amqp_initialize_amqp_type_t_def new_value_def)
  have fst: "fst (amqp_allocate_type c) = a" by (simp add: amqp_allocate_type_def Let_def a_def)
  obtain d where d: "amqp_allocate_type c = (a, d)" using fst by (cases "amqp_allocate_type c") auto
  have c0d: "update_type d a (\<lambda>t. t\<lparr>constructor := initialize_constructor ex m (constructor t)\<rparr>) = c0"
    using c0 d by simp
  have emit: "emit_constructor b (constructor (types c0 a)) = Ret b1"
    using b1(1) by (simp add: emit_constructor_def c0_def)
  have clean0: "clean c0" using encode_ready_clean [OF c] by (simp add: clean_def c0_def a_def)
  show ?thesis
  proof (cases "encode_container c")
    case None
    have "initialize_type c b ex m = Ret (a, if amqp_type_is_container (types c0 a) then push_container c0 a else c0, b1)"
      unfolding initialize_type_def Let_def d prod.case c0d None option.case by (simp add: emit)
    moreover have "encode_frame c c0" using None by (auto simp: encode_frame_def c0_def a_def)
    ultimately show ?thesis using b1(2) clean0 None
      by (intro exI [of _ c0] exI [of _ b1] exI [of _ 0]) (simp add: c0_def)
  next
    case (Some k)
    note k = encode_ready_open [OF c Some]
    have ka: "k < a" using k by (simp add: open_container_def a_def)
    have k0: "open_container c0 k"
      using k ka by (simp add: open_container_def elements_ok_def elements_room_def c0_def a_def split: option.splits)
    have kt: "types c0 k = types c k" using ka by (simp add: c0_def)
    have el: "arrays c0 = arrays c" "next_array c0 = next_array c" "encode_container c0 = encode_container c"
      "continue_on_usage_error c0 = continue_on_usage_error c" "next_type c0 = Suc a" by (simp_all add: c0_def)
    obtain c1 f p where c1: "amqp_add_element_to_container c0 k a = Ret c1" and f: "f \<in> link_flags"
      and ty: "types c1 = (types c0)(k := (types c k)\<lparr>value_of := (value_of (types c k))\<lparr>
            value_count := Suc (value_count (value_of (types c k))), value_elements := Some p\<rparr>\<rparr>,
          a := amqp_typedef_flags_set f (types c0 a))"
      and nx: "next_type c1 = Suc a" "next_array c \<le> next_array c1" "encode_container c1 = encode_container c"
        "continue_on_usage_error c1 = continue_on_usage_error c"
      and ar: "\<forall>q<next_array c. value_elements (value_of (types c k)) \<noteq> Some q \<longrightarrow> arrays c1 q = arrays c q"
      and eo: "elements_ok c1 k" and p: "value_elements (value_of (types c k)) = Some p
        \<or> value_elements (value_of (types c k)) = None \<and> next_array c \<le> p"
      using add_element_ok [OF k0, of a] ka unfolding kt el by auto
    have "\<not> amqp_type_is_array (types c0 k)" using k0 by (simp add: open_container_def)
    then have "initialize_type c b ex m = Ret (a, if amqp_type_is_container (types c1 a) then push_container c1 a else c1, b1)"
      unfolding initialize_type_def Let_def d prod.case c0d Some option.case by (simp add: emit c1)
    moreover have "grown c k c1" using eo p ty ka by (auto simp: grown_def)
    then have "encode_frame c c1"
      using nx ar ty Some by (auto simp: encode_frame_def c0_def a_def)
    moreover have "clean c1" using clean0 ty ka nx by (simp add: clean_def c0_def)
    moreover have "types c1 a = amqp_typedef_flags_set f (new_value ex m (types c a))" using ty by (simp add: c0_def)
    ultimately show ?thesis using b1(2) nx f Some
      by (intro exI [of _ c1] exI [of _ b1] exI [of _ f]) simp
  qed
qed

section \<open>What an operation appends\<close>

text \<open>The operation appends \<open>cs\<close> and returns a new valid value, linked into the open container.\<close>

definition encoded :: "amqp_context_t \<Rightarrow> amqp_buffer_t \<Rightarrow> byte list \<Rightarrow> encode_result \<Rightarrow> bool" where
  "encoded c b cs r \<longleftrightarrow> (\<exists>a c' b'. r = Ret (Some a, c', b') \<and> extends b cs b' \<and> encode_frame c c' \<and> clean c'
     \<and> encode_container c' = encode_container c \<and> next_type c \<le> a \<and> a < next_type c' \<and> amqp_type_is_valid (types c' a))"

lemma encodedE:
  assumes "encoded c b cs r"
  obtains a c' b' where "r = Ret (Some a, c', b')" and "extends b cs b'" and "encode_frame c c'" and "clean c'"
    and "encode_container c' = encode_container c" and "next_type c \<le> a" and "a < next_type c'"
    and "amqp_type_is_valid (types c' a)"
  using assms unfolding encoded_def by blast

lemma elements_ok_update: "x \<noteq> k \<Longrightarrow> elements_ok (update_type c x f) k = elements_ok c k"
  by (simp add: elements_ok_def elements_room_def types_update_other split: option.splits)

lemma encode_frame_update:
  assumes "encode_ready c" and "encode_frame c c1" and "next_type c \<le> x"
  shows "encode_frame c (update_type c1 x f)"
proof -
  have "k < next_type c" if "encode_container c = Some k" for k
    using encode_ready_open [OF assms(1) that] by (simp add: open_container_def)
  then have ne: "encode_container c = Some k \<Longrightarrow> x \<noteq> k" for k using assms(3) by fastforce
  show ?thesis
    using assms(2,3) ne unfolding encode_frame_def
    by (auto simp: types_update_other grown_def elements_ok_update)
qed

lemma clean_update: "clean c \<Longrightarrow> x < next_type c \<Longrightarrow> clean (update_type c x f)"
  by (auto simp: clean_def types_update_other)

definition leaf_meta :: "amqp_encoding_meta_data_t \<Rightarrow> bool" where
  "leaf_meta m \<longleftrightarrow> meta_flags m AND amqp_is_container_mask = 0 \<and> meta_flags m AND (amqp_is_invalid OR amqp_is_incomplete) = 0"

lemma leaf_meta_flags:
  assumes "leaf_meta m" and "f \<in> insert 0 link_flags"
  shows "\<not> amqp_type_is_container (amqp_typedef_flags_set f (new_value 0 m t))"
    and "amqp_type_is_valid (amqp_typedef_flags_set f (new_value 0 m t))"
  using assms(1) link_flags_simps [OF assms(2)]
  by (simp_all add: leaf_meta_def type_flag_defs bit.conj_disj_distrib2)

lemma free_space_small:
  assumes "buffer_ok b" and "limit_size b + n \<le> capacity b"
  shows "amqp_buffer_check_free_space b n"
  using buffer_ok_bounds [OF assms(1)] assms(2) by (simp add: amqp_buffer_check_free_space_def)

text \<open>A new value that is not a container, with its position filled in.\<close>

lemma initialize_leaf_ok:
  assumes c: "encode_ready c" and b: "buffer_ok b" "limit_size b < capacity b" and m: "leaf_meta m"
  obtains c1 b1 where "initialize_type c b 0 m = Ret (next_type c, c1, b1)" and "extends b [format_code m] b1"
    and "encode_container c1 = encode_container c"
    and "\<And>g. encode_frame c (update_type c1 (next_type c) (position_update g))"
    and "\<And>g. clean (update_type c1 (next_type c) (position_update g))"
    and "next_type c1 = Suc (next_type c)"
    and "\<And>g. amqp_type_is_valid (types (update_type c1 (next_type c) (position_update g)) (next_type c))"
proof -
  obtain c1 b1 f where i: "initialize_type c b 0 m =
      Ret (next_type c, if amqp_type_is_container (types c1 (next_type c)) then push_container c1 (next_type c) else c1, b1)"
    "extends b [format_code m] b1" "encode_frame c c1" "clean c1" "next_type c1 = Suc (next_type c)"
    "encode_container c1 = encode_container c" "f \<in> insert 0 link_flags"
    "types c1 (next_type c) = amqp_typedef_flags_set f (new_value 0 m (types c (next_type c)))"
    using initialize_type_ok [OF c b] by blast
  have "has_flags (position_update g t) bits = has_flags t bits" for g bits and t :: amqp_type_t
    by (simp add: has_flags_def)
  then have "amqp_type_is_valid (types (update_type c1 (next_type c) (position_update g)) (next_type c))" for g
    using leaf_meta_flags(2) [OF m i(7)] i(8) by (simp add: amqp_type_is_valid_def)
  then show ?thesis
    using i leaf_meta_flags(1) [OF m i(7)] that [of c1 b1]
      encode_frame_update [OF c i(3)] clean_update [OF i(4)] by simp
qed

lemma encode_fixed_ok:
  assumes c: "encode_ready c" and b: "buffer_ok b" "limit_size b + width m + 1 \<le> capacity b" and m: "leaf_meta m"
  shows "encoded c b [format_code m] (amqp_encode_fixed c b m)"
proof -
  have "limit_size b < capacity b" using b(2) by simp
  from initialize_leaf_ok [OF c b(1) this m] obtain c1 b1 where
    i: "initialize_type c b 0 m = Ret (next_type c, c1, b1)" "extends b [format_code m] b1"
      "encode_container c1 = encode_container c"
      "\<And>g. encode_frame c (update_type c1 (next_type c) (position_update g))"
      "\<And>g. clean (update_type c1 (next_type c) (position_update g))"
      "next_type c1 = Suc (next_type c)"
      "\<And>g. amqp_type_is_valid (types (update_type c1 (next_type c) (position_update g)) (next_type c))"
    by blast
  have "amqp_buffer_check_free_space b (width m + 1)" using free_space_small [OF b(1)] b(2) by simp
  then show ?thesis
    using i unfolding encoded_def amqp_encode_fixed_def set_position_at_def by simp
qed

lemma then_put_ok:
  assumes r: "encoded c b cs r" and put: "\<And>b1. extends b cs b1 \<Longrightarrow> \<exists>b2. put b1 = Ret b2 \<and> extends b1 ds b2"
  shows "encoded c b (cs @ ds) (then_put put r)"
proof -
  obtain a c' b' where r': "r = Ret (Some a, c', b')" "extends b cs b'" "encode_frame c c'" "clean c'"
    "encode_container c' = encode_container c" "next_type c \<le> a" "a < next_type c'" "amqp_type_is_valid (types c' a)"
    using r by (rule encodedE)
  obtain b2 where "put b' = Ret b2" "extends b' ds b2" using put [OF r'(2)] by blast
  then show ?thesis using r' extends_trans unfolding encoded_def then_put_def by fastforce
qed

section \<open>Fixed width values\<close>

text \<open>Room for \<open>n\<close> more bytes.\<close>

definition room :: "amqp_buffer_t \<Rightarrow> nat \<Rightarrow> bool" where
  "room b n \<longleftrightarrow> buffer_ok b \<and> limit_size b + n \<le> capacity b"

lemma encode_fixed_room:
  "encode_ready c \<Longrightarrow> room b (width m + 1) \<Longrightarrow> leaf_meta m \<Longrightarrow> encoded c b [format_code m] (amqp_encode_fixed c b m)"
  by (rule encode_fixed_ok) (simp_all add: room_def)

lemma put_list_room:
  assumes "room b (length cs + length ds)" and "extends b cs b1"
  shows "\<exists>b2. put_list amqp_unchecked_putc b1 ds = Ret b2 \<and> extends b1 ds b2"
  using put_list_extends [of b1 ds] extendsD [OF assms(2)] assms(1) by (metis add.assoc room_def)

lemma encode_one_byte_ok:
  assumes "encode_ready c" and "room b 2" and "leaf_meta m" and "width m = 1"
  shows "encoded c b [format_code m, x] (amqp_encode_fixed_one_byte c b m x)"
proof -
  have "encoded c b [format_code m] (amqp_encode_fixed c b m)" using assms by (intro encode_fixed_room) (simp_all add: numeral_2_eq_2)
  from then_put_ok [OF this, of "\<lambda>b. amqp_unchecked_putc b x" "[x]"] put_list_room [of b "[format_code m]" "[x]"] assms(2)
  show ?thesis by (simp add: amqp_encode_fixed_one_byte_def numeral_2_eq_2)
qed

lemma encode_bytes_ok:
  assumes "encode_ready c" and "room b (Suc (width m))" and "leaf_meta m" and "length ds = width m"
    and put: "\<And>b. put b = put_list amqp_unchecked_putc b ds"
  shows "encoded c b (format_code m # ds) (then_put put (amqp_encode_fixed c b m))"
proof -
  have "encoded c b [format_code m] (amqp_encode_fixed c b m)" using assms by (intro encode_fixed_room) simp_all
  from then_put_ok [OF this, of put ds] put_list_room [of b "[format_code m]" ds] assms(2,4)
  show ?thesis by (simp add: put)
qed

lemma encode_two_byte_ok:
  assumes "encode_ready c" and "room b 3" and "leaf_meta m" and "width m = 2"
  shows "encoded c b (format_code m # be_bytes 2 x) (amqp_encode_fixed_two_byte c b m x)"
  unfolding amqp_encode_fixed_two_byte_def
  by (rule encode_bytes_ok) (use assms in \<open>simp_all add: hton_put_list\<close>)

lemma encode_four_byte_ok:
  assumes "encode_ready c" and "room b 5" and "leaf_meta m" and "width m = 4"
  shows "encoded c b (format_code m # be_bytes 4 x) (amqp_encode_fixed_four_byte c b m x)"
  unfolding amqp_encode_fixed_four_byte_def
  by (rule encode_bytes_ok) (use assms in \<open>simp_all add: hton_put_list\<close>)

lemma encode_eight_byte_ok:
  assumes "encode_ready c" and "room b 9" and "leaf_meta m" and "width m = 8"
  shows "encoded c b (format_code m # be_bytes 8 x) (amqp_encode_fixed_eight_byte c b m x)"
  unfolding amqp_encode_fixed_eight_byte_def
  by (rule encode_bytes_ok) (use assms in \<open>simp_all add: hton_put_list\<close>)

lemma encoded_update_value:
  assumes c: "encode_ready c" and r: "encoded c b cs r"
  shows "encoded c b cs (run_bind r (\<lambda>(p, context, buffer).
    case p of None \<Rightarrow> Fault BadMemory | Some a \<Rightarrow> Ret (Some a, update_value context a f, buffer)))"
  using r
proof (rule encodedE)
  fix a c' b'
  assume r': "r = Ret (Some a, c', b')" "extends b cs b'" "encode_frame c c'" "clean c'"
    "encode_container c' = encode_container c" "next_type c \<le> a" "a < next_type c'" "amqp_type_is_valid (types c' a)"
  let ?c = "update_value c' a f"
  have "encode_frame c ?c" "clean ?c" "encode_container ?c = encode_container c" "next_type ?c = next_type c'"
    "amqp_type_is_valid (types ?c a)"
    using encode_frame_update [OF c r'(3,6)] clean_update [OF r'(4,7)] r'(5,8)
    by (simp_all add: update_value_def amqp_type_is_valid_def)
  then show ?thesis using r' by (auto simp: encoded_def)
qed

text \<open>Outside an array, and with a byte to spare for the runs of bytes.\<close>

lemma not_within_array: "encode_ready c \<Longrightarrow> \<not> is_i_contained_within_array c"
  by (auto simp: is_i_contained_within_array_def open_container_def dest: encode_ready_open split: option.splits)

lemma leaf_metas:
  "leaf_meta amqp_type_meta_data_null" "leaf_meta amqp_type_meta_data_boolean_true"
  "leaf_meta amqp_type_meta_data_boolean_false" "leaf_meta amqp_type_meta_data_ubyte"
  "leaf_meta amqp_type_meta_data_byte" "leaf_meta amqp_type_meta_data_ushort" "leaf_meta amqp_type_meta_data_short"
  "leaf_meta amqp_type_meta_data_uint_uint0" "leaf_meta amqp_type_meta_data_uint_small_uint"
  "leaf_meta amqp_type_meta_data_uint" "leaf_meta amqp_type_meta_data_int_small_int" "leaf_meta amqp_type_meta_data_int"
  "leaf_meta amqp_type_meta_data_ulong_ulong0" "leaf_meta amqp_type_meta_data_ulong_small_ulong"
  "leaf_meta amqp_type_meta_data_ulong" "leaf_meta amqp_type_meta_data_long_small_long"
  "leaf_meta amqp_type_meta_data_long" "leaf_meta amqp_type_meta_data_timestamp_ms64"
  "leaf_meta amqp_type_meta_data_float_ieee_754" "leaf_meta amqp_type_meta_data_double_ieee_754"
  "leaf_meta amqp_type_meta_data_uuid"
  "leaf_meta amqp_type_meta_data_binary_vbin8" "leaf_meta amqp_type_meta_data_binary_vbin32"
  "leaf_meta amqp_type_meta_data_string_str8_utf8" "leaf_meta amqp_type_meta_data_string_str32_utf8"
  "leaf_meta amqp_type_meta_data_symbol_sym8" "leaf_meta amqp_type_meta_data_symbol_sym32"
  by (simp_all add: leaf_meta_def meta_data_defs)

lemma and_0xff_byte [simp]: "ucast (v AND 0xff) = (ucast v :: byte)" for v :: "'a::len word"
proof -
  have ff: "(0xff :: 'a word) = mask 8" by (simp add: mask_eq_exp_minus_1)
  show ?thesis unfolding ff
    by (rule bit_word_eqI) (auto simp: bit_simps dest: bit_imp_le_length)
qed

lemma and_0xff_id [simp]: "(v :: byte) AND 0xff = v"
proof -
  have ff: "(0xff :: byte) = mask 8" by (simp add: mask_eq_exp_minus_1)
  show ?thesis unfolding ff by (rule bit_word_eqI) (simp add: bit_simps)
qed

section \<open>Variable width values\<close>

text \<open>
  The size field of a variable width value. The run of bytes itself goes through
  \<open>amqp_buffer_puts\<close>, which needs a byte to spare.
\<close>

definition size_bytes :: "nat \<Rightarrow> nat \<Rightarrow> byte list" where
  "size_bytes w n = (if w = 1 then [word_of_nat n] else be_bytes 4 (word_of_nat n :: uint32))"

lemma put_size_ok:
  assumes "w \<in> {1, 4}" and "buffer_ok b" and "limit_size b + w \<le> capacity b"
  shows "\<exists>b1. (if w = 1 then amqp_unchecked_putc b (word_of_nat n AND 0xff)
     else if w = 4 then amqp_hton_uint b (word_of_nat n) else Fault Aborted) = Ret b1 \<and> extends b (size_bytes w n) b1"
proof -
  have "length (size_bytes w n) = w" using assms(1) by (auto simp: size_bytes_def)
  then obtain b1 where b1: "put_list amqp_unchecked_putc b (size_bytes w n) = Ret b1" "extends b (size_bytes w n) b1"
    using put_list_extends [of b "size_bytes w n"] assms(2,3) by auto
  then show ?thesis using assms(1)
    by (auto simp: size_bytes_def amqp_hton_uint_def hton_put_list)
qed

lemma encode_simple_variable_ok:
  assumes c: "encode_ready c" and b: "room b (width m + 2 + length v)" and m: "leaf_meta m" and w: "width m \<in> {1, 4}"
  shows "encoded c b (format_code m # size_bytes (width m) (length v) @ v) (amqp_encode_simple_variable c b m v)"
proof -
  have ok: "buffer_ok b" and cap: "limit_size b + width m + 2 + length v \<le> capacity b" using b by (auto simp: room_def)
  have lt: "limit_size b < capacity b" using cap by simp
  from initialize_leaf_ok [OF c ok this m] obtain c1 b1 where
    i: "initialize_type c b 0 m = Ret (next_type c, c1, b1)" "extends b [format_code m] b1"
      "encode_container c1 = encode_container c"
      "\<And>g. encode_frame c (update_type c1 (next_type c) (position_update g))"
      "\<And>g. clean (update_type c1 (next_type c) (position_update g))"
      "next_type c1 = Suc (next_type c)"
      "\<And>g. amqp_type_is_valid (types (update_type c1 (next_type c) (position_update g)) (next_type c))"
    by blast
  note e1 = extendsD [OF i(2)]
  obtain b2 where b2: "(if width m = 1 then amqp_unchecked_putc b1 (word_of_nat (length v) AND 0xff)
     else if width m = 4 then amqp_hton_uint b1 (word_of_nat (length v)) else Fault Aborted) = Ret b2"
    "extends b1 (size_bytes (width m) (length v)) b2"
    using put_size_ok [OF w e1(1), of "length v"] e1 cap by auto
  note e2 = extendsD [OF b2(2)]
  have "length (size_bytes (width m) (length v)) = width m" using w by (auto simp: size_bytes_def)
  then obtain b3 where b3: "amqp_buffer_puts b2 v = Ret (length v, b3)" "extends b2 v b3"
    using puts_extends [OF e2(1), of v] e1 e2 cap by auto
  have "limit_size b + (width m + 1 + length v) \<le> capacity b" using cap by simp
  moreover have "width m + 1 + length v < 2 ^ 64" using cap buffer_ok_bounds [OF ok] by simp
  ultimately have free: "amqp_buffer_check_free_space b (size_add (width m + 1) (length v))"
    using free_space_small [OF ok] by simp
  have "extends b (format_code m # size_bytes (width m) (length v) @ v) b3"
    using extends_trans [OF extends_trans [OF i(2) b2(2)] b3(2)] by simp
  then show ?thesis
    unfolding encoded_def amqp_encode_simple_variable_def Let_def set_position_at_def
    using i b2(1) b3(1) free by simp
qed

lemma wire_variable_8_32:
  "width m8 = 1 \<Longrightarrow> width m32 = 4 \<Longrightarrow>
   wire_variable (format_code m8) (format_code m32) v =
     (let m = if length v < 256 then m8 else m32 in format_code m # size_bytes (width m) (length v) @ v)"
  by (simp add: wire_variable_def size_bytes_def Let_def)

lemma encode_variable_ok:
  assumes c: "encode_ready c" and b: "room b (1 + length (wire_variable (format_code m8) (format_code m32) v))"
    and m: "leaf_meta m8" "leaf_meta m32" and w: "width m8 = 1" "width m32 = 4"
  shows "encoded c b (wire_variable (format_code m8) (format_code m32) v)
    (amqp_encode_simple_variable c b (if length v < 256 then m8 else m32) v)"
proof -
  let ?m = "if length v < 256 then m8 else m32"
  have "room b (width ?m + 2 + length v)" using b w by (auto simp: wire_variable_def room_def)
  from encode_simple_variable_ok [OF c this] m w show ?thesis
    by (simp add: wire_variable_8_32 Let_def split: if_splits)
qed

lemma encode_uuid_ok:
  assumes c: "encode_ready c" and b: "room b 18" and v: "length v = 16"
  shows "encoded c b (0x98 # v) (amqp_encode_uuid c b v)"
proof -
  have "encoded c b [format_code amqp_type_meta_data_uuid] (amqp_encode_fixed c b amqp_type_meta_data_uuid)"
    using c b leaf_metas by (intro encode_fixed_room) (simp_all add: meta_data_defs room_def)
  moreover have "\<exists>b2. run_bind (amqp_buffer_puts b1 v) (\<lambda>(_, buffer). Ret buffer) = Ret b2 \<and> extends b1 v b2"
    if "extends b [format_code amqp_type_meta_data_uuid] b1" for b1
  proof -
    note e = extendsD [OF that]
    obtain b2 where "amqp_buffer_puts b1 v = Ret (length v, b2)" "extends b1 v b2"
      using puts_extends [OF e(1), of v] e b v by (auto simp: room_def)
    then show ?thesis by simp
  qed
  ultimately have "encoded c b ([format_code amqp_type_meta_data_uuid] @ v) (amqp_encode_uuid c b v)"
    unfolding amqp_encode_uuid_def by (rule then_put_ok)
  then show ?thesis by (simp add: meta_data_defs)
qed

section \<open>Opening and filling a container\<close>

definition container_meta :: "uint32 \<Rightarrow> amqp_encoding_meta_data_t \<Rightarrow> bool" where
  "container_meta ex m \<longleftrightarrow> (meta_flags m OR amqp_is_encoded OR ex) AND amqp_is_container_mask \<noteq> 0
     \<and> (meta_flags m OR amqp_is_encoded OR ex) AND amqp_is_array = 0
     \<and> (meta_flags m OR amqp_is_encoded OR ex) AND amqp_is_invalid = 0"

text \<open>The context after a container \<open>a\<close> was opened; \<open>t\<close> is its value.\<close>

definition opened :: "amqp_context_t \<Rightarrow> nat \<Rightarrow> amqp_type_t \<Rightarrow> amqp_context_t \<Rightarrow> bool" where
  "opened c a t c2 \<longleftrightarrow> a = next_type c \<and> next_type c2 = Suc a \<and> types c2 a = t \<and> encode_container c2 = Some a
     \<and> saved_container t = encode_container c \<and> clean c2 \<and> encode_frame c c2 \<and> \<not> amqp_type_is_array t
     \<and> value_count (value_of t) = 0 \<and> value_elements (value_of t) = None"

definition header_bytes :: "nat \<Rightarrow> nat \<Rightarrow> nat \<Rightarrow> byte list" where
  "header_bytes w n count =
    (if w = 0 then [] else if w = 1 then [word_of_nat n, word_of_nat count]
     else be_bytes 4 (word_of_nat n :: uint32) @ be_bytes 4 (word_of_nat count :: uint32))"

lemma length_header [simp]: "w \<in> {0, 1, 4} \<Longrightarrow> length (header_bytes w s n) = 2 * w"
  by (auto simp: header_bytes_def)

lemma position_flags [simp]: "has_flags (position_update g t) bits = has_flags t bits"
  by (simp add: has_flags_def)

lemma container_irrelevant [simp]:
  "elements_room (c1\<lparr>encode_container := x\<rparr>) el n = elements_room c1 el n"
  "encode_frame c (c1\<lparr>encode_container := x\<rparr>) = encode_frame c c1"
  "clean (c1\<lparr>encode_container := x\<rparr>) = clean c1"
proof -
  show r: "elements_room (c1\<lparr>encode_container := x\<rparr>) el n = elements_room c1 el n" for el n
    by (simp add: elements_room_def split: option.splits)
  show "encode_frame c (c1\<lparr>encode_container := x\<rparr>) = encode_frame c c1"
    by (simp add: encode_frame_def grown_def elements_ok_def r)
qed (simp add: clean_def)

lemma update_type_container:
  "update_type (c\<lparr>encode_container := x\<rparr>) a f = (update_type c a f)\<lparr>encode_container := x\<rparr>"
  by (simp add: update_type_def)

text \<open>The value of an open container.\<close>

definition open_value :: "uint32 \<Rightarrow> uint32 \<Rightarrow> amqp_encoding_meta_data_t \<Rightarrow> nat option \<Rightarrow> amqp_type_t \<Rightarrow> amqp_type_t" where
  "open_value f ex m saved t =
     (amqp_typedef_flags_set amqp_is_incomplete (amqp_typedef_flags_set f (new_value ex m t)))\<lparr>saved_container := saved\<rparr>"

lemma flags_set_fields [simp]:
  "value_of (amqp_typedef_flags_set f t) = value_of t" "position (amqp_typedef_flags_set f t) = position t"
  "meta_data (constructor (amqp_typedef_flags_set f t)) = meta_data (constructor t)"
  "saved_container (amqp_typedef_flags_set f t) = saved_container t"
  by (simp_all add: amqp_typedef_flags_set_def)

lemma open_container_ok:
  assumes c: "encode_ready c" and b: "buffer_ok b" "limit_size b < capacity b" and m: "container_meta ex m"
  obtains c2 b1 f where "initialize_type c b ex m = Ret (next_type c, c2, b1)" and "extends b [format_code m] b1"
    and "f \<in> insert 0 link_flags"
    and "\<And>g. opened c (next_type c) (position_update g (open_value f ex m (encode_container c) (types c (next_type c))))
           (update_type c2 (next_type c) (position_update g))"
proof -
  obtain c1 b1 f where i: "initialize_type c b ex m =
      Ret (next_type c, if amqp_type_is_container (types c1 (next_type c)) then push_container c1 (next_type c) else c1, b1)"
    "extends b [format_code m] b1" "encode_frame c c1" "clean c1" "next_type c1 = Suc (next_type c)"
    "encode_container c1 = encode_container c" and f: "f \<in> insert 0 link_flags"
    and t: "types c1 (next_type c) = amqp_typedef_flags_set f (new_value ex m (types c (next_type c)))"
    using initialize_type_ok [OF c b] by blast
  let ?a = "next_type c" and ?t = "open_value f ex m (encode_container c) (types c (next_type c))"
  have "amqp_type_is_container (types c1 ?a)" using m t by (simp add: type_flag_defs container_meta_def)
  then have "initialize_type c b ex m = Ret (?a, push_container c1 ?a, b1)" using i(1) by simp
  moreover have "opened c ?a (position_update g ?t) (update_type (push_container c1 ?a) ?a (position_update g))" for g
  proof -
    let ?h = "\<lambda>t. (amqp_typedef_flags_set amqp_is_incomplete t)\<lparr>saved_container := encode_container c\<rparr>"
    have pc: "push_container c1 ?a = (update_type c1 ?a ?h)\<lparr>encode_container := Some ?a\<rparr>"
      using i(6) by (simp add: push_container_def set_flags_at_def update_type_def)
    have frame: "encode_frame c (update_type (push_container c1 ?a) ?a (position_update g))"
    proof -
      have "encode_frame c ((update_type (update_type c1 ?a ?h) ?a (position_update g)))"
        by (intro encode_frame_update [OF c] i(3)) simp_all
      then show ?thesis by (simp add: pc update_type_container)
    qed
    have "clean (update_type (push_container c1 ?a) ?a (position_update g))"
      using i(4,5) by (auto simp: pc clean_def update_type_def)
    moreover have "\<not> amqp_type_is_array (position_update g ?t)"
      using m link_flags_simps [OF f] by (simp add: open_value_def type_flag_defs container_meta_def)
    ultimately show ?thesis
      using frame encode_ready_clean [OF c] i(5) t
      by (simp add: opened_def pc update_type_def open_value_def clean_def)
  qed
  ultimately show ?thesis using that i(2) f by blast
qed

lemma position_update_at: "t\<lparr>position := g (position t)\<rparr> = position_update g t" for t :: amqp_type_t
  by (cases t) simp

lemma encode_compound_ok:
  assumes c: "encode_ready c" and b: "room b (2 * width m + 2)" and m: "container_meta ex m" and w: "width m \<in> {0, 1, 4}"
  obtains c2 b2 f g where "encode_compound_type c b ex m = Ret (Some (next_type c), c2, b2)"
    and "extends b (format_code m # header_bytes (width m) (width m) 0) b2" and "f \<in> insert 0 link_flags"
    and "opened c (next_type c) (position_update g (open_value f ex m (encode_container c) (types c (next_type c)))) c2"
    and "\<forall>q. position_index (g q) = limit_size b + 1 + width m"
proof -
  let ?a = "next_type c"
  have ok: "buffer_ok b" and cap: "limit_size b + 2 * width m + 2 \<le> capacity b" using b by (auto simp: room_def)
  obtain c2 b1 f where i: "initialize_type c b ex m = Ret (?a, c2, b1)" "extends b [format_code m] b1" "f \<in> insert 0 link_flags"
    and op: "\<And>g. opened c ?a (position_update g (open_value f ex m (encode_container c) (types c ?a)))
           (update_type c2 ?a (position_update g))"
  proof -
    have "limit_size b < capacity b" using cap by simp
    then show ?thesis using open_container_ok [OF c ok _ m] that by blast
  qed
  note e1 = extendsD [OF i(2)]
  let ?g = "\<lambda>i. position_index_update (\<lambda>_. i)"
  have si: "set_index_at j ?a c2 = update_type c2 ?a (position_update (?g j))" for j
    by (simp add: set_index_at_def update_type_def position_update_at)
  have free: "amqp_buffer_check_free_space b (width m * 2 + 2)" using free_space_small [OF ok] cap by simp
  define s where "s = (if width m = 0 then [] else if width m = 1 then [1 :: byte] else be_bytes 4 (4 :: uint32))"
  define z where "z = (if width m = 0 then [] else if width m = 1 then [0 :: byte] else be_bytes 4 (0 :: uint32))"
  have len: "length s = width m" "length z = width m" using w by (auto simp: s_def z_def)
  have sz: "s @ z = header_bytes (width m) (width m) 0" using w by (auto simp: header_bytes_def s_def z_def)
  obtain b2 where b2: "put_list amqp_unchecked_putc b1 s = Ret b2" "extends b1 s b2"
    using put_list_extends [OF e1(1), of s] e1 cap len by auto
  note e2 = extendsD [OF b2(2)]
  obtain b3 where b3: "put_list amqp_unchecked_putc b2 z = Ret b3" "extends b2 z b3"
    using put_list_extends [OF e2(1), of z] e1 e2 cap len by auto
  have "extends b (format_code m # s @ z) b3"
    using extends_trans [OF extends_trans [OF i(2) b2(2)] b3(2)] by simp
  moreover have "encode_compound_type c b ex m =
      Ret (Some ?a, update_type c2 ?a (position_update (?g (limit_size b + 1 + width m))), b3)"
    using w free i(1) b2(1) b3(1) e1(3) e2(3) len(1)
    by (auto simp: encode_compound_type_def Let_def si amqp_buffer_size_def amqp_hton_uint_def hton_put_list s_def z_def)
  ultimately show ?thesis using i(3) op unfolding sz
    by (intro that [where g = "?g (limit_size b + 1 + width m)"]) simp_all
qed

text \<open>
  After \<open>n\<close> elements were encoded into the container \<open>a\<close> that was opened in \<open>c2\<close>: everything that
  existed when it was opened is as it was, and the container has only gained elements.
\<close>

definition filled :: "amqp_context_t \<Rightarrow> nat \<Rightarrow> nat \<Rightarrow> amqp_context_t \<Rightarrow> bool" where
  "filled c2 a n c3 \<longleftrightarrow> next_type c2 \<le> next_type c3 \<and> next_array c2 \<le> next_array c3
     \<and> continue_on_usage_error c3 = continue_on_usage_error c2 \<and> encode_container c3 = Some a \<and> clean c3
     \<and> (\<forall>x<next_type c2. x \<noteq> a \<longrightarrow> types c3 x = types c2 x)
     \<and> (\<forall>p<next_array c2. arrays c3 p = arrays c2 p) \<and> elements_ok c3 a
     \<and> (\<exists>el. types c3 a = (types c2 a)\<lparr>value_of := (value_of (types c2 a))\<lparr>value_count := n, value_elements := el\<rparr>\<rparr>
          \<and> (\<forall>p. el = Some p \<longrightarrow> next_array c2 \<le> p))"

lemma filled_0:
  assumes "opened c a t c2"
  shows "filled c2 a 0 c2"
proof -
  have t: "types c2 a = t" using assms unfolding opened_def by blast
  have "(value_of t)\<lparr>value_count := 0, value_elements := None\<rparr> = value_of t"
    using assms by (cases "value_of t") (simp add: opened_def)
  from arg_cong [OF this, of "\<lambda>v. t\<lparr>value_of := v\<rparr>"]
  have "types c2 a = (types c2 a)\<lparr>value_of := (value_of (types c2 a))\<lparr>value_count := 0, value_elements := None\<rparr>\<rparr>"
    unfolding t by simp
  then show ?thesis
    using assms unfolding filled_def
    by (auto simp: opened_def elements_ok_def elements_room_def)
qed

lemma filled_ready:
  assumes "opened c a t c2" and f: "filled c2 a n c3" and "amqp_type_is_composite t \<Longrightarrow> n < 2"
  shows "encode_ready c3"
proof -
  have "a < next_type c3" "clean c3" "encode_container c3 = Some a" "elements_ok c3 a"
    using assms(1) f by (auto simp: opened_def filled_def)
  moreover obtain el where "types c3 a = t\<lparr>value_of := (value_of t)\<lparr>value_count := n, value_elements := el\<rparr>\<rparr>"
    using assms(1) f by (auto simp: opened_def filled_def)
  ultimately show ?thesis
    using assms(1,3) by (auto simp: encode_ready_def open_container_def opened_def type_flag_defs)
qed

lemma filled_step:
  assumes op: "opened c a t c2" and f: "filled c2 a n c3"
    and fr: "encode_frame c3 c4" and cl: "clean c4" and ec: "encode_container c4 = encode_container c3"
  shows "filled c2 a (Suc n) c4"
proof -
  have ec3: "encode_container c3 = Some a" using f by (simp add: filled_def)
  have le: "next_type c2 \<le> next_type c3" "next_array c2 \<le> next_array c3" using f by (simp_all add: filled_def)
  obtain el where t3: "types c3 a = (types c2 a)\<lparr>value_of := (value_of (types c2 a))\<lparr>value_count := n, value_elements := el\<rparr>\<rparr>"
    and el: "\<forall>p. el = Some p \<longrightarrow> next_array c2 \<le> p" using f by (auto simp: filled_def)
  obtain p where t4: "types c4 a = (types c3 a)\<lparr>value_of := (value_of (types c3 a))\<lparr>value_count := Suc n, value_elements := Some p\<rparr>\<rparr>"
    and p: "el = Some p \<or> el = None \<and> next_array c3 \<le> p" and eo: "elements_ok c4 a"
    using fr ec3 t3 by (auto simp: encode_frame_def grown_def)
  have "types c4 x = types c2 x" if "x < next_type c2" "x \<noteq> a" for x
    using f fr ec3 that le by (auto simp: filled_def encode_frame_def)
  moreover have "arrays c4 q = arrays c2 q" if "q < next_array c2" for q
  proof -
    have "value_elements (value_of (types c3 a)) \<noteq> Some q" using t3 el that by auto
    then have "arrays c4 q = arrays c3 q" using fr ec3 that le by (simp add: encode_frame_def)
    also have "\<dots> = arrays c2 q" using f that by (simp add: filled_def)
    finally show ?thesis .
  qed
  moreover have "types c4 a = (types c2 a)\<lparr>value_of := (value_of (types c2 a))\<lparr>value_count := Suc n, value_elements := Some p\<rparr>\<rparr>"
    using t3 t4 by simp
  moreover have "next_array c2 \<le> p" using p el le by auto
  ultimately show ?thesis
    using f fr cl ec ec3 eo le unfolding filled_def by (auto simp: encode_frame_def)
qed

section \<open>Completing a container\<close>

lemma encode_frame_later:
  assumes c: "encode_ready c" and op: "opened c a t c2" and f: "filled c2 a n c3"
    and same: "\<And>x. x \<noteq> a \<Longrightarrow> types c5 x = types c3 x" "arrays c5 = arrays c3" "next_type c5 = next_type c3"
      "next_array c5 = next_array c3" "continue_on_usage_error c5 = continue_on_usage_error c3"
  shows "encode_frame c c5"
proof -
  have a: "a = next_type c" "next_type c2 = Suc a" and fr: "encode_frame c c2" using op by (simp_all add: opened_def)
  have le: "next_type c2 \<le> next_type c3" "next_array c2 \<le> next_array c3" "next_array c \<le> next_array c2"
    using f fr by (simp_all add: filled_def encode_frame_def)
  have ty: "types c5 x = types c2 x" if "x < next_type c" for x
    using f same(1) that a by (simp add: filled_def)
  have ar: "arrays c5 p = arrays c2 p" if "p < next_array c2" for p using f same(2) that by (simp add: filled_def)
  have "grown c k c5" if k: "encode_container c = Some k" for k
  proof -
    have kc: "k < next_type c" using encode_ready_open [OF c k] by (simp add: open_container_def)
    have g: "grown c k c2" using fr k by (simp add: encode_frame_def)
    then have "elements_ok c5 k"
      using ty [OF kc] ar le same(4) by (auto simp: grown_def elements_ok_def elements_room_def split: option.splits)
    then show ?thesis using g ty [OF kc] by (simp add: grown_def)
  qed
  then show ?thesis
    using fr f ty ar le same a unfolding encode_frame_def by (auto simp: filled_def)
qed

lemma cleared_valid:
  assumes "\<not> has_flags t amqp_is_invalid"
  shows "amqp_type_is_valid (amqp_typedef_flags_clear amqp_is_incomplete t)"
proof -
  have "NOT amqp_is_incomplete AND (amqp_is_invalid OR amqp_is_incomplete) = amqp_is_invalid" by simp
  then show ?thesis
    using assms by (simp add: amqp_type_is_valid_def has_flags_def amqp_typedef_flags_clear_def and.assoc)
qed

lemma open_value_flags:
  assumes "container_meta ex m" and "f \<in> insert 0 link_flags"
  shows "\<not> has_flags (open_value f ex m s t) amqp_is_invalid"
    and "has_flags (open_value f ex m s t) amqp_is_list \<longleftrightarrow> (meta_flags m OR amqp_is_encoded OR ex) AND amqp_is_list \<noteq> 0"
proof -
  have "f AND amqp_is_invalid = 0" using assms(2) by (auto simp: link_flags_def)
  then show "\<not> has_flags (open_value f ex m s t) amqp_is_invalid"
    "has_flags (open_value f ex m s t) amqp_is_list \<longleftrightarrow> (meta_flags m OR amqp_is_encoded OR ex) AND amqp_is_list \<noteq> 0"
    using assms(1) link_flags_simps [OF assms(2)] by (simp_all add: open_value_def container_meta_def)
qed

text \<open>The container on top of the stack is \<open>a\<close>: popping it restores the enclosing one.\<close>

lemma pop_filled:
  assumes c: "encode_ready c" and op: "opened c a t c2" and f: "filled c2 a n c3"
  obtains c4 where "pop_container c3 = Ret (a, c4)" and "encode_container c4 = encode_container c"
    and "\<not> is_i_contained_within_array c4" and "clean c4" and "next_type c < next_type c4"
    and "types c4 a = (amqp_typedef_flags_clear amqp_is_incomplete (types c3 a))\<lparr>saved_container := None\<rparr>"
    and "\<forall>h. encode_frame c (update_type c4 a h)" and "\<forall>h. clean (update_type c4 a h)"
proof -
  define c4 where "c4 = c3\<lparr>types := (types c3)(a := (amqp_typedef_flags_clear amqp_is_incomplete (types c3 a))\<lparr>saved_container := None\<rparr>),
      encode_container := encode_container c\<rparr>"
  have ec: "encode_container c3 = Some a" and cl: "clean c3" and a: "a = next_type c" "a < next_type c3"
    using f op by (auto simp: filled_def opened_def)
  have "saved_container (types c3 a) = encode_container c" using f op by (auto simp: filled_def opened_def)
  then have pop: "pop_container c3 = Ret (a, c4)"
    unfolding pop_container_def ec by (simp add: Let_def update_type_def amqp_typedef_flags_clear_def c4_def)
  have fr: "encode_frame c (update_type c4 a h)" for h
    by (rule encode_frame_later [OF c op f]) (simp_all add: c4_def update_type_def)
  have cl4: "clean c4" "clean (update_type c4 a h)" for h
    using cl a by (auto simp: clean_def c4_def update_type_def)
  have "\<not> is_i_contained_within_array c4"
  proof (cases "encode_container c")
    case (Some k)
    note k = encode_ready_open [OF c Some]
    then have "k < next_type c" by (simp add: open_container_def)
    moreover have "grown c k (update_type c4 a id)" using fr [of id] Some by (simp add: encode_frame_def)
    ultimately have "has_flags (types c4 k) amqp_is_array = has_flags (types c k) amqp_is_array"
      using a by (auto simp: grown_def types_update_other)
    then show ?thesis using k Some
      by (simp add: is_i_contained_within_array_def c4_def open_container_def amqp_type_is_array_def)
  qed (simp add: is_i_contained_within_array_def c4_def)
  then show ?thesis using that [of c4] pop fr cl4 a by (simp add: c4_def)
qed

lemma complete_container_ok:
  assumes c: "encode_ready c" and m: "container_meta ex m" and w: "width m \<in> {0, 1, 4}" and f: "f \<in> insert 0 link_flags"
    and op: "opened c a t c2" and t: "t = position_update g (open_value f ex m (encode_container c) t0)"
    and g: "\<forall>q. position_index (g q) = limit_size b + 1 + width m"
    and fl: "filled c2 a n c3" and b: "extends b (format_code m # header_bytes (width m) (width m) 0 @ payload) b3"
    and n: "(meta_flags m OR amqp_is_encoded OR ex) AND amqp_is_list \<noteq> 0 \<Longrightarrow> n \<noteq> 0" "width m = 0 \<Longrightarrow> n \<le> 2"
  shows "encoded c b (format_code m # header_bytes (width m) (length payload + width m) n @ payload)
    (amqp_complete_type c3 b3 (Some a))"
proof -
  obtain c4 where pop: "pop_container c3 = Ret (a, c4)" and ec: "encode_container c4 = encode_container c"
    and na: "\<not> is_i_contained_within_array c4" and "clean c4" and nx: "next_type c < next_type c4"
    and t4: "types c4 a = (amqp_typedef_flags_clear amqp_is_incomplete (types c3 a))\<lparr>saved_container := None\<rparr>"
    and fr: "\<forall>h. encode_frame c (update_type c4 a h)" and cl: "\<forall>h. clean (update_type c4 a h)"
    by (rule pop_filled [OF c op fl])
  obtain el where t3: "types c3 a = t\<lparr>value_of := (value_of t)\<lparr>value_count := n, value_elements := el\<rparr>\<rparr>"
    using fl op by (auto simp: filled_def opened_def)
  have flags: "\<not> has_flags t amqp_is_invalid"
    "has_flags t amqp_is_list \<longleftrightarrow> (meta_flags m OR amqp_is_encoded OR ex) AND amqp_is_list \<noteq> 0"
    using open_value_flags [OF m f] by (simp_all add: t)
  have valid: "amqp_type_is_valid (types c4 a)"
    using cleared_valid [of "types c3 a"] flags t3 t4 by (simp add: amqp_type_is_valid_def)
  have "has_flags (types c4 a) amqp_is_list = has_flags t amqp_is_list"
    unfolding t4 t3 by (simp add: has_flags_clear)
  moreover have "value_count (value_of (types c4 a)) = n" "position_index (position (types c4 a)) = limit_size b + 1 + width m"
    "meta_data (constructor (types c4 a)) = Some m"
    unfolding t4 t3 t by (simp_all add: amqp_typedef_flags_clear_def open_value_def g)
  ultimately have ne: "\<not> amqp_type_is_empty_list (types c4 a)" and cnt: "value_count (value_of (types c4 a)) = n"
    and md: "meta_data (constructor (types c4 a)) = Some m" and ix: "position_index (position (types c4 a)) = limit_size b + 1 + width m"
    using n(1) flags(2) unfolding amqp_type_is_empty_list_def amqp_type_is_list_def by blast+
  have step: "amqp_complete_type c3 b3 (Some a) = complete_container_type c4 b3 a"
    using pop na ne by (simp add: amqp_complete_type_def)
  note e = extendsD [OF b]
  have sz: "limit_size b3 - (limit_size b + 1 + width m) = length payload + width m" using e(3) w by auto
  let ?c = "update_type c4 a (\<lambda>t. t\<lparr>position := (position t)\<lparr>position_size := length payload + width m\<rparr>\<rparr>)"
  have res: "amqp_type_is_valid (types ?c a)" using valid by (simp add: amqp_type_is_valid_def)
  have b': "extends b ([format_code m] @ header_bytes (width m) (width m) 0 @ payload) b3" using b by simp
  obtain b5 where b5: "put_list amqp_unchecked_putc (amqp_buffer_set_write_index b3 (limit_size b + 1))
      (header_bytes (width m) (length payload + width m) n) = Ret b5"
    "extends b ([format_code m] @ header_bytes (width m) (length payload + width m) n @ payload)
       (amqp_buffer_set_write_index b5 (limit_size b3))"
    using patch_extends [OF b', of "header_bytes (width m) (length payload + width m) n"] w by auto
  have "complete_container_type c4 b3 a = Ret (Some a, ?c, amqp_buffer_set_write_index b5 (limit_size b3))"
    unfolding complete_container_type_def Let_def cnt ix amqp_buffer_size_def sz
    using w md n(2) b5(1) e(3)
    by (auto simp: header_bytes_def amqp_hton_uint_def hton_put_list put_list_append run_simps
        amqp_buffer_set_write_index_def)
  then show ?thesis
    using step b5(2) fr cl ec nx op res unfolding encoded_def opened_def by auto
qed

lemma complete_empty_list_ok:
  assumes c: "encode_ready c" and m: "container_meta ex m" and w: "width m \<in> {1, 4}" and f: "f \<in> insert 0 link_flags"
    and op: "opened c a t c2" and t: "t = position_update g (open_value f ex m (encode_container c) t0)"
    and fl: "filled c2 a 0 c3" and b: "extends b (format_code m # header_bytes (width m) (width m) 0) b3"
    and list: "(meta_flags m OR amqp_is_encoded OR ex) AND amqp_is_list \<noteq> 0"
  shows "encoded c b [0x45] (amqp_complete_type c3 b3 (Some a))"
proof -
  obtain c4 where pop: "pop_container c3 = Ret (a, c4)" and ec: "encode_container c4 = encode_container c"
    and na: "\<not> is_i_contained_within_array c4" and "clean c4" and nx: "next_type c < next_type c4"
    and t4: "types c4 a = (amqp_typedef_flags_clear amqp_is_incomplete (types c3 a))\<lparr>saved_container := None\<rparr>"
    and fr: "\<forall>h. encode_frame c (update_type c4 a h)" and cl: "\<forall>h. clean (update_type c4 a h)"
    by (rule pop_filled [OF c op fl])
  obtain el where t3: "types c3 a = t\<lparr>value_of := (value_of t)\<lparr>value_count := 0, value_elements := el\<rparr>\<rparr>"
    using fl op by (auto simp: filled_def opened_def)
  have flags: "\<not> has_flags t amqp_is_invalid" "has_flags t amqp_is_list"
    using open_value_flags [OF m f] list by (simp_all add: t)
  have valid: "amqp_type_is_valid (types c4 a)"
    using cleared_valid [of "types c3 a"] flags t3 t4 by (simp add: amqp_type_is_valid_def)
  have "has_flags (types c4 a) amqp_is_list = has_flags t amqp_is_list"
    unfolding t4 t3 by (simp add: has_flags_clear)
  moreover have "value_count (value_of (types c4 a)) = 0" and md: "meta_data (constructor (types c4 a)) = Some m"
    unfolding t4 t3 t by (simp_all add: amqp_typedef_flags_clear_def open_value_def)
  ultimately have "amqp_type_is_empty_list (types c4 a)"
    using flags(2) unfolding amqp_type_is_empty_list_def amqp_type_is_list_def by blast
  then have step: "amqp_complete_type c3 b3 (Some a) = complete_empty_list c4 b3 a"
    using pop na by (simp add: amqp_complete_type_def)
  have len: "length (format_code m # header_bytes (width m) (width m) 0) = width m * 2 + 1" using w by auto
  obtain b5 where b5: "amqp_buffer_backup b3 (width m * 2 + 1) = Ret b5" "extends b [] b5"
    using backup_extends [of b "[]" "format_code m # header_bytes (width m) (width m) 0" b3] b unfolding len by auto
  note e5 = extendsD [OF b5(2)] and e3 = extendsD [OF b]
  have "limit_size b5 < capacity b5"
    using e5 e3 len buffer_ok_bounds [OF e3(1)] by auto
  then obtain b6 where b6: "amqp_buffer_putc b5 0x45 = Ret (uint (0x45 :: byte), b6)" "extends b5 [0x45] b6"
    using checked_putc_extends [OF e5(1)] by blast
  define h where "h = (\<lambda>t. (t\<lparr>constructor := constructor t\<lparr>meta_data := Some amqp_type_meta_data_list_0,
      constructor_format_code := 0x45\<rparr>\<rparr>)\<lparr>position := \<lparr>position_index = limit_size b6, position_size = 0\<rparr>\<rparr> :: amqp_type_t)"
  have "complete_empty_list c4 b3 a = Ret (Some a, update_type c4 a h, b6)"
    using md b5(1) b6(1)
    by (simp add: complete_empty_list_def Let_def amqp_type_meta_data_list_0_def set_position_at_def update_type_def
        h_def amqp_buffer_size_def)
  moreover have "amqp_type_is_valid (types (update_type c4 a h) a)"
    using valid by (simp add: h_def amqp_type_is_valid_def has_flags_def)
  moreover have "extends b [0x45] b6" using extends_trans [OF b5(2) b6(2)] by simp
  ultimately show ?thesis
    using step fr cl ec nx op unfolding encoded_def opened_def by auto
qed

section \<open>Whole values\<close>

text \<open>
  The calls a client makes to encode a value: a container is opened, its elements are encoded
  one after the other, and it is completed.
\<close>

fun encode_value :: "amqp_val \<Rightarrow> amqp_context_t \<Rightarrow> amqp_buffer_t \<Rightarrow> encode_result"
  and encode_values :: "amqp_val list \<Rightarrow> amqp_context_t \<Rightarrow> amqp_buffer_t \<Rightarrow> (amqp_context_t \<times> amqp_buffer_t) run" where
  "encode_value VNull c b = amqp_encode_null c b"
| "encode_value (VBoolean x) c b = amqp_encode_boolean c b (if x then 1 else 0)"
| "encode_value (VUbyte x) c b = amqp_encode_ubyte c b x"
| "encode_value (VByte x) c b = amqp_encode_byte c b x"
| "encode_value (VUshort x) c b = amqp_encode_ushort c b x"
| "encode_value (VShort x) c b = amqp_encode_short c b x"
| "encode_value (VUint x) c b = amqp_encode_uint c b x"
| "encode_value (VInt x) c b = amqp_encode_int c b x"
| "encode_value (VUlong x) c b = amqp_encode_ulong c b x"
| "encode_value (VLong x) c b = amqp_encode_long c b x"
| "encode_value (VTimestamp x) c b = amqp_encode_timestamp c b x"
| "encode_value (VFloat x) c b = amqp_encode_float c b x"
| "encode_value (VDouble x) c b = amqp_encode_double c b x"
| "encode_value (VUuid x) c b = amqp_encode_uuid c b x"
| "encode_value (VBinary x) c b = amqp_encode_binary c b x"
| "encode_value (VString x) c b = amqp_encode_stringn c b x"
| "encode_value (VSymbol x) c b = amqp_encode_symboln c b x"
| "encode_value (VList wide vs) c b =
     run_bind (if wide then amqp_encode_list_32 c b else amqp_encode_list_8 c b) (\<lambda>(p, c, b).
     run_bind (encode_values vs c b) (\<lambda>(c, b). amqp_complete_type c b p))"
| "encode_value (VMap wide vs) c b =
     run_bind (if wide then amqp_encode_map_32 c b else amqp_encode_map_8 c b) (\<lambda>(p, c, b).
     run_bind (encode_values vs c b) (\<lambda>(c, b). amqp_complete_type c b p))"
| "encode_value (VDescribed d v) c b =
     run_bind (amqp_start_encode_described_type c b) (\<lambda>(p, c, b).
     run_bind (encode_value d c b) (\<lambda>(_, c, b).
     run_bind (encode_value v c b) (\<lambda>(_, c, b). amqp_complete_type c b p)))"
| "encode_values [] c b = Ret (c, b)"
| "encode_values (v # vs) c b = run_bind (encode_value v c b) (\<lambda>(_, c, b). encode_values vs c b)"

lemma container_metas:
  "container_meta amqp_is_list amqp_type_meta_data_list_8" "container_meta amqp_is_list amqp_type_meta_data_list_32"
  "container_meta amqp_is_map amqp_type_meta_data_map_8" "container_meta amqp_is_map amqp_type_meta_data_map_32"
  "container_meta amqp_is_composite amqp_type_meta_data_described"
  by (simp_all add: container_meta_def meta_data_defs)

text \<open>Open, fill, complete: the elements are what \<open>vals\<close> encodes.\<close>

lemma encode_container_ok:
  assumes c: "encode_ready c" and b: "room b (2 * width m + 3 + sp)" and m: "container_meta ex m" and w: "width m \<in> {1, 4}"
    and nc: "(meta_flags m OR amqp_is_encoded OR ex) AND amqp_is_composite = 0"
    and vals: "\<And>a t c2 b2. opened c a t c2 \<Longrightarrow> \<not> amqp_type_is_composite t \<Longrightarrow> room b2 (Suc sp) \<Longrightarrow>
      \<exists>c3 b3. vals c2 b2 = Ret (c3, b3) \<and> filled c2 a k c3 \<and> extends b2 payload b3"
    and k: "k = 0 \<Longrightarrow> payload = []"
  shows "encoded c b
     (if (meta_flags m OR amqp_is_encoded OR ex) AND amqp_is_list \<noteq> 0 \<and> k = 0 then [0x45]
      else format_code m # header_bytes (width m) (length payload + width m) k @ payload)
     (run_bind (encode_compound_type c b ex m) (\<lambda>(p, c, b).
      run_bind (vals c b) (\<lambda>(c, b). amqp_complete_type c b p)))"
proof -
  have w': "width m \<in> {0, 1, 4}" using w by auto
  have b': "room b (2 * width m + 2)" using b by (simp add: room_def)
  obtain c2 b2 f g where e: "encode_compound_type c b ex m = Ret (Some (next_type c), c2, b2)"
    and ext: "extends b (format_code m # header_bytes (width m) (width m) 0) b2" and f: "f \<in> insert 0 link_flags"
    and op: "opened c (next_type c) (position_update g (open_value f ex m (encode_container c) (types c (next_type c)))) c2"
    and g: "\<forall>q. position_index (g q) = limit_size b + 1 + width m"
    by (rule encode_compound_ok [OF c b' m w'])
  let ?t = "position_update g (open_value f ex m (encode_container c) (types c (next_type c)))"
  have "\<not> amqp_type_is_composite ?t"
    using nc link_flags_simps [OF f] by (simp add: amqp_type_is_composite_def open_value_def)
  moreover have "room b2 (Suc sp)"
    using extendsD [OF ext] b w' by (simp add: room_def)
  ultimately obtain c3 b3 where v: "vals c2 b2 = Ret (c3, b3)" "filled c2 (next_type c) k c3" "extends b2 payload b3"
    using vals [OF op] by blast
  have ext3: "extends b (format_code m # header_bytes (width m) (width m) 0 @ payload) b3"
    using extends_trans [OF ext v(3)] by simp
  show ?thesis
  proof (cases "(meta_flags m OR amqp_is_encoded OR ex) AND amqp_is_list \<noteq> 0 \<and> k = 0")
    case True
    then have "encoded c b [0x45] (amqp_complete_type c3 b3 (Some (next_type c)))"
      using complete_empty_list_ok [OF c m w f op refl] v(2) ext3 k by simp
    with True show ?thesis unfolding e using v(1) by simp
  next
    case False
    have "encoded c b (format_code m # header_bytes (width m) (length payload + width m) k @ payload)
        (amqp_complete_type c3 b3 (Some (next_type c)))"
      using False w by (intro complete_container_ok [OF c m w' f op refl g v(2) ext3]) auto
    then show ?thesis unfolding e if_not_P [OF False] using v(1) by simp
  qed
qed

lemma encode_described_ok:
  assumes c: "encode_ready c" and b: "room b (3 + sd + sv)"
    and d: "\<And>c b. encode_ready c \<Longrightarrow> room b (Suc sd) \<Longrightarrow> encoded c b ds (enc_d c b)"
    and v: "\<And>c b. encode_ready c \<Longrightarrow> room b (Suc sv) \<Longrightarrow> encoded c b vs (enc_v c b)"
    and len: "length ds \<le> sd"
  shows "encoded c b (0 # ds @ vs) (run_bind (amqp_start_encode_described_type c b) (\<lambda>(p, c, b).
     run_bind (enc_d c b) (\<lambda>(_, c, b). run_bind (enc_v c b) (\<lambda>(_, c, b). amqp_complete_type c b p))))"
proof -
  let ?m = amqp_type_meta_data_described and ?ex = amqp_is_composite
  have w: "width ?m = 0" "format_code ?m = 0" by (simp_all add: meta_data_defs)
  have m: "container_meta ?ex ?m" by (rule container_metas)
  obtain c2 b2 f g where e: "encode_compound_type c b ?ex ?m = Ret (Some (next_type c), c2, b2)"
    and ext: "extends b (format_code ?m # header_bytes (width ?m) (width ?m) 0) b2" and f: "f \<in> insert 0 link_flags"
    and op: "opened c (next_type c) (position_update g (open_value f ?ex ?m (encode_container c) (types c (next_type c)))) c2"
    and g: "\<forall>q. position_index (g q) = limit_size b + 1 + width ?m"
    by (rule encode_compound_ok [OF c _ m]) (use b w in \<open>auto simp: room_def\<close>)
  note e2 = extendsD [OF ext]
  have "room b2 (Suc sd)" using e2 b w by (simp add: room_def header_bytes_def)
  then have "encoded c2 b2 ds (enc_d c2 b2)" by (intro d filled_ready [OF op filled_0 [OF op]]) simp_all
  then obtain a3 c3 b3 where r3: "enc_d c2 b2 = Ret (Some a3, c3, b3)" "extends b2 ds b3" "encode_frame c2 c3" "clean c3"
    "encode_container c3 = encode_container c2" by (rule encodedE) blast
  have f3: "filled c2 (next_type c) 1 c3" using filled_step [OF op filled_0 [OF op] r3(3-5)] by simp
  note e3 = extendsD [OF r3(2)]
  have "room b3 (Suc sv)" using e2 e3 b w len by (simp add: room_def header_bytes_def)
  then have "encoded c3 b3 vs (enc_v c3 b3)" by (intro v filled_ready [OF op f3]) simp_all
  then obtain a4 c4 b4 where r4: "enc_v c3 b3 = Ret (Some a4, c4, b4)" "extends b3 vs b4" "encode_frame c3 c4" "clean c4"
    "encode_container c4 = encode_container c3" by (rule encodedE) blast
  have f4: "filled c2 (next_type c) 2 c4" using filled_step [OF op f3 r4(3-5)] by (simp add: numeral_2_eq_2)
  have "extends b (format_code ?m # header_bytes (width ?m) (width ?m) 0 @ ds @ vs) b4"
    using extends_trans [OF ext extends_trans [OF r3(2) r4(2)]] by simp
  then have "encoded c b (format_code ?m # header_bytes (width ?m) (length (ds @ vs) + width ?m) 2 @ ds @ vs)
      (amqp_complete_type c4 b4 (Some (next_type c)))"
    by (intro complete_container_ok [OF c m _ f op refl g f4]) (simp_all add: w)
  then show ?thesis
    unfolding amqp_start_encode_described_type_def e using r3(1) r4(1) by (simp add: w header_bytes_def)
qed

text \<open>A value without elements.\<close>

lemma variable_metas:
  "format_code amqp_type_meta_data_binary_vbin8 = 0xa0" "width amqp_type_meta_data_binary_vbin8 = 1"
  "format_code amqp_type_meta_data_binary_vbin32 = 0xb0" "width amqp_type_meta_data_binary_vbin32 = 4"
  "format_code amqp_type_meta_data_string_str8_utf8 = 0xa1" "width amqp_type_meta_data_string_str8_utf8 = 1"
  "format_code amqp_type_meta_data_string_str32_utf8 = 0xb1" "width amqp_type_meta_data_string_str32_utf8 = 4"
  "format_code amqp_type_meta_data_symbol_sym8 = 0xa3" "width amqp_type_meta_data_symbol_sym8 = 1"
  "format_code amqp_type_meta_data_symbol_sym32 = 0xb3" "width amqp_type_meta_data_symbol_sym32 = 4"
  by (simp_all add: meta_data_defs)

lemma encode_binary_ok:
  "encode_ready c \<Longrightarrow> room b (1 + length (wire_variable 0xa0 0xb0 v)) \<Longrightarrow>
   encoded c b (wire_variable 0xa0 0xb0 v) (amqp_encode_binary c b v)"
  using encode_variable_ok [OF _ _ leaf_metas(22,23), unfolded variable_metas, of c b v]
  by (simp add: amqp_encode_binary_def amqp_encode_binary_vbin8_def amqp_encode_binary_vbin32_def split: if_splits)

lemma encode_stringn_ok:
  "encode_ready c \<Longrightarrow> room b (1 + length (wire_variable 0xa1 0xb1 v)) \<Longrightarrow>
   encoded c b (wire_variable 0xa1 0xb1 v) (amqp_encode_stringn c b v)"
  using encode_variable_ok [OF _ _ leaf_metas(24,25), unfolded variable_metas, of c b v]
  by (simp add: amqp_encode_stringn_def encode_string_utf8_def)

lemma encode_symboln_ok:
  "encode_ready c \<Longrightarrow> room b (1 + length (wire_variable 0xa3 0xb3 v)) \<Longrightarrow>
   encoded c b (wire_variable 0xa3 0xb3 v) (amqp_encode_symboln c b v)"
  using encode_variable_ok [OF _ _ leaf_metas(26,27), unfolded variable_metas, of c b v]
  by (simp add: amqp_encode_symboln_def amqp_encode_symbol_sym8n_def amqp_encode_symbol_sym32n_def split: if_splits)

lemma encode_leaf_ok:
  assumes c: "encode_ready c" and b: "room b (Suc (length (wire v)))" and v: "encodable v"
    and leaf: "\<And>w vs. v \<noteq> VList w vs" "\<And>w vs. v \<noteq> VMap w vs" "\<And>d x. v \<noteq> VDescribed d x"
  shows "encoded c b (wire v) (encode_value v c b)"
proof -
  have r: "room b n" if "n \<le> Suc (length (wire v))" for n using b that by (simp add: room_def)
  note one = encode_one_byte_ok [OF c] and two = encode_two_byte_ok [OF c] and four = encode_four_byte_ok [OF c]
    and eight = encode_eight_byte_ok [OF c] and zero = encode_fixed_room [OF c]
  note na = not_within_array [OF c]
  show ?thesis
  proof (cases v)
    case VNull
    then show ?thesis using zero [OF r leaf_metas(1)] by (simp add: amqp_encode_null_def meta_data_defs)
  next
    case (VBoolean x)
    show ?thesis
    proof (cases x)
      case True
      have "encoded c b [0x41] (amqp_encode_fixed c b amqp_type_meta_data_boolean_true)"
        using zero [OF r leaf_metas(2)] VBoolean by (simp add: meta_data_defs)
      from encoded_update_value [OF c this] show ?thesis using VBoolean True na by (simp add: amqp_encode_boolean_def)
    next
      case False
      have "encoded c b [0x42] (amqp_encode_fixed c b amqp_type_meta_data_boolean_false)"
        using zero [OF r leaf_metas(3)] VBoolean by (simp add: meta_data_defs)
      from encoded_update_value [OF c this] show ?thesis using VBoolean False na by (simp add: amqp_encode_boolean_def)
    qed
  next
    case (VUbyte x)
    then show ?thesis using one [OF r leaf_metas(4)] by (simp add: amqp_encode_ubyte_def meta_data_defs)
  next
    case (VByte x)
    then show ?thesis using one [OF r leaf_metas(5)] by (simp add: amqp_encode_byte_def meta_data_defs)
  next
    case (VUshort x)
    then show ?thesis using two [OF r leaf_metas(6)] by (simp add: amqp_encode_ushort_def meta_data_defs)
  next
    case (VShort x)
    then show ?thesis using two [OF r leaf_metas(7)] by (simp add: amqp_encode_short_def meta_data_defs)
  next
    case (VUint x)
    then show ?thesis using zero [OF r leaf_metas(8)] one [OF r leaf_metas(9)] four [OF r leaf_metas(10)]
      by (auto simp: amqp_encode_uint_def amqp_encode_uint0_def amqp_encode_small_uint_def meta_data_defs)
  next
    case (VInt x)
    then show ?thesis using one [OF r leaf_metas(11)] four [OF r leaf_metas(12)]
      by (auto simp: amqp_encode_int_def amqp_encode_small_int_def meta_data_defs)
  next
    case (VUlong x)
    then show ?thesis using zero [OF r leaf_metas(13)] one [OF r leaf_metas(14)] eight [OF r leaf_metas(15)]
      by (auto simp: amqp_encode_ulong_def amqp_encode_ulong0_def amqp_encode_small_ulong_def meta_data_defs)
  next
    case (VLong x)
    then show ?thesis using one [OF r leaf_metas(16)] eight [OF r leaf_metas(17)]
      by (auto simp: amqp_encode_long_def amqp_encode_small_long_def meta_data_defs)
  next
    case (VTimestamp x)
    then show ?thesis using eight [OF r leaf_metas(18)] by (simp add: amqp_encode_timestamp_def meta_data_defs)
  next
    case (VFloat x)
    then show ?thesis using four [OF r leaf_metas(19)] by (simp add: amqp_encode_float_def meta_data_defs)
  next
    case (VDouble x)
    then show ?thesis using eight [OF r leaf_metas(20)] by (simp add: amqp_encode_double_def meta_data_defs)
  next
    case (VUuid x)
    then show ?thesis using encode_uuid_ok [OF c r] v by simp
  next
    case (VBinary x)
    then show ?thesis using encode_binary_ok [OF c] b by simp
  next
    case (VString x)
    then show ?thesis using encode_stringn_ok [OF c] b by simp
  next
    case (VSymbol x)
    then show ?thesis using encode_symboln_ok [OF c] b by simp
  qed (use leaf in auto)
qed

lemma wire_container_eq:
  assumes "width m8 = 1" and "width m32 = 4"
  shows "wire_container wide (format_code m8) (format_code m32) n payload =
    (let m = if wide then m32 else m8 in format_code m # header_bytes (width m) (length payload + width m) n @ payload)"
  using assms by (simp add: wire_container_def header_bytes_def Let_def)

text \<open>
  The refinement: the calls a client makes for a value append the reference encoding of the
  value, for every value, in every enclosing container but an array.
\<close>

lemma encode_value_wire:
  "encodable v \<Longrightarrow> encode_ready c \<Longrightarrow> room b (Suc (space v)) \<Longrightarrow> encoded c b (wire v) (encode_value v c b)"
  and encode_values_wires:
  "encodables vs \<Longrightarrow> opened c0 a t c2 \<Longrightarrow> \<not> amqp_type_is_composite t \<Longrightarrow> filled c2 a n c \<Longrightarrow> room b (Suc (spaces vs)) \<Longrightarrow>
   \<exists>c3 b3. encode_values vs c b = Ret (c3, b3) \<and> filled c2 a (n + length vs) c3 \<and> extends b (wires vs) b3"
proof (induction v and vs arbitrary: c b and c0 a t c2 n c b rule: wire_wires.induct)
  case (18 wide vs)
  let ?m = "if wide then amqp_type_meta_data_list_32 else amqp_type_meta_data_list_8"
  have w: "width amqp_type_meta_data_list_8 = 1" "width amqp_type_meta_data_list_32 = 4"
    "format_code amqp_type_meta_data_list_8 = 0xc0" "format_code amqp_type_meta_data_list_32 = 0xd0" by (simp_all add: meta_data_defs)
  have "encoded c b (if (meta_flags ?m OR amqp_is_encoded OR amqp_is_list) AND amqp_is_list \<noteq> 0 \<and> length vs = 0 then [0x45]
      else format_code ?m # header_bytes (width ?m) (length (wires vs) + width ?m) (length vs) @ wires vs)
     (run_bind (encode_compound_type c b amqp_is_list ?m) (\<lambda>(p, c, b).
      run_bind (encode_values vs c b) (\<lambda>(c, b). amqp_complete_type c b p)))"
  proof (rule encode_container_ok)
    fix a' t' c2' b2'
    assume op: "opened c a' t' c2'" "\<not> amqp_type_is_composite t'" and r: "room b2' (Suc (spaces vs))"
    show "\<exists>c3 b3. encode_values vs c2' b2' = Ret (c3, b3) \<and> filled c2' a' (length vs) c3 \<and> extends b2' (wires vs) b3"
    proof (cases "vs = []")
      case True
      then show ?thesis using filled_0 [OF op(1)] r by (simp add: room_def extends_refl)
    next
      case False
      with "18.IH" [OF False _ op filled_0 [OF op(1)] r] "18.prems"(1) show ?thesis by simp
    qed
  qed (use "18.prems" container_metas w in \<open>auto simp: meta_data_defs\<close>)
  moreover have "(meta_flags ?m OR amqp_is_encoded OR amqp_is_list) AND amqp_is_list \<noteq> 0" by (simp add: meta_data_defs)
  ultimately show ?case
    using wire_container_eq [OF w(1,2), of wide "length vs" "wires vs"]
    by (cases wide) (auto simp: amqp_encode_list_8_def amqp_encode_list_32_def w Let_def split: if_splits)
next
  case (19 wide vs)
  let ?m = "if wide then amqp_type_meta_data_map_32 else amqp_type_meta_data_map_8"
  have w: "width amqp_type_meta_data_map_8 = 1" "width amqp_type_meta_data_map_32 = 4"
    "format_code amqp_type_meta_data_map_8 = 0xc1" "format_code amqp_type_meta_data_map_32 = 0xd1" by (simp_all add: meta_data_defs)
  have "encoded c b (if (meta_flags ?m OR amqp_is_encoded OR amqp_is_map) AND amqp_is_list \<noteq> 0 \<and> length vs = 0 then [0x45]
      else format_code ?m # header_bytes (width ?m) (length (wires vs) + width ?m) (length vs) @ wires vs)
     (run_bind (encode_compound_type c b amqp_is_map ?m) (\<lambda>(p, c, b).
      run_bind (encode_values vs c b) (\<lambda>(c, b). amqp_complete_type c b p)))"
  proof (rule encode_container_ok)
    fix a' t' c2' b2'
    assume op: "opened c a' t' c2'" "\<not> amqp_type_is_composite t'" and r: "room b2' (Suc (spaces vs))"
    show "\<exists>c3 b3. encode_values vs c2' b2' = Ret (c3, b3) \<and> filled c2' a' (length vs) c3 \<and> extends b2' (wires vs) b3"
      using "19.IH" [OF _ op filled_0 [OF op(1)] r] "19.prems"(1) by simp
  qed (use "19.prems" container_metas w in \<open>auto simp: meta_data_defs\<close>)
  moreover have "(meta_flags ?m OR amqp_is_encoded OR amqp_is_map) AND amqp_is_list = 0" by (simp add: meta_data_defs)
  ultimately show ?case
    using wire_container_eq [OF w(1,2), of wide "length vs" "wires vs"]
    by (cases wide) (auto simp: amqp_encode_map_8_def amqp_encode_map_32_def w Let_def split: if_splits)
next
  case (20 d v)
  have "room b (3 + space d + space v)" using "20.prems"(3) by (simp add: room_def)
  from encode_described_ok [OF "20.prems"(2) this, of "wire d" "encode_value d" "wire v" "encode_value v"]
  show ?case using "20.IH" "20.prems"(1) wire_le_space by simp
next
  case 21
  then show ?case by (auto simp: room_def intro: extends_refl)
next
  case (22 v vs)
  have ready: "encode_ready c" by (rule filled_ready [OF "22.prems"(2,4)]) (use "22.prems"(3) in simp)
  have "encoded c b (wire v) (encode_value v c b)"
    using "22.IH"(1) [OF _ ready] "22.prems"(1,5) by (simp add: room_def)
  then obtain a3 c3 b3 where r3: "encode_value v c b = Ret (Some a3, c3, b3)" "extends b (wire v) b3" "encode_frame c c3" "clean c3"
    "encode_container c3 = encode_container c" by (rule encodedE) blast
  have f3: "filled c2 a (Suc n) c3" using filled_step [OF "22.prems"(2,4) r3(3-5)] .
  have r: "room b3 (Suc (spaces vs))"
    using extendsD [OF r3(2)] "22.prems"(5) wire_le_space [of v] by (simp add: room_def)
  obtain c4 b4 where "encode_values vs c3 b3 = Ret (c4, b4)" "filled c2 a (Suc n + length vs) c4" "extends b3 (wires vs) b4"
    using "22.IH"(2) [OF _ "22.prems"(2,3) f3 r] "22.prems"(1) by auto
  then show ?case using r3(1) extends_trans [OF r3(2)] by simp
qed (rule encode_leaf_ok; simp; fail)+

end
