(* ===== verification/Decode.thy ===== *)
theory Decode
  imports Types
begin

text \<open>
  The decoder of \<^verbatim>\<open>Codec/Decode/Decode.c\<close>. A decoder of a value without elements reads the
  buffer and fills in the value it is given; the decoders of containers also allocate, and
  work on the heap of the context. Messages to the debug stream are not modelled.

  The C functions call one another recursively through the table of encodings. Here
  \<open>decode_type_into_result\<close>, through which every cycle passes, carries a depth bound, and the
  container decoders take the function for the nested level as the argument \<open>into_result\<close>.
\<close>

section \<open>Values without elements\<close>

type_synonym leaf_decoder =
  "amqp_buffer_t \<Rightarrow> amqp_encoding_meta_data_t \<Rightarrow> amqp_type_t \<Rightarrow> (bool \<times> amqp_buffer_t \<times> amqp_type_t) run"

definition set_position :: "nat \<Rightarrow> nat \<Rightarrow> amqp_type_t \<Rightarrow> amqp_type_t" where
  "set_position i n t = t\<lparr>position := \<lparr>position_index = i, position_size = n\<rparr>\<rparr>"

definition map_value :: "(amqp_value_t \<Rightarrow> amqp_value_t) \<Rightarrow> amqp_type_t \<Rightarrow> amqp_type_t" where
  "map_value f t = t\<lparr>value_of := f (value_of t)\<rparr>"

definition amqp_decode_null :: leaf_decoder where
  "amqp_decode_null buffer meta t = Ret (True, buffer, set_position (amqp_buffer_index buffer) 0 t)"

definition amqp_decode_fixed_zero_width :: leaf_decoder where
  "amqp_decode_fixed_zero_width buffer meta t =
     Ret (True, buffer, set_position (amqp_buffer_index buffer) 0 t)"

definition amqp_decode_boolean_true :: leaf_decoder where
  "amqp_decode_boolean_true buffer meta t =
     run_bind (amqp_decode_fixed_zero_width buffer meta t) (\<lambda>(rc, buffer, t).
     Ret (True, buffer, map_value (set_b1 1) t))"

definition amqp_decode_boolean_false :: leaf_decoder where
  "amqp_decode_boolean_false buffer meta t = amqp_decode_fixed_zero_width buffer meta t"

definition decode_error :: "int \<Rightarrow> amqp_type_t \<Rightarrow> amqp_type_t run" where
  "decode_error code t =
    (let t = amqp_mark_type_invalid code t in run_assert (amqp_type_is_invalid t) (Ret t))"

definition check_available :: "amqp_buffer_t \<Rightarrow> amqp_type_t \<Rightarrow> nat \<Rightarrow> (bool \<times> amqp_type_t) run" where
  "check_available buffer t w =
    (if amqp_buffer_check_available buffer w then Ret (True, t)
     else run_bind (decode_error AMQP_ERROR_BUFFER_WOULD_OVERRUN t) (\<lambda>t. Ret (False, t)))"

definition copy_uuid :: "amqp_buffer_t \<Rightarrow> nat \<Rightarrow> byte list run" where
  "copy_uuid buffer index = get_list amqp_unchecked_getc_at buffer index 16"

definition amqp_decode_fixed_width :: leaf_decoder where
  "amqp_decode_fixed_width buffer meta t =
    run_bind (check_available buffer t (width meta)) (\<lambda>(rc, t).
    if rc then
      let index = amqp_buffer_index buffer;
          size = width meta;
          t = set_position index size t;
          buffer = amqp_buffer_advance_read_index buffer size
      in if size = 1 then
           run_bind (amqp_ntoh_8 buffer index) (\<lambda>x. Ret (True, buffer, map_value (set_b1 x) t))
         else if size = 2 then
           run_bind (amqp_ntoh_16 buffer index) (\<lambda>x. Ret (True, buffer, map_value (set_b2 x) t))
         else if size = 4 then
           run_bind (amqp_ntoh_32 buffer index) (\<lambda>x. Ret (True, buffer, map_value (set_b4 x) t))
         else if size = 8 then
           run_bind (amqp_ntoh_64 buffer index) (\<lambda>x. Ret (True, buffer, map_value (set_b8 x) t))
         else if size = 16 then
           run_bind (copy_uuid buffer index) (\<lambda>xs. Ret (True, buffer, map_value (value_uuid_update (\<lambda>_. xs)) t))
         else Fault Aborted
    else Ret (False, buffer, t))"

text \<open>The work that follows when \<open>rc\<close> is true.\<close>

definition then_value :: "(amqp_value_t \<Rightarrow> amqp_value_t) \<Rightarrow> (bool \<times> amqp_buffer_t \<times> amqp_type_t) run \<Rightarrow>
    (bool \<times> amqp_buffer_t \<times> amqp_type_t) run" where
  "then_value f r = run_bind r (\<lambda>(rc, buffer, t). Ret (rc, buffer, if rc then map_value f t else t))"

definition amqp_decode_boolean :: leaf_decoder where
  "amqp_decode_boolean buffer meta t = amqp_decode_fixed_width buffer meta t"

definition amqp_decode_ubyte :: leaf_decoder where
  "amqp_decode_ubyte buffer meta t = amqp_decode_fixed_width buffer meta t"

definition amqp_decode_byte :: leaf_decoder where
  "amqp_decode_byte buffer meta t = amqp_decode_fixed_width buffer meta t"

definition amqp_decode_ushort :: leaf_decoder where
  "amqp_decode_ushort buffer meta t = amqp_decode_fixed_width buffer meta t"

definition amqp_decode_short :: leaf_decoder where
  "amqp_decode_short buffer meta t = amqp_decode_fixed_width buffer meta t"

definition amqp_decode_uint :: leaf_decoder where
  "amqp_decode_uint buffer meta t = amqp_decode_fixed_width buffer meta t"

definition amqp_decode_uint0 :: leaf_decoder where
  "amqp_decode_uint0 buffer meta t =
     then_value (set_b4 0) (amqp_decode_fixed_zero_width buffer meta t)"

definition amqp_decode_int :: leaf_decoder where
  "amqp_decode_int buffer meta t = amqp_decode_fixed_width buffer meta t"

definition amqp_decode_small_uint :: leaf_decoder where
  "amqp_decode_small_uint buffer meta t =
     then_value (\<lambda>v. set_b4 (ucast (value_b1 v)) v) (amqp_decode_fixed_width buffer meta t)"

definition amqp_decode_small_int :: leaf_decoder where
  "amqp_decode_small_int buffer meta t =
     then_value (\<lambda>v. set_b4 (scast (value_b1 v)) v) (amqp_decode_fixed_width buffer meta t)"

definition amqp_decode_float :: leaf_decoder where
  "amqp_decode_float buffer meta t = amqp_decode_fixed_width buffer meta t"

definition amqp_decode_char :: leaf_decoder where
  "amqp_decode_char buffer meta t =
    run_bind (amqp_decode_fixed_width buffer meta t) (\<lambda>(rc, buffer, t).
    if rc \<and> \<not> amqp_validate_char (value_b4 (value_of t))
    then run_bind (decode_error AMQP_ERROR_INVALID_UTF32_CHARACTER t) (\<lambda>t. Ret (False, buffer, t))
    else Ret (rc, buffer, t))"

definition amqp_decode_decimal32 :: leaf_decoder where
  "amqp_decode_decimal32 buffer meta t = amqp_decode_fixed_width buffer meta t"

definition amqp_decode_ulong0 :: leaf_decoder where
  "amqp_decode_ulong0 buffer meta t =
     then_value (set_b8 0) (amqp_decode_fixed_zero_width buffer meta t)"

definition amqp_decode_ulong :: leaf_decoder where
  "amqp_decode_ulong buffer meta t = amqp_decode_fixed_width buffer meta t"

definition amqp_decode_long :: leaf_decoder where
  "amqp_decode_long buffer meta t = amqp_decode_fixed_width buffer meta t"

definition amqp_decode_small_ulong :: leaf_decoder where
  "amqp_decode_small_ulong buffer meta t =
     then_value (\<lambda>v. set_b8 (ucast (value_b1 v)) v) (amqp_decode_fixed_width buffer meta t)"

definition amqp_decode_small_long :: leaf_decoder where
  "amqp_decode_small_long buffer meta t =
     then_value (\<lambda>v. set_b8 (scast (value_b1 v)) v) (amqp_decode_fixed_width buffer meta t)"

definition amqp_decode_double :: leaf_decoder where
  "amqp_decode_double buffer meta t = amqp_decode_fixed_width buffer meta t"

definition amqp_decode_timestamp :: leaf_decoder where
  "amqp_decode_timestamp buffer meta t = amqp_decode_fixed_width buffer meta t"

definition amqp_decode_decimal64 :: leaf_decoder where
  "amqp_decode_decimal64 buffer meta t = amqp_decode_fixed_width buffer meta t"

definition amqp_decode_decimal128 :: leaf_decoder where
  "amqp_decode_decimal128 buffer meta t = Fault NotImplemented"

definition amqp_decode_uuid :: leaf_decoder where
  "amqp_decode_uuid buffer meta t = amqp_decode_fixed_width buffer meta t"

section \<open>Variable width\<close>

text \<open>The result -1 of the source is the largest \<open>uint32_t\<close>.\<close>

definition get_variable_type_size ::
  "amqp_buffer_t \<Rightarrow> amqp_encoding_meta_data_t \<Rightarrow> amqp_type_t \<Rightarrow> (uint32 \<times> amqp_buffer_t \<times> amqp_type_t) run" where
  "get_variable_type_size buffer meta t =
    run_bind (amqp_buffer_read_size_field buffer (width meta)) (\<lambda>(size, buffer).
    if size = - 1 then
      run_bind (decode_error AMQP_ERROR_BUFFER_WOULD_OVERRUN t) (\<lambda>t. Ret (- 1, buffer, t))
    else if \<not> amqp_buffer_check_available buffer (unat size) then
      run_bind (decode_error AMQP_ERROR_BUFFER_WOULD_OVERRUN t) (\<lambda>t. Ret (- 1, buffer, t))
    else Ret (size, buffer, t))"

definition get_variable_type_count ::
  "amqp_buffer_t \<Rightarrow> amqp_encoding_meta_data_t \<Rightarrow> amqp_type_t \<Rightarrow> (uint32 \<times> amqp_buffer_t \<times> amqp_type_t) run" where
  "get_variable_type_count buffer meta t =
    run_bind (amqp_buffer_read_size_field buffer (width meta)) (\<lambda>(count, buffer).
    if count = - 1 then
      run_bind (decode_error AMQP_ERROR_VARIABLE_TYPE_MALFORMED t) (\<lambda>t. Ret (count, buffer, t))
    else Ret (count, buffer, t))"

definition amqp_construct_variable_type :: leaf_decoder where
  "amqp_construct_variable_type buffer meta t =
    run_bind (get_variable_type_size buffer meta t) (\<lambda>(size, buffer, t).
    if size = - 1 then Ret (False, buffer, t)
    else Ret (True, amqp_buffer_advance_read_index buffer (unat size),
              set_position (amqp_buffer_index buffer) (unat size) t))"

definition amqp_construct_binary_variable_type :: leaf_decoder where
  "amqp_construct_binary_variable_type buffer meta t = amqp_construct_variable_type buffer meta t"

definition amqp_decode_binary_vbin8 :: leaf_decoder where
  "amqp_decode_binary_vbin8 buffer meta t = amqp_construct_binary_variable_type buffer meta t"

definition amqp_decode_binary_vbin32 :: leaf_decoder where
  "amqp_decode_binary_vbin32 buffer meta t = amqp_construct_binary_variable_type buffer meta t"

text \<open>The loops that look for a byte the type does not allow, over \<open>n\<close> bytes from \<open>i\<close>.\<close>

primrec scan_for :: "(byte \<Rightarrow> bool) \<Rightarrow> amqp_buffer_t \<Rightarrow> nat \<Rightarrow> nat \<Rightarrow> bool run" where
  "scan_for bad buffer i 0 = Ret False"
| "scan_for bad buffer i (Suc n) =
     run_bind (amqp_unchecked_getc_at buffer i) (\<lambda>c.
     if bad c then Ret True else scan_for bad buffer (Suc i) n)"

definition amqp_decode_symbol :: leaf_decoder where
  "amqp_decode_symbol buffer meta t =
    run_bind (amqp_construct_variable_type buffer meta t) (\<lambda>(rc, buffer, t).
    if rc then
      run_bind (scan_for (\<lambda>c. c AND 0x80 \<noteq> 0) buffer (position_index (position t)) (position_size (position t)))
        (\<lambda>found. if found
           then run_bind (decode_error AMQP_ERROR_INVALID_SYMBOL_CHARACTER t) (\<lambda>t. Ret (False, buffer, t))
           else Ret (rc, buffer, t))
    else Ret (rc, buffer, t))"

definition amqp_decode_symbol_sym8 :: leaf_decoder where
  "amqp_decode_symbol_sym8 buffer meta t = amqp_decode_symbol buffer meta t"

definition amqp_decode_symbol_sym32 :: leaf_decoder where
  "amqp_decode_symbol_sym32 buffer meta t = amqp_decode_symbol buffer meta t"

definition amqp_decode_string_utf8 :: leaf_decoder where
  "amqp_decode_string_utf8 buffer meta t =
    run_bind (amqp_construct_variable_type buffer meta t) (\<lambda>(rc, buffer, t).
    if rc then
      run_bind (scan_for (\<lambda>c. c = 0) buffer (position_index (position t)) (position_size (position t)))
        (\<lambda>found. if found
           then run_bind (decode_error AMQP_ERROR_INVALID_UTF8_CHARACTER t) (\<lambda>t. Ret (False, buffer, t))
           else Ret (rc, buffer, t))
    else Ret (rc, buffer, t))"

definition amqp_decode_string_str8_utf8 :: leaf_decoder where
  "amqp_decode_string_str8_utf8 buffer meta t = amqp_decode_string_utf8 buffer meta t"

definition amqp_decode_string_str32_utf8 :: leaf_decoder where
  "amqp_decode_string_str32_utf8 buffer meta t = amqp_decode_string_utf8 buffer meta t"

definition amqp_construct_container_type :: leaf_decoder where
  "amqp_construct_container_type buffer meta t =
    run_bind (get_variable_type_size buffer meta t) (\<lambda>(size, buffer, t).
    if size \<noteq> - 1
    then Ret (True, buffer, set_position (amqp_buffer_index buffer) (unat size) t)
    else Ret (False, buffer, t))"

definition amqp_decode_list_0 :: leaf_decoder where
  "amqp_decode_list_0 buffer meta t =
     then_value (value_count_update (\<lambda>_. 0)) (amqp_decode_fixed_zero_width buffer meta t)"

definition amqp_decode_extension_type :: leaf_decoder where
  "amqp_decode_extension_type buffer meta t = Fault NotImplemented"

section \<open>Constructors\<close>

definition decode_type_constructor ::
  "amqp_buffer_t \<Rightarrow> amqp_type_constructor_t \<Rightarrow> (bool \<times> amqp_buffer_t \<times> amqp_type_constructor_t) run" where
  "decode_type_constructor buffer k =
    run_bind (amqp_buffer_getc buffer) (\<lambda>(c, buffer).
    let k = k\<lparr>constructor_format_code := word_of_int c\<rparr>
    in case amqp_type_meta_data_lookup (uint (constructor_format_code k)) of
         None \<Rightarrow> Ret (False, buffer, k)
       | Some meta \<Rightarrow> Ret (True, buffer, k\<lparr>meta_data := Some meta, typedef_flags := meta_flags meta,
                                            extension_type_code := 0\<rparr>))"

definition decode_type_constructor_into_result ::
  "amqp_buffer_t \<Rightarrow> amqp_type_t \<Rightarrow> (bool \<times> amqp_buffer_t \<times> amqp_type_t) run" where
  "decode_type_constructor_into_result buffer t =
    run_bind (decode_type_constructor buffer (constructor t)) (\<lambda>(rc, buffer, k).
    let t = t\<lparr>constructor := k\<rparr>
    in if rc then Ret (rc, buffer, t)
       else run_bind (decode_error AMQP_ERROR_UNKNOWN_FORMAT_CODE t) (\<lambda>t. Ret (rc, buffer, t)))"

section \<open>Containers\<close>

type_synonym into_result = "amqp_context_t \<Rightarrow> amqp_buffer_t \<Rightarrow> nat \<Rightarrow> (bool \<times> amqp_context_t \<times> amqp_buffer_t) run"

text \<open>A decoder of a value without elements, applied to the value at an address.\<close>

definition on_heap :: "leaf_decoder \<Rightarrow> amqp_encoding_meta_data_t \<Rightarrow> into_result" where
  "on_heap decoder meta context buffer a =
     run_bind (decoder buffer meta (types context a)) (\<lambda>(rc, buffer, t).
     Ret (rc, update_type context a (\<lambda>_. t), buffer))"

definition fail_at :: "int \<Rightarrow> into_result" where
  "fail_at code context buffer a =
     run_bind (decode_error code (types context a)) (\<lambda>t.
     Ret (False, update_type context a (\<lambda>_. t), buffer))"

definition decode_with ::
  "into_result \<Rightarrow> amqp_context_t \<Rightarrow> amqp_buffer_t \<Rightarrow> (nat option \<times> amqp_context_t \<times> amqp_buffer_t) run" where
  "decode_with into_result context buffer =
    (if amqp_buffer_at_end buffer then Ret (None, context, buffer)
     else
       let (a, context) = amqp_allocate_type context
       in run_bind (decode_type_constructor_into_result buffer (types context a)) (\<lambda>(rc, buffer, t).
          let context = update_type context a (\<lambda>_. t)
          in if rc
             then run_bind (into_result context buffer a) (\<lambda>(rc, context, buffer). Ret (Some a, context, buffer))
             else Ret (Some a, context, buffer)))"

text \<open>The two halves of a described value: decode, link into the array, flag.\<close>

definition decode_part ::
  "into_result \<Rightarrow> nat \<Rightarrow> uint32 \<Rightarrow> amqp_context_t \<Rightarrow> amqp_buffer_t \<Rightarrow> nat \<Rightarrow>
   (nat option \<times> amqp_context_t \<times> amqp_buffer_t) run" where
  "decode_part into_result i flags context buffer a =
    run_bind (decode_with into_result context buffer) (\<lambda>(p, context, buffer).
    case p of
      None \<Rightarrow> Ret (None, context, buffer)
    | Some e \<Rightarrow>
        run_bind (store_element context (value_elements (value_of (types context a))) i e) (\<lambda>context.
        Ret (Some e, update_type context e (amqp_typedef_flags_set flags), buffer)))"

definition amqp_decode_described_type :: "into_result \<Rightarrow> into_result" where
  "amqp_decode_described_type into_result context buffer a =
    (let context = update_type context a (\<lambda>t.
           map_value (value_count_update (\<lambda>_. 2)) (set_position (amqp_buffer_index buffer) 0 t));
         (p, context) = amqp_allocate_amqp_type_t_array context 2;
         context = update_type context a (map_value (value_elements_update (\<lambda>_. Some p)))
     in run_bind (decode_part into_result 0 (amqp_is_contained OR amqp_is_descriptor) context buffer a)
          (\<lambda>(descriptor, context, buffer).
        case descriptor of
          None \<Rightarrow> fail_at AMQP_ERROR_NO_DESCRIPTOR context buffer a
        | Some descriptor \<Rightarrow>
            run_bind (decode_part into_result 1 (amqp_is_contained OR amqp_is_described) context buffer a)
              (\<lambda>(described, context, buffer).
            case described of
              None \<Rightarrow> fail_at AMQP_ERROR_NO_DESCRIBED_TYPE context buffer a
            | Some described \<Rightarrow>
                if \<not> amqp_type_is_valid (types context descriptor)
                then fail_at AMQP_ERROR_DESCRIPTOR_INVALID context buffer a
                else if \<not> amqp_type_is_valid (types context described)
                then fail_at AMQP_ERROR_DESCRIBED_INVALID context buffer a
                else Ret (True, context, buffer))))"

text \<open>The loop over the elements of a list, a map or an array, from element \<open>i\<close> on.\<close>

primrec decode_elements ::
  "(amqp_context_t \<Rightarrow> amqp_buffer_t \<Rightarrow> (nat option \<times> amqp_context_t \<times> amqp_buffer_t) run) \<Rightarrow>
   nat \<Rightarrow> nat \<Rightarrow> amqp_context_t \<Rightarrow> amqp_buffer_t \<Rightarrow> nat \<Rightarrow> (amqp_context_t \<times> amqp_buffer_t) run" where
  "decode_elements decode i 0 context buffer a = Ret (context, buffer)"
| "decode_elements decode i (Suc n) context buffer a =
    run_bind (decode context buffer) (\<lambda>(element, context, buffer).
    case element of
      None \<Rightarrow> decode_elements decode (Suc i) n context buffer a
    | Some e \<Rightarrow>
        run_bind (store_element context (value_elements (value_of (types context a))) i e) (\<lambda>context.
        decode_elements decode (Suc i) n
          (update_type context e (amqp_typedef_flags_set amqp_is_contained)) buffer a))"

text \<open>The size and the count field of a container, and the allocation of its elements.\<close>

definition amqp_decode_list_list :: "into_result \<Rightarrow> amqp_encoding_meta_data_t \<Rightarrow> into_result" where
  "amqp_decode_list_list into_result meta context buffer a =
    run_bind (on_heap amqp_construct_container_type meta context buffer a) (\<lambda>(rc, context, buffer).
    if rc then
      run_bind (get_variable_type_count buffer meta (types context a)) (\<lambda>(count, buffer, t).
      let context = update_type context a (\<lambda>_. t)
      in if count = - 1 then Ret (False, context, buffer)
         else
           let context = update_type context a (map_value (value_count_update (\<lambda>_. unat count)));
               (p, context) = amqp_allocate_amqp_type_t_array context (unat count);
               context = update_type context a (map_value (value_elements_update (\<lambda>_. Some p)))
           in run_bind (decode_elements (decode_with into_result) 0 (unat count) context buffer a)
                (\<lambda>(context, buffer). Ret (True, context, buffer)))
    else Ret (False, context, buffer))"

definition amqp_decode_list_8 :: "into_result \<Rightarrow> amqp_encoding_meta_data_t \<Rightarrow> into_result" where
  "amqp_decode_list_8 = amqp_decode_list_list"

definition amqp_decode_list_32 :: "into_result \<Rightarrow> amqp_encoding_meta_data_t \<Rightarrow> into_result" where
  "amqp_decode_list_32 = amqp_decode_list_list"

definition amqp_decode_map_map :: "into_result \<Rightarrow> amqp_encoding_meta_data_t \<Rightarrow> into_result" where
  "amqp_decode_map_map into_result meta context buffer a =
    run_bind (on_heap amqp_construct_container_type meta context buffer a) (\<lambda>(rc, context, buffer).
    if rc then
      run_bind (get_variable_type_count buffer meta (types context a)) (\<lambda>(count, buffer, t).
      let context = update_type context a (\<lambda>_. t)
      in if count = - 1 then Ret (False, context, buffer)
         else
           let context = update_type context a (map_value (value_count_update (\<lambda>_. unat count)));
               (p, context) = amqp_allocate_amqp_type_t_array context (unat count);
               context = update_type context a (map_value (value_elements_update (\<lambda>_. Some p)))
           in run_bind (decode_elements (decode_with into_result) 0 (unat count) context buffer a)
                (\<lambda>(context, buffer). Ret (True, context, buffer)))
    else Ret (False, context, buffer))"

definition amqp_decode_map_8 :: "into_result \<Rightarrow> amqp_encoding_meta_data_t \<Rightarrow> into_result" where
  "amqp_decode_map_8 = amqp_decode_map_map"

definition amqp_decode_map_32 :: "into_result \<Rightarrow> amqp_encoding_meta_data_t \<Rightarrow> into_result" where
  "amqp_decode_map_32 = amqp_decode_map_map"

definition create_array_element :: "amqp_context_t \<Rightarrow> amqp_type_constructor_t \<Rightarrow> nat \<times> amqp_context_t" where
  "create_array_element context k =
    (let (a, context) = amqp_allocate_type context
     in (a, update_type context a (\<lambda>t. t\<lparr>constructor := constructor t\<lparr>
              constructor_format_code := constructor_format_code k,
              extension_type_code := extension_type_code k,
              meta_data := meta_data k,
              typedef_flags := typedef_flags k\<rparr>\<rparr>)))"

text \<open>The argument \<open>k\<close> is the address of the value whose constructor the elements share.\<close>

definition amqp_decode_array_element ::
  "into_result \<Rightarrow> nat \<Rightarrow> amqp_context_t \<Rightarrow> amqp_buffer_t \<Rightarrow> (nat option \<times> amqp_context_t \<times> amqp_buffer_t) run" where
  "amqp_decode_array_element into_result k context buffer =
    (let (a, context) = create_array_element context (constructor (types context k))
     in run_bind (into_result context buffer a) (\<lambda>(rc, context, buffer). Ret (Some a, context, buffer)))"

definition amqp_decode_array :: "into_result \<Rightarrow> amqp_encoding_meta_data_t \<Rightarrow> into_result" where
  "amqp_decode_array into_result meta context buffer a =
    run_bind (on_heap amqp_construct_container_type meta context buffer a) (\<lambda>(rc, context, buffer).
    if rc then
      run_bind (get_variable_type_count buffer meta (types context a)) (\<lambda>(count, buffer, t).
      let context = update_type context a (\<lambda>_. t)
      in if count = - 1 then Ret (False, context, buffer)
         else
           let context = update_type context a (map_value (value_count_update (\<lambda>_. unat count)));
               (k, context) = amqp_allocate_type context;
               context = update_type context a (map_value (value_array_constructor_update (\<lambda>_. Some k)))
           in run_bind (decode_type_constructor buffer (constructor (types context k))) (\<lambda>(rc, buffer, c).
              let context = update_type context k (\<lambda>t. t\<lparr>constructor := c\<rparr>)
              in if \<not> rc then fail_at AMQP_ERROR_UNKNOWN_ARRAY_ELEMENT_FORMAT_CODE context buffer a
                 else if 0 < count then
                   let (p, context) = amqp_allocate_amqp_type_t_array context (unat count);
                       context = update_type context a (map_value (value_elements_update (\<lambda>_. Some p)))
                   in run_bind (decode_elements (amqp_decode_array_element into_result k) 0 (unat count) context buffer a)
                        (\<lambda>(context, buffer). Ret (True, context, buffer))
                 else Ret (True, context, buffer)))
    else Ret (False, context, buffer))"

definition amqp_decode_array_8 :: "into_result \<Rightarrow> amqp_encoding_meta_data_t \<Rightarrow> into_result" where
  "amqp_decode_array_8 = amqp_decode_array"

definition amqp_decode_array_32 :: "into_result \<Rightarrow> amqp_encoding_meta_data_t \<Rightarrow> into_result" where
  "amqp_decode_array_32 = amqp_decode_array"

section \<open>Dispatch\<close>

text \<open>The call through \<open>meta_data->type_decoder\<close>.\<close>

definition call_type_decoder :: "into_result \<Rightarrow> amqp_encoding_meta_data_t \<Rightarrow> into_result" where
  "call_type_decoder into_result meta =
    (case type_decoder meta of
       Decode_described_type \<Rightarrow> amqp_decode_described_type into_result
     | Decode_null \<Rightarrow> on_heap amqp_decode_null meta
     | Decode_boolean_true \<Rightarrow> on_heap amqp_decode_boolean_true meta
     | Decode_boolean_false \<Rightarrow> on_heap amqp_decode_boolean_false meta
     | Decode_uint0 \<Rightarrow> on_heap amqp_decode_uint0 meta
     | Decode_ulong0 \<Rightarrow> on_heap amqp_decode_ulong0 meta
     | Decode_list_0 \<Rightarrow> on_heap amqp_decode_list_0 meta
     | Decode_extension_type \<Rightarrow> on_heap amqp_decode_extension_type meta
     | Decode_ubyte \<Rightarrow> on_heap amqp_decode_ubyte meta
     | Decode_byte \<Rightarrow> on_heap amqp_decode_byte meta
     | Decode_small_uint \<Rightarrow> on_heap amqp_decode_small_uint meta
     | Decode_small_ulong \<Rightarrow> on_heap amqp_decode_small_ulong meta
     | Decode_small_int \<Rightarrow> on_heap amqp_decode_small_int meta
     | Decode_small_long \<Rightarrow> on_heap amqp_decode_small_long meta
     | Decode_boolean \<Rightarrow> on_heap amqp_decode_boolean meta
     | Decode_ushort \<Rightarrow> on_heap amqp_decode_ushort meta
     | Decode_short \<Rightarrow> on_heap amqp_decode_short meta
     | Decode_uint \<Rightarrow> on_heap amqp_decode_uint meta
     | Decode_int \<Rightarrow> on_heap amqp_decode_int meta
     | Decode_float \<Rightarrow> on_heap amqp_decode_float meta
     | Decode_char \<Rightarrow> on_heap amqp_decode_char meta
     | Decode_decimal32 \<Rightarrow> on_heap amqp_decode_decimal32 meta
     | Decode_ulong \<Rightarrow> on_heap amqp_decode_ulong meta
     | Decode_long \<Rightarrow> on_heap amqp_decode_long meta
     | Decode_double \<Rightarrow> on_heap amqp_decode_double meta
     | Decode_timestamp \<Rightarrow> on_heap amqp_decode_timestamp meta
     | Decode_decimal64 \<Rightarrow> on_heap amqp_decode_decimal64 meta
     | Decode_decimal128 \<Rightarrow> on_heap amqp_decode_decimal128 meta
     | Decode_uuid \<Rightarrow> on_heap amqp_decode_uuid meta
     | Decode_binary_vbin8 \<Rightarrow> on_heap amqp_decode_binary_vbin8 meta
     | Decode_string_str8_utf8 \<Rightarrow> on_heap amqp_decode_string_str8_utf8 meta
     | Decode_symbol_sym8 \<Rightarrow> on_heap amqp_decode_symbol_sym8 meta
     | Decode_binary_vbin32 \<Rightarrow> on_heap amqp_decode_binary_vbin32 meta
     | Decode_string_str32_utf8 \<Rightarrow> on_heap amqp_decode_string_str32_utf8 meta
     | Decode_symbol_sym32 \<Rightarrow> on_heap amqp_decode_symbol_sym32 meta
     | Decode_list_8 \<Rightarrow> amqp_decode_list_8 into_result meta
     | Decode_map_8 \<Rightarrow> amqp_decode_map_8 into_result meta
     | Decode_list_32 \<Rightarrow> amqp_decode_list_32 into_result meta
     | Decode_map_32 \<Rightarrow> amqp_decode_map_32 into_result meta
     | Decode_array_8 \<Rightarrow> amqp_decode_array_8 into_result meta
     | Decode_array_32 \<Rightarrow> amqp_decode_array_32 into_result meta)"

primrec decode_type_into_result :: "nat \<Rightarrow> into_result" where
  "decode_type_into_result 0 context buffer a = Fault OutOfFuel"
| "decode_type_into_result (Suc fuel) context buffer a =
    (case meta_data (constructor (types context a)) of
       None \<Rightarrow> Fault BadMemory
     | Some meta \<Rightarrow>
         run_bind (call_type_decoder (decode_type_into_result fuel) meta context buffer a)
           (\<lambda>(rc, context, buffer).
         run_assert (rc \<or> (invalid_cause (types context a) \<noteq> 0 \<and> amqp_type_is_invalid (types context a)))
           (Ret (rc, context, buffer))))"

text \<open>
  The depth of the recursion is bounded by the number of bytes left to read, since every nested
  level is entered after a byte was consumed; the last level needs one more.
\<close>

definition amqp_decode ::
  "amqp_context_t \<Rightarrow> amqp_buffer_t \<Rightarrow> (nat option \<times> amqp_context_t \<times> amqp_buffer_t) run" where
  "amqp_decode context buffer =
     decode_with (decode_type_into_result (Suc (limit_size buffer - limit_index buffer))) context buffer"

end
