(* ===== verification/Decode_Safety.thy ===== *)
theory Decode_Safety
  imports Decode
begin

text \<open>
  The decoder on arbitrary input: it never touches memory it does not own, its assertions hold,
  its recursion is bounded by the length of the input, it moves the read position forward and
  never past the data, and it changes no object that existed before. The only way it stops
  without returning is \<open>not_implemented\<close>, on the extension format codes and \<open>decimal128\<close>.
\<close>

section \<open>What decoding may change\<close>

definition reads :: "amqp_buffer_t \<Rightarrow> amqp_buffer_t \<Rightarrow> bool" where
  "reads b b' \<longleftrightarrow> (\<exists>j. b' = b\<lparr>limit_index := j\<rparr> \<and> limit_index b \<le> j \<and> j \<le> limit_size b)"

lemma readsI: "limit_index b \<le> j \<Longrightarrow> j \<le> limit_size b \<Longrightarrow> reads b (b\<lparr>limit_index := j\<rparr>)"
  by (auto simp: reads_def)

lemma reads_refl: "limit_index b \<le> limit_size b \<Longrightarrow> reads b b"
  unfolding reads_def by (rule exI [of _ "limit_index b"]) simp

lemma reads_trans: "reads b b1 \<Longrightarrow> reads b1 b2 \<Longrightarrow> reads b b2"
  by (auto simp: reads_def)

lemma readsD:
  assumes "reads b b'"
  shows "limit_size b' = limit_size b" and "limit_index b \<le> limit_index b'"
    and "limit_index b' \<le> limit_size b" and "buffer_ok b' = buffer_ok b" and "byte_at b' = byte_at b"
    and "contents b' = contents b" and "capacity b' = capacity b"
  using assms by (auto simp: reads_def)

text \<open>Objects outside \<open>A\<close> and arrays outside \<open>P\<close> that existed are the same; new ones are live.\<close>

definition heap_ext :: "nat set \<Rightarrow> nat set \<Rightarrow> amqp_context_t \<Rightarrow> amqp_context_t \<Rightarrow> bool" where
  "heap_ext A P c c' \<longleftrightarrow> next_type c \<le> next_type c' \<and> next_array c \<le> next_array c'
     \<and> (\<forall>x<next_type c. x \<notin> A \<longrightarrow> types c' x = types c x)
     \<and> (\<forall>x. live c' x = (live c x \<or> next_type c \<le> x \<and> x < next_type c'))
     \<and> (\<forall>p<next_array c. p \<notin> P \<longrightarrow> arrays c' p = arrays c p)
     \<and> encode_container c' = encode_container c"

lemma heap_ext_refl: "heap_ext A P c c"
  by (auto simp: heap_ext_def)

lemma heap_ext_trans:
  "heap_ext A P c c1 \<Longrightarrow> heap_ext B Q c1 c2 \<Longrightarrow>
   (\<And>x. x \<in> B \<Longrightarrow> x < next_type c \<Longrightarrow> x \<in> A) \<Longrightarrow> (\<And>p. p \<in> Q \<Longrightarrow> p < next_array c \<Longrightarrow> p \<in> P) \<Longrightarrow>
   heap_ext A P c c2"
  unfolding heap_ext_def
proof (intro conjI allI impI, goal_cases)
  case (3 x) then show ?case by (metis less_le_trans)
next
  case (5 p) then show ?case by (metis less_le_trans)
qed auto

lemma heap_ext_update: "heap_ext {a} P c (update_type c a f)"
  by (auto simp: heap_ext_def update_type_def)

lemma heap_ext_allocate: "heap_ext A P c (snd (amqp_allocate_type c))"
  by (auto simp: heap_ext_def amqp_allocate_type_def Let_def update_type_def)

lemma heap_ext_array: "heap_ext A P c (snd (amqp_allocate_amqp_type_t_array c n))"
  by (auto simp: heap_ext_def amqp_allocate_amqp_type_t_array_def Let_def)

lemma heap_ext_mono: "heap_ext A P c c' \<Longrightarrow> A \<subseteq> B \<Longrightarrow> P \<subseteq> Q \<Longrightarrow> heap_ext B Q c c'"
  by (auto simp: heap_ext_def)

lemma heap_extD:
  assumes "heap_ext A P c c'"
  shows "next_type c \<le> next_type c'" and "next_array c \<le> next_array c'"
    and "x < next_type c \<Longrightarrow> x \<notin> A \<Longrightarrow> types c' x = types c x"
    and "p < next_array c \<Longrightarrow> p \<notin> P \<Longrightarrow> arrays c' p = arrays c p"
  using assms by (auto simp: heap_ext_def)

section \<open>Values without elements\<close>

lemma mark_type_invalid_is_invalid [simp]:
  "amqp_type_is_invalid (amqp_mark_type_invalid cause t)"
  "\<not> amqp_type_is_valid (amqp_mark_type_invalid cause t)"
  "invalid_cause (amqp_mark_type_invalid cause t) = cause"
proof -
  have "bit ((w OR amqp_is_invalid) AND (amqp_is_invalid OR amqp_is_incomplete)) 25" for w :: uint32
    by (simp add: bit_simps)
  then have "(w OR amqp_is_invalid) AND (amqp_is_invalid OR amqp_is_incomplete) \<noteq> 0" for w :: uint32
    by (metis bit_0_eq bot_apply bot_bool_def)
  then show "amqp_type_is_invalid (amqp_mark_type_invalid cause t)"
    "\<not> amqp_type_is_valid (amqp_mark_type_invalid cause t)"
    by (simp_all add: amqp_type_is_invalid_def amqp_type_is_valid_def has_flags_def amqp_mark_type_invalid_def
        amqp_typedef_flags_set_def)
qed (simp add: amqp_mark_type_invalid_def)

lemma decode_error_Ret [simp]: "decode_error code t = Ret (amqp_mark_type_invalid code t)"
  by (simp add: decode_error_def Let_def)

text \<open>What every decoder leaves behind: a failure is recorded in the value.\<close>

definition failure_marked :: "bool \<Rightarrow> amqp_type_t \<Rightarrow> bool" where
  "failure_marked rc t \<longleftrightarrow> rc \<or> (invalid_cause t \<noteq> 0 \<and> amqp_type_is_invalid t)"

lemma failure_marked_simps [simp]:
  "failure_marked True t" "cause \<noteq> 0 \<Longrightarrow> failure_marked rc (amqp_mark_type_invalid cause t)"
  by (simp_all add: failure_marked_def)

definition leaf_post :: "amqp_buffer_t \<Rightarrow> bool \<times> amqp_buffer_t \<times> amqp_type_t \<Rightarrow> bool" where
  "leaf_post b = (\<lambda>(rc, b', t'). reads b b' \<and> failure_marked rc t')"

definition readable :: "amqp_buffer_t \<Rightarrow> bool" where
  "readable b \<longleftrightarrow> buffer_ok b \<and> limit_index b \<le> limit_size b"

lemma readable_reads: "readable b \<Longrightarrow> reads b b' \<Longrightarrow> readable b'"
  by (auto simp: readable_def reads_def)

lemma readable_bounds:
  assumes "readable b"
  shows "limit_index b \<le> limit_size b" "limit_size b \<le> capacity b" "capacity b \<le> 65536" "buffer_ok b"
  using assms buffer_ok_bounds [of b] by (auto simp: readable_def)

lemma fixed_width_safe:
  assumes "readable b" and "width m \<in> {1, 2, 4, 8, 16}"
  shows "run_ok {} (leaf_post b) (amqp_decode_fixed_width b m t)"
proof (cases "amqp_buffer_check_available b (width m)")
  case False
  then show ?thesis using assms
    by (simp add: amqp_decode_fixed_width_def check_available_def leaf_post_def reads_refl readable_def)
next
  case True
  let ?b = "b\<lparr>limit_index := limit_index b + width m\<rparr>"
  have le: "limit_index b + width m \<le> limit_size b" using True assms(1)
    by (auto simp: amqp_buffer_check_available_def readable_def)
  have ok: "buffer_ok ?b" and cap: "limit_index b + width m \<le> capacity ?b" and adv: "size_add (limit_index b) (width m) = limit_index b + width m"
    using le readable_bounds [OF assms(1)] by simp_all
  have rd: "reads b ?b" using le by (intro readsI) auto
  show ?thesis using assms(2) True rd ok cap adv ntoh_ok [OF ok, of "limit_index b"]
      buf.get_list_ok [OF ok, of "limit_index b" 16] buf.get_ok [OF ok, of "limit_index b"]
    by (auto simp: amqp_decode_fixed_width_def check_available_def Let_def leaf_post_def copy_uuid_def
        amqp_buffer_index_def amqp_buffer_advance_read_index_def amqp_ntoh_8_def)
qed

lemma zero_width_safe: "readable b \<Longrightarrow> run_ok {} (leaf_post b) (amqp_decode_fixed_zero_width b m t)"
  by (simp add: amqp_decode_fixed_zero_width_def leaf_post_def reads_refl readable_def)

lemma then_value_safe:
  "run_ok E (leaf_post b) r \<Longrightarrow> run_ok E (leaf_post b) (then_value f r)"
  by (auto simp: then_value_def run_ok_bind leaf_post_def elim!: run_ok_mono)

lemma char_safe:
  assumes "readable b" and "width m \<in> {1, 2, 4, 8, 16}"
  shows "run_ok {} (leaf_post b) (amqp_decode_char b m t)"
  unfolding amqp_decode_char_def
  by (rule run_ok_bindI [OF fixed_width_safe [OF assms]]) (auto simp: leaf_post_def)

lemma getc_reads:
  assumes "readable b" and "limit_index b < limit_size b"
  shows "amqp_buffer_unchecked_getc b = Ret (byte_at b (limit_index b), b\<lparr>limit_index := Suc (limit_index b)\<rparr>)"
  using unchecked_getc_ok [of b] assms by (simp add: readable_def)

text \<open>A size or count field: -1 (all ones) when it cannot be read, else its value.\<close>

lemma read_size_field_1:
  assumes "readable b" and "limit_index b < limit_size b"
  shows "amqp_buffer_read_size_field b 1 =
    Ret (ucast (byte_at b (limit_index b)), b\<lparr>limit_index := Suc (limit_index b)\<rparr>)"
proof -
  have "amqp_buffer_getc b = Ret (uint (byte_at b (limit_index b)), b\<lparr>limit_index := Suc (limit_index b)\<rparr>)"
    using getc_ok [of b] assms by (simp add: readable_def)
  moreover have "word_of_int (uint c) = (ucast c :: uint32)" for c :: byte by (rule ucast_eq [symmetric])
  ultimately show ?thesis by (simp add: amqp_buffer_read_size_field_def)
qed

lemma read_size_field_4:
  assumes "readable b" and "limit_index b + 4 \<le> limit_size b"
  shows "amqp_buffer_read_size_field b 4 =
    Ret (word_of_bytes (rev (map (byte_at b) [limit_index b..<limit_index b + 4])), b\<lparr>limit_index := limit_index b + 4\<rparr>)"
proof -
  let ?i = "limit_index b"
  have av: "amqp_buffer_check_available b 4"
    using assms by (auto simp: amqp_buffer_check_available_def)
  have g: "amqp_buffer_unchecked_getc (b\<lparr>limit_index := j\<rparr>) = Ret (byte_at b j, b\<lparr>limit_index := Suc j\<rparr>)"
    if "j < limit_size b" "?i \<le> j" for j
  proof -
    have "readable (b\<lparr>limit_index := j\<rparr>)" using assms(1) that by (simp add: readable_def)
    then show ?thesis using getc_reads [of "b\<lparr>limit_index := j\<rparr>"] that by simp
  qed
  have g0: "amqp_buffer_unchecked_getc b = Ret (byte_at b ?i, b\<lparr>limit_index := Suc ?i\<rparr>)"
    using getc_reads [OF assms(1)] assms(2) by simp
  have upt: "[?i..<?i + 4] = [?i, Suc ?i, Suc (Suc ?i), Suc (Suc (Suc ?i))]"
    by (simp add: upt_rec numeral_eq_Suc)
  have w: "push_bit 8 (push_bit 8 (push_bit 8 (ucast c0) OR ucast c1) OR ucast c2) OR ucast c3
    = (word_of_bytes [c3, c2, c1, c0] :: uint32)" for c0 c1 c2 c3 :: byte
    by (rule bit_word_eqI) (auto simp: bit_simps)
  show ?thesis using assms(2)
    by (simp add: amqp_buffer_read_size_field_def av g0 g upt w Let_def del: word_of_bytes.simps)
       (simp add: numeral_eq_Suc ac_simps)
qed

definition size_field_post :: "amqp_buffer_t \<Rightarrow> uint32 \<times> amqp_buffer_t \<Rightarrow> bool" where
  "size_field_post b = (\<lambda>(s, b'). reads b b' \<and> (s \<noteq> - 1 \<longrightarrow> limit_index b < limit_index b'))"

lemma size_field_safe:
  assumes "readable b" and "width m \<in> {1, 4}"
  shows "run_ok {} (size_field_post b) (amqp_buffer_read_size_field b (width m))"
proof -
  have end1: "amqp_buffer_read_size_field b 1 = Ret (- 1, b)" if "\<not> limit_index b < limit_size b"
    using that by (simp add: amqp_buffer_read_size_field_def amqp_buffer_getc_def)
  have end4: "amqp_buffer_read_size_field b 4 = Ret (- 1, b)" if "\<not> limit_index b + 4 \<le> limit_size b"
  proof -
    have "\<not> amqp_buffer_check_available b 4"
      using that assms(1) by (auto simp: amqp_buffer_check_available_def readable_def)
    then show ?thesis by (simp add: amqp_buffer_read_size_field_def)
  qed
  have "run_ok {} (size_field_post b) (amqp_buffer_read_size_field b 1)"
    using read_size_field_1 [OF assms(1)] end1 assms(1)
    by (cases "limit_index b < limit_size b") (auto simp: size_field_post_def readable_def intro: readsI reads_refl)
  moreover have "run_ok {} (size_field_post b) (amqp_buffer_read_size_field b 4)"
    using read_size_field_4 [OF assms(1)] end4 assms(1)
    by (cases "limit_index b + 4 \<le> limit_size b") (auto simp: size_field_post_def readable_def intro: readsI reads_refl)
  ultimately show ?thesis using assms(2) by auto
qed

lemma type_size_safe:
  assumes "readable b" and "width m \<in> {1, 4}"
  shows "run_ok {} (\<lambda>(s, b', t'). reads b b' \<and> failure_marked (s \<noteq> - 1) t' \<and>
      (s \<noteq> - 1 \<longrightarrow> limit_index b < limit_index b' \<and> limit_index b' + unat s \<le> limit_size b'))
    (get_variable_type_size b m t)"
  unfolding get_variable_type_size_def
  by (rule run_ok_bindI [OF size_field_safe [OF assms]])
    (auto simp: size_field_post_def amqp_buffer_check_available_def)

lemma type_count_safe:
  assumes "readable b" and "width m \<in> {1, 4}"
  shows "run_ok {} (\<lambda>(n, b', t'). reads b b' \<and> failure_marked (n \<noteq> - 1) t' \<and> (n \<noteq> - 1 \<longrightarrow> t' = t))
    (get_variable_type_count b m t)"
  unfolding get_variable_type_count_def
  by (rule run_ok_bindI [OF size_field_safe [OF assms]]) (auto simp: size_field_post_def)

lemma container_type_safe:
  assumes "readable b" and "width m \<in> {1, 4}"
  shows "run_ok {} (\<lambda>(rc, b', t'). leaf_post b (rc, b', t') \<and> (rc \<longrightarrow> limit_index b < limit_index b'))
    (amqp_construct_container_type b m t)"
  unfolding amqp_construct_container_type_def
  by (rule run_ok_bindI [OF type_size_safe [OF assms]]) (auto simp: leaf_post_def)

lemma position_set [simp]:
  "position_index (position (set_position i n t)) = i" "position_size (position (set_position i n t)) = n"
  by (simp_all add: set_position_def)

definition variable_post :: "amqp_buffer_t \<Rightarrow> bool \<times> amqp_buffer_t \<times> amqp_type_t \<Rightarrow> bool" where
  "variable_post b = (\<lambda>(rc, b', t'). leaf_post b (rc, b', t') \<and>
     (rc \<longrightarrow> position_index (position t') + position_size (position t') \<le> limit_size b))"

lemma variable_type_safe:
  assumes "readable b" and "width m \<in> {1, 4}"
  shows "run_ok {} (variable_post b) (amqp_construct_variable_type b m t)"
  unfolding amqp_construct_variable_type_def
proof (rule run_ok_bindI [OF type_size_safe [OF assms]], clarsimp, intro conjI impI)
  fix s b' t'
  assume rd: "reads b b'" and f: "failure_marked (s \<noteq> - 1) t'"
    and s: "s \<noteq> - 1 \<longrightarrow> limit_index b < limit_index b' \<and> limit_index b' + unat s \<le> limit_size b'"
  show "variable_post b (False, b', t')" if "s = - 1"
    using that rd f by (simp add: variable_post_def leaf_post_def)
  assume "s \<noteq> - 1"
  then have le: "limit_index b' + unat s \<le> limit_size b'" using s by simp
  moreover have "limit_size b' \<le> 65536"
    using readable_bounds [OF assms(1)] readsD [OF rd] by linarith
  ultimately have adv: "amqp_buffer_advance_read_index b' (unat s) = b'\<lparr>limit_index := limit_index b' + unat s\<rparr>"
    by (simp add: amqp_buffer_advance_read_index_def)
  have "reads b' (b'\<lparr>limit_index := limit_index b' + unat s\<rparr>)" using le by (intro readsI) auto
  with rd le show "variable_post b (True, amqp_buffer_advance_read_index b' (unat s),
      set_position (amqp_buffer_index b') (unat s) t')"
    unfolding adv by (auto simp: variable_post_def leaf_post_def amqp_buffer_index_def readsD intro: reads_trans)
qed

lemma scan_for_ok:
  "buffer_ok b \<Longrightarrow> i + n \<le> capacity b \<Longrightarrow> scan_for bad b i n = Ret (\<exists>j<n. bad (byte_at b (i + j)))"
proof (induction n arbitrary: i)
  case (Suc n)
  have "(\<exists>j<Suc n. bad (byte_at b (i + j))) \<longleftrightarrow> bad (byte_at b i) \<or> (\<exists>j<n. bad (byte_at b (Suc i + j)))"
    by (auto simp: less_Suc_eq_0_disj)
  then show ?case using Suc unchecked_getc_at_ok [of b i] by simp
qed simp

lemma scanned_safe:
  assumes "readable b" and "width m \<in> {1, 4}" and "cause \<noteq> 0"
  shows "run_ok {} (leaf_post b)
    (run_bind (amqp_construct_variable_type b m t) (\<lambda>(rc, buffer, t).
      if rc then
        run_bind (scan_for bad buffer (position_index (position t)) (position_size (position t)))
          (\<lambda>found. if found then run_bind (decode_error cause t) (\<lambda>t. Ret (False, buffer, t))
             else Ret (rc, buffer, t))
      else Ret (rc, buffer, t)))"
proof (rule run_ok_bindI [OF variable_type_safe [OF assms(1,2)]], clarify)
  fix rc b' t'
  assume post: "variable_post b (rc, b', t')"
  then have rd: "reads b b'" by (simp add: variable_post_def leaf_post_def)
  have "buffer_ok b'" "limit_size b \<le> capacity b'"
    using readable_bounds [OF assms(1)] readsD [OF rd] by simp_all
  then show "run_ok {} (leaf_post b) (if rc then
        run_bind (scan_for bad b' (position_index (position t')) (position_size (position t')))
          (\<lambda>found. if found then run_bind (decode_error cause t') (\<lambda>t. Ret (False, b', t))
             else Ret (rc, b', t'))
      else Ret (rc, b', t'))"
    using post assms(3) scan_for_ok [of b' "position_index (position t')" "position_size (position t')" bad]
    by (auto simp: variable_post_def leaf_post_def)
qed

lemma symbol_safe: "readable b \<Longrightarrow> width m \<in> {1, 4} \<Longrightarrow> run_ok {} (leaf_post b) (amqp_decode_symbol b m t)"
  unfolding amqp_decode_symbol_def by (rule scanned_safe) simp_all

lemma string_safe: "readable b \<Longrightarrow> width m \<in> {1, 4} \<Longrightarrow> run_ok {} (leaf_post b) (amqp_decode_string_utf8 b m t)"
  unfolding amqp_decode_string_utf8_def by (rule scanned_safe) simp_all

lemma binary_safe: "readable b \<Longrightarrow> width m \<in> {1, 4} \<Longrightarrow> run_ok {} (leaf_post b) (amqp_construct_variable_type b m t)"
  by (rule run_ok_mono [OF variable_type_safe]) (auto simp: variable_post_def)

section \<open>One step of the recursion\<close>

definition into_post :: "amqp_context_t \<Rightarrow> amqp_buffer_t \<Rightarrow> nat \<Rightarrow> bool \<times> amqp_context_t \<times> amqp_buffer_t \<Rightarrow> bool" where
  "into_post c b a = (\<lambda>(rc, c', b'). reads b b' \<and> heap_ext {a} {} c c' \<and> failure_marked rc (types c' a))"

definition decode_post ::
  "amqp_context_t \<Rightarrow> amqp_buffer_t \<Rightarrow> nat option \<times> amqp_context_t \<times> amqp_buffer_t \<Rightarrow> bool" where
  "decode_post c b = (\<lambda>(p, c', b'). reads b b' \<and> heap_ext {} {} c c' \<and>
     (case p of None \<Rightarrow> True | Some e \<Rightarrow> next_type c \<le> e \<and> e < next_type c'))"

definition known_constructor :: "amqp_type_constructor_t \<Rightarrow> bool" where
  "known_constructor k \<longleftrightarrow> (\<exists>m \<in> set amqp_type_lookup_table. meta_data k = Some m)"

text \<open>A decoder for the nested level that is safe when fewer than \<open>n\<close> bytes are left.\<close>

definition into_safe :: "nat \<Rightarrow> into_result \<Rightarrow> bool" where
  "into_safe n into_result \<longleftrightarrow> (\<forall>c b a. readable b \<longrightarrow> limit_size b - limit_index b < n \<longrightarrow> a < next_type c \<longrightarrow>
     known_constructor (constructor (types c a)) \<longrightarrow>
     run_ok {NotImplemented} (into_post c b a) (into_result c b a))"

lemma into_safeD:
  "into_safe n into \<Longrightarrow> readable b \<Longrightarrow> limit_size b - limit_index b < n \<Longrightarrow> a < next_type c \<Longrightarrow>
   known_constructor (constructor (types c a)) \<Longrightarrow> run_ok {NotImplemented} (into_post c b a) (into c b a)"
  by (simp add: into_safe_def)

lemma run_ok_faults: "run_ok E Q r \<Longrightarrow> E \<subseteq> F \<Longrightarrow> run_ok F Q r"
  by (cases r) auto

lemma on_heap_safe:
  assumes "run_ok E (leaf_post b) (d b m (types c a))"
  shows "run_ok E (into_post c b a) (on_heap d m c b a)"
  unfolding on_heap_def
  by (rule run_ok_bindI [OF assms]) (auto simp: leaf_post_def into_post_def heap_ext_update)

lemma fail_at_safe:
  assumes "heap_ext {a} {} c c1" and "reads b b1" and "code \<noteq> 0"
  shows "run_ok E (into_post c b a) (fail_at code c1 b1 a)"
  using assms by (auto simp: fail_at_def into_post_def intro: heap_ext_trans heap_ext_update)

lemma type_constructor_safe:
  assumes "readable b"
  shows "run_ok {} (\<lambda>(rc, b', k'). reads b b' \<and> (limit_index b < limit_size b \<longrightarrow> limit_index b < limit_index b')
      \<and> (rc \<longrightarrow> known_constructor k')) (decode_type_constructor b k)"
proof -
  have "run_ok {} (\<lambda>(x, b'). reads b b' \<and> (limit_index b < limit_size b \<longrightarrow> limit_index b < limit_index b'))
      (amqp_buffer_getc b)"
    using getc_ok [of b] assms
    by (cases "limit_index b < limit_size b")
      (auto simp: readable_def amqp_buffer_getc_def intro: readsI reads_refl)
  then show ?thesis
    unfolding decode_type_constructor_def
    by (rule run_ok_bindI)
      (auto simp: Let_def known_constructor_def lookup_iff split: option.splits)
qed

lemma allocate_type_facts:
  assumes "amqp_allocate_type c = (a, c1)"
  shows "a = next_type c" and "next_type c1 = Suc (next_type c)" and "heap_ext A P c c1"
  using assms heap_ext_allocate [of A P c]
  by (auto simp: amqp_allocate_type_def Let_def)

lemma allocate_array_facts:
  assumes "amqp_allocate_amqp_type_t_array c n = (p, c1)"
  shows "p = next_array c" and "next_array c1 = Suc (next_array c)" and "heap_ext A P c c1"
    and "\<exists>es. arrays c1 p = Some es \<and> n < length es" and "types c1 = types c" and "next_type c1 = next_type c"
proof -
  show "p = next_array c" and "next_array c1 = Suc (next_array c)" and "types c1 = types c" and "next_type c1 = next_type c"
    using assms by (auto simp: amqp_allocate_amqp_type_t_array_def Let_def)
  show "heap_ext A P c c1" using heap_ext_array [of A P c n] assms by simp
  have "n < (n div 16 + 1) * 16" using dividend_less_div_times [of 16 n] by simp
  then show "\<exists>es. arrays c1 p = Some es \<and> n < length es"
    using assms by (auto simp: amqp_allocate_amqp_type_t_array_def Let_def)
qed

lemma decode_with_safe:
  assumes into: "into_safe n into" and b: "readable b" and n: "limit_size b - limit_index b \<le> n"
  shows "run_ok {NotImplemented} (decode_post c b) (decode_with into c b)"
proof (cases "limit_index b = limit_size b")
  case True
  then show ?thesis using b
    by (simp add: decode_with_def amqp_buffer_at_end_def decode_post_def heap_ext_refl reads_refl readable_def)
next
  case False
  then have lt: "limit_index b < limit_size b" using b by (simp add: readable_def)
  obtain a c1 where al: "amqp_allocate_type c = (a, c1)" by fastforce
  note alf = allocate_type_facts [OF al]
  have "run_ok {NotImplemented} (\<lambda>(rc, b', t'). reads b b' \<and> limit_index b < limit_index b' \<and>
      (rc \<longrightarrow> known_constructor (constructor t'))) (decode_type_constructor_into_result b (types c1 a))"
    unfolding decode_type_constructor_into_result_def
    using lt by (intro run_ok_bindI [OF run_ok_faults [OF type_constructor_safe [OF b]]]) (auto simp: Let_def)
  then show ?thesis
    unfolding decode_with_def amqp_buffer_at_end_def al using False
  proof (simp, elim run_ok_bindI, clarsimp simp: Let_def, intro conjI impI)
    fix rc b1 and t1 :: amqp_type_t
    assume rd: "reads b b1" and adv: "limit_index b < limit_index b1"
      and known: "rc \<longrightarrow> known_constructor (constructor t1)"
    let ?c = "update_type c1 a (\<lambda>_. t1)"
    have ext: "heap_ext {} {} c ?c"
      by (rule heap_ext_trans [OF alf(3) heap_ext_update [of a "{}"]]) (use alf in auto)
    show "decode_post c b (Some a, ?c, b1)" using rd ext alf by (simp add: decode_post_def)
    assume rc
    have "run_ok {NotImplemented} (into_post ?c b1 a) (into ?c b1 a)"
      using into known \<open>rc\<close> readable_reads [OF b rd] alf adv readsD [OF rd] n lt
      by (intro into_safeD) auto
    then show "run_ok {NotImplemented} (decode_post c b)
        (run_bind (into ?c b1 a) (\<lambda>(rc, context, buffer). Ret (Some a, context, buffer)))"
    proof (rule run_ok_bindI, clarsimp)
      fix rc' c2 b2 assume "into_post ?c b1 a (rc', c2, b2)"
      then have rd2: "reads b1 b2" and ext2: "heap_ext {a} {} ?c c2" by (auto simp: into_post_def)
      have "heap_ext {} {} c c2" using heap_ext_trans [OF ext ext2] alf by auto
      then show "decode_post c b (Some a, c2, b2)"
        using reads_trans [OF rd rd2] alf heap_extD(1) [OF ext2] by (simp add: decode_post_def)
    qed
  qed
qed

lemma store_element_ok:
  assumes "arrays c p = Some es" and "i < length es"
  shows "store_element c (Some p) i e = Ret (c\<lparr>arrays := (arrays c)(p \<mapsto> es[i := Some e])\<rparr>)"
  using assms by (simp add: store_element_def)

lemma heap_ext_store: "p \<in> P \<Longrightarrow> heap_ext A P c (c\<lparr>arrays := (arrays c)(p \<mapsto> es)\<rparr>)"
  by (auto simp: heap_ext_def)

text \<open>Linking a new object into an array that the caller owns.\<close>

lemma link_element:
  assumes ext: "heap_ext {} {} c c1" and e: "next_type c0 \<le> e" and c: "heap_ext {} {p} c0 c"
  shows "heap_ext {} {p} c0 (update_type (c1\<lparr>arrays := (arrays c1)(p \<mapsto> es)\<rparr>) e f)"
proof -
  have "heap_ext {} {p} c0 c1" using heap_ext_trans [OF c ext] by simp
  from heap_ext_trans [OF this heap_ext_store [of p "{p}" "{}" c1 es]]
  have "heap_ext {} {p} c0 (c1\<lparr>arrays := (arrays c1)(p \<mapsto> es)\<rparr>)" by simp
  from heap_ext_trans [OF this heap_ext_update [of e "{}" _ f]] show ?thesis using e by auto
qed

lemma decode_elements_safe:
  assumes dec: "\<And>c b. readable b \<Longrightarrow> limit_size b - limit_index b \<le> r \<Longrightarrow> heap_ext {} {p} c0 c \<Longrightarrow>
      run_ok E (decode_post c b) (dec c b)"
    and owner: "a < next_type c0" "value_elements (value_of (types c0 a)) = Some p" "p < next_array c0"
  shows "heap_ext {} {p} c0 c \<Longrightarrow> readable b \<Longrightarrow> limit_size b - limit_index b \<le> r \<Longrightarrow>
    arrays c p = Some es \<Longrightarrow> i + n \<le> length es \<Longrightarrow>
    run_ok E (\<lambda>(c', b'). reads b b' \<and> heap_ext {} {p} c0 c') (decode_elements dec i n c b a)"
proof (induction n arbitrary: i c b es)
  case 0
  then show ?case by (simp add: reads_refl readable_def)
next
  case (Suc n)
  have "run_ok E (decode_post c b) (dec c b)" using dec Suc.prems by blast
  then show ?case
  proof (simp, elim run_ok_bindI, clarify)
    fix q c1 b1 assume "decode_post c b (q, c1, b1)"
    then have rd: "reads b b1" and ext: "heap_ext {} {} c c1"
      and q: "case q of None \<Rightarrow> True | Some e \<Rightarrow> next_type c \<le> e \<and> e < next_type c1"
      by (auto simp: decode_post_def)
    have b1: "readable b1" "limit_size b1 - limit_index b1 \<le> r"
      using readable_reads [OF Suc.prems(2) rd] readsD [OF rd] Suc.prems(3) by auto
    have pc: "p < next_array c" "next_type c0 \<le> next_type c" "next_type c0 \<le> next_type c1"
      using heap_extD [OF Suc.prems(1)] heap_extD(1) [OF ext] owner(3) by auto
    have arr: "arrays c1 p = Some es" using heap_extD(4) [OF ext] pc Suc.prems(4) by simp
    have ext0: "heap_ext {} {p} c0 c1" using heap_ext_trans [OF Suc.prems(1) ext] by simp
    show "run_ok E (\<lambda>(c', b'). reads b b' \<and> heap_ext {} {p} c0 c')
      (case q of None \<Rightarrow> decode_elements dec (Suc i) n c1 b1 a
       | Some e \<Rightarrow> run_bind (store_element c1 (value_elements (value_of (types c1 a))) i e)
           (\<lambda>context. decode_elements dec (Suc i) n
              (update_type context e (amqp_typedef_flags_set amqp_is_contained)) b1 a))"
    proof (cases q)
      case None
      have "run_ok E (\<lambda>(c', b'). reads b1 b' \<and> heap_ext {} {p} c0 c') (decode_elements dec (Suc i) n c1 b1 a)"
        using Suc.IH [OF ext0 b1 arr, of "Suc i"] Suc.prems(5) by simp
      then show ?thesis using None reads_trans [OF rd] by (auto elim!: run_ok_mono)
    next
      case (Some e)
      let ?c = "update_type (c1\<lparr>arrays := (arrays c1)(p \<mapsto> es[i := Some e])\<rparr>) e (amqp_typedef_flags_set amqp_is_contained)"
      have "next_type c0 \<le> e" using Some q pc by simp
      then have ext1: "heap_ext {} {p} c0 ?c" using link_element [OF ext _ Suc.prems(1)] by blast
      have "value_elements (value_of (types c1 a)) = Some p"
        using heap_extD(3) [OF ext0, of a] owner(1,2) by simp
      then have st: "store_element c1 (value_elements (value_of (types c1 a))) i e =
          Ret (c1\<lparr>arrays := (arrays c1)(p \<mapsto> es[i := Some e])\<rparr>)"
        using store_element_ok [OF arr] Suc.prems(5) by simp
      have "run_ok E (\<lambda>(c', b'). reads b1 b' \<and> heap_ext {} {p} c0 c') (decode_elements dec (Suc i) n ?c b1 a)"
        using Suc.IH [OF ext1 b1, of "es[i := Some e]" "Suc i"] Suc.prems(5) by simp
      then show ?thesis using Some st reads_trans [OF rd] by (auto elim!: run_ok_mono)
    qed
  qed
qed

text \<open>The common shape of the container decoders: the owner gets a fresh array and fills it.\<close>

lemma fill_container_safe:
  assumes c: "heap_ext {a} {} c c1" and a: "a < next_type c" and rd: "reads b b1" and b: "readable b"
    and al: "amqp_allocate_amqp_type_t_array c1 n = (p, c2)"
    and c3: "c3 = update_type c2 a (map_value (value_elements_update (\<lambda>_. Some p)))"
    and dec: "\<And>c b. readable b \<Longrightarrow> limit_size b - limit_index b \<le> limit_size b1 - limit_index b1 \<Longrightarrow>
       heap_ext {} {p} c3 c \<Longrightarrow> run_ok E (decode_post c b) (dec c b)"
  shows "run_ok E (into_post c b a) (run_bind (decode_elements dec 0 n c3 b1 a)
           (\<lambda>(context, buffer). Ret (True, context, buffer)))"
proof -
  note alf = allocate_array_facts [OF al]
  obtain es where es: "arrays c2 p = Some es" "n < length es" using alf(4) by blast
  have "heap_ext {a} {} c c2" using heap_ext_trans [OF c alf(3) [of "{}" "{}"]] by simp
  then have ext3: "heap_ext {a} {} c c3"
    unfolding c3 by (rule heap_ext_trans [OF _ heap_ext_update [of a "{}"]]) auto
  have a3: "a < next_type c3" using heap_extD(1) [OF ext3] a by simp
  have "value_elements (value_of (types c3 a)) = Some p" "p < next_array c3" "arrays c3 p = Some es"
    using es alf by (simp_all add: c3 map_value_def)
  then have "run_ok E (\<lambda>(c', b'). reads b1 b' \<and> heap_ext {} {p} c3 c') (decode_elements dec 0 n c3 b1 a)"
    using es(2) by (intro decode_elements_safe [OF dec a3]) (auto intro: heap_ext_refl readable_reads [OF b rd])
  then show ?thesis
  proof (rule run_ok_bindI, clarsimp)
    fix c' b' assume "reads b1 b'" and e: "heap_ext {} {p} c3 c'"
    moreover have "heap_ext {a} {} c c'"
      using heap_ext_trans [OF ext3 e] alf(1) heap_extD(2) [OF c] by simp
    ultimately show "into_post c b a (True, c', b')"
      using reads_trans [OF rd] by (simp add: into_post_def)
  qed
qed

lemma heap_ext_update_on: "heap_ext {a} P c c1 \<Longrightarrow> heap_ext {a} P c (update_type c1 a f)"
  by (rule heap_ext_trans [OF _ heap_ext_update [of a P]]) auto

text \<open>Size and count fields: either the container has failed, or its count is known.\<close>

lemma container_header_safe:
  assumes b: "readable b" and w: "width m \<in> {1, 4}"
    and fill: "\<And>c1 b1 count. heap_ext {a} {} c c1 \<Longrightarrow> reads b b1 \<Longrightarrow> limit_index b < limit_index b1 \<Longrightarrow>
      run_ok {NotImplemented} (into_post c b a) (body c1 b1 count)"
  shows "run_ok {NotImplemented} (into_post c b a)
    (run_bind (on_heap amqp_construct_container_type m c b a) (\<lambda>(rc, context, buffer).
     if rc then
       run_bind (get_variable_type_count buffer m (types context a)) (\<lambda>(count, buffer, t).
       let context = update_type context a (\<lambda>_. t)
       in if count = - 1 then Ret (False, context, buffer) else body context buffer count)
     else Ret (False, context, buffer)))"
proof -
  have "run_ok {NotImplemented} (\<lambda>(rc, c', b'). into_post c b a (rc, c', b') \<and> (rc \<longrightarrow> limit_index b < limit_index b'))
      (on_heap amqp_construct_container_type m c b a)"
    unfolding on_heap_def
    by (rule run_ok_bindI [OF run_ok_faults [OF container_type_safe [OF b w]]])
      (auto simp: leaf_post_def into_post_def heap_ext_update)
  then show ?thesis
  proof (rule run_ok_bindI, clarsimp)
    fix rc c1 b1
    assume p: "into_post c b a (rc, c1, b1)" and adv: "rc \<longrightarrow> limit_index b < limit_index b1"
    then have ext: "heap_ext {a} {} c c1" and rd: "reads b b1" by (auto simp: into_post_def)
    have b1: "readable b1" using readable_reads [OF b rd] .
    show "(rc \<longrightarrow> run_ok {NotImplemented} (into_post c b a)
       (run_bind (get_variable_type_count b1 m (types c1 a)) (\<lambda>(count, buffer, t).
         let context = update_type c1 a (\<lambda>_. t)
         in if count = - 1 then Ret (False, context, buffer) else body context buffer count))) \<and>
       (\<not> rc \<longrightarrow> into_post c b a (False, c1, b1))"
    proof (intro conjI impI)
      show "into_post c b a (False, c1, b1)" if "\<not> rc" using p that by simp
      assume rc
      show "run_ok {NotImplemented} (into_post c b a)
        (run_bind (get_variable_type_count b1 m (types c1 a)) (\<lambda>(count, buffer, t).
         let context = update_type c1 a (\<lambda>_. t)
         in if count = - 1 then Ret (False, context, buffer) else body context buffer count))"
      proof (rule run_ok_bindI [OF run_ok_faults [OF type_count_safe [OF b1 w]]], simp, clarify)
        fix count :: uint32 and b2 and t2 :: amqp_type_t
        assume rd2: "reads b1 b2" and f: "failure_marked (count \<noteq> - 1) t2"
        let ?c = "update_type c1 a (\<lambda>_. t2)"
        have rd': "reads b b2" using reads_trans [OF rd rd2] .
        have ext': "heap_ext {a} {} c ?c" using heap_ext_update_on [OF ext] .
        have "run_ok {NotImplemented} (into_post c b a) (body ?c b2 count)"
          using fill [OF ext' rd'] adv \<open>rc\<close> readsD(2) [OF rd2] by simp
        then show "run_ok {NotImplemented} (into_post c b a)
          (let context = ?c in if count = - 1 then Ret (False, context, b2) else body context b2 count)"
          using rd' ext' f by (cases "count = - 1") (simp_all add: into_post_def Let_def)
      qed
    qed
  qed
qed

lemma list_safe:
  assumes into: "into_safe n into" and b: "readable b" and w: "width m \<in> {1, 4}" and a: "a < next_type c"
    and n: "limit_size b - limit_index b \<le> n"
  shows "run_ok {NotImplemented} (into_post c b a) (amqp_decode_list_list into m c b a)"
  unfolding amqp_decode_list_list_def
proof (rule container_header_safe [OF b w])
  fix c1 b1 and count :: uint32
  assume ext: "heap_ext {a} {} c c1" and rd: "reads b b1" and "limit_index b < limit_index b1"
  let ?c = "update_type c1 a (map_value (value_count_update (\<lambda>_. unat count)))"
  obtain p c2 where al: "amqp_allocate_amqp_type_t_array ?c (unat count) = (p, c2)" by fastforce
  show "run_ok {NotImplemented} (into_post c b a)
    (let context = ?c; (p, context) = amqp_allocate_amqp_type_t_array context (unat count);
         context = update_type context a (map_value (value_elements_update (\<lambda>_. Some p)))
     in run_bind (decode_elements (decode_with into) 0 (unat count) context b1 a)
          (\<lambda>(context, buffer). Ret (True, context, buffer)))"
    unfolding Let_def al prod.case using n readsD [OF rd]
    by (intro fill_container_safe [OF heap_ext_update_on [OF ext] a rd b al refl] decode_with_safe [OF into]) auto
qed

lemma map_is_list: "amqp_decode_map_map = amqp_decode_list_list"
  by (intro ext) (simp add: amqp_decode_map_map_def amqp_decode_list_list_def)

lemma array_element_safe:
  assumes into: "into_safe n into" and b: "readable b" and n: "limit_size b - limit_index b < n"
    and k: "known_constructor (constructor (types c k))"
  shows "run_ok {NotImplemented} (decode_post c b) (amqp_decode_array_element into k c b)"
proof -
  obtain e c1 where al: "amqp_allocate_type c = (e, c1)" by fastforce
  note alf = allocate_type_facts [OF al]
  define c2 where "c2 = snd (create_array_element c (constructor (types c k)))"
  have cr: "create_array_element c (constructor (types c k)) = (e, c2)"
    by (simp add: c2_def create_array_element_def al)
  obtain f where f: "c2 = update_type c1 e f" by (simp add: c2_def create_array_element_def al)
  have ext: "heap_ext {} {} c c2"
    unfolding f by (rule heap_ext_trans [OF alf(3) heap_ext_update [of e "{}"]]) (use alf in auto)
  have "known_constructor (constructor (types c2 e))"
    using k by (simp add: c2_def create_array_element_def al known_constructor_def)
  then have "run_ok {NotImplemented} (into_post c2 b e) (into c2 b e)"
    using into b n alf by (intro into_safeD) (auto simp: f)
  then show ?thesis
    unfolding amqp_decode_array_element_def cr Let_def prod.case
  proof (rule run_ok_bindI, clarsimp)
    fix rc c3 b3 assume "into_post c2 b e (rc, c3, b3)"
    then have rd: "reads b b3" and ext3: "heap_ext {e} {} c2 c3" by (auto simp: into_post_def)
    have "heap_ext {} {} c c3" using heap_ext_trans [OF ext ext3] alf by auto
    then show "decode_post c b (Some e, c3, b3)"
      using rd alf heap_extD(1) [OF ext3] by (simp add: decode_post_def f)
  qed
qed

lemma array_safe:
  assumes into: "into_safe n into" and b: "readable b" and w: "width m \<in> {1, 4}" and a: "a < next_type c"
    and n: "limit_size b - limit_index b \<le> n"
  shows "run_ok {NotImplemented} (into_post c b a) (amqp_decode_array into m c b a)"
  unfolding amqp_decode_array_def
proof (rule container_header_safe [OF b w])
  fix c1 b1 and count :: uint32
  assume ext: "heap_ext {a} {} c c1" and rd: "reads b b1" and adv: "limit_index b < limit_index b1"
  let ?c = "update_type c1 a (map_value (value_count_update (\<lambda>_. unat count)))"
  obtain k c2 where al: "amqp_allocate_type ?c = (k, c2)" by fastforce
  note alf = allocate_type_facts [OF al]
  let ?c3 = "update_type c2 a (map_value (value_array_constructor_update (\<lambda>_. Some k)))"
  have "heap_ext {a} {} c c2" by (rule heap_ext_trans [OF heap_ext_update_on [OF ext] alf(3)]) auto
  then have ext3: "heap_ext {a} {} c ?c3" by (rule heap_ext_update_on)
  have ck: "next_type c \<le> k" "a \<noteq> k" "k < next_type c2" using alf heap_extD(1) [OF ext] a by auto
  show "run_ok {NotImplemented} (into_post c b a)
    (let context = ?c; (k, context) = amqp_allocate_type context;
         context = update_type context a (map_value (value_array_constructor_update (\<lambda>_. Some k)))
     in run_bind (decode_type_constructor b1 (constructor (types context k))) (\<lambda>(rc, buffer, c).
        let context = update_type context k (\<lambda>t. t\<lparr>constructor := c\<rparr>)
        in if \<not> rc then fail_at AMQP_ERROR_UNKNOWN_ARRAY_ELEMENT_FORMAT_CODE context buffer a
           else if 0 < count then
             let (p, context) = amqp_allocate_amqp_type_t_array context (unat count);
                 context = update_type context a (map_value (value_elements_update (\<lambda>_. Some p)))
             in run_bind (decode_elements (amqp_decode_array_element into k) 0 (unat count) context buffer a)
                  (\<lambda>(context, buffer). Ret (True, context, buffer))
           else Ret (True, context, buffer)))"
    unfolding Let_def al prod.case
  proof (rule run_ok_bindI [OF run_ok_faults [OF type_constructor_safe [OF readable_reads [OF b rd]]]], simp, clarify)
    fix rc b2 and t2 :: amqp_type_constructor_t
    assume rd2: "reads b1 b2" and known: "rc \<longrightarrow> known_constructor t2"
    let ?c4 = "update_type ?c3 k (\<lambda>t. t\<lparr>constructor := t2\<rparr>)"
    have rd': "reads b b2" using reads_trans [OF rd rd2] .
    have ext4: "heap_ext {a} {} c ?c4"
      by (rule heap_ext_trans [OF ext3 heap_ext_update [of k "{}"]]) (use ck in auto)
    obtain p c5 where al5: "amqp_allocate_amqp_type_t_array ?c4 (unat count) = (p, c5)" by fastforce
    note al5f = allocate_array_facts [OF al5]
    let ?c6 = "update_type c5 a (map_value (value_elements_update (\<lambda>_. Some p)))"
    have fill: "run_ok {NotImplemented} (into_post c b a)
        (run_bind (decode_elements (amqp_decode_array_element into k) 0 (unat count) ?c6 b2 a)
          (\<lambda>(context, buffer). Ret (True, context, buffer)))" if rc
    proof (rule fill_container_safe [OF ext4 a rd' b al5 refl], rule array_element_safe [OF into])
      fix c7 b7
      assume "readable b7" and le: "limit_size b7 - limit_index b7 \<le> limit_size b2 - limit_index b2"
        and e: "heap_ext {} {p} ?c6 c7"
      show "readable b7" by fact
      show "limit_size b7 - limit_index b7 < n"
        using le n adv readsD [OF rd] readsD [OF rd2] readsD(3) [OF rd'] by linarith
      have "types c7 k = types ?c6 k" using heap_extD(3) [OF e, of k] ck al5f by simp
      then show "known_constructor (constructor (types c7 k))"
        using known that ck al5f by (simp add: types_update_other)
    qed
    show "run_ok {NotImplemented} (into_post c b a)
      (if \<not> rc then fail_at AMQP_ERROR_UNKNOWN_ARRAY_ELEMENT_FORMAT_CODE ?c4 b2 a
       else if 0 < count then
         case amqp_allocate_amqp_type_t_array ?c4 (unat count) of (p, context) \<Rightarrow>
           run_bind (decode_elements (amqp_decode_array_element into k) 0 (unat count)
               (update_type context a (map_value (value_elements_update (\<lambda>_. Some p)))) b2 a)
             (\<lambda>(context, buffer). Ret (True, context, buffer))
       else Ret (True, ?c4, b2))"
      using fail_at_safe [OF ext4 rd', of AMQP_ERROR_UNKNOWN_ARRAY_ELEMENT_FORMAT_CODE "{NotImplemented}"]
        fill ext4 rd' unfolding al5 prod.case by (simp add: into_post_def)
  qed
qed

lemma decode_part_safe:
  assumes into: "into_safe n into" and b: "readable b" and n: "limit_size b - limit_index b \<le> n"
    and owner: "a < next_type c0" "value_elements (value_of (types c0 a)) = Some p" "p < next_array c0"
    and c: "heap_ext {} {p} c0 c" and es: "arrays c p = Some es" "i < length es"
  shows "run_ok {NotImplemented} (\<lambda>(q, c', b'). reads b b' \<and> heap_ext {} {p} c0 c' \<and>
      (\<exists>es'. arrays c' p = Some es' \<and> length es' = length es)) (decode_part into i flags c b a)"
  unfolding decode_part_def
proof (rule run_ok_bindI [OF decode_with_safe [OF into b n]], clarify)
  fix q c1 b1 assume "decode_post c b (q, c1, b1)"
  then have rd: "reads b b1" and ext: "heap_ext {} {} c c1"
    and q: "case q of None \<Rightarrow> True | Some e \<Rightarrow> next_type c \<le> e \<and> e < next_type c1"
    by (auto simp: decode_post_def)
  have pc: "p < next_array c" "next_type c0 \<le> next_type c" using heap_extD [OF c] owner(3) by auto
  have arr: "arrays c1 p = Some es" using heap_extD(4) [OF ext] pc es(1) by simp
  have ext0: "heap_ext {} {p} c0 c1" using heap_ext_trans [OF c ext] by simp
  have own: "value_elements (value_of (types c1 a)) = Some p"
    using heap_extD(3) [OF ext0, of a] owner(1,2) by simp
  show "run_ok {NotImplemented} (\<lambda>(q, c', b'). reads b b' \<and> heap_ext {} {p} c0 c' \<and>
      (\<exists>es'. arrays c' p = Some es' \<and> length es' = length es))
    (case q of None \<Rightarrow> Ret (None, c1, b1)
     | Some e \<Rightarrow> run_bind (store_element c1 (value_elements (value_of (types c1 a))) i e) (\<lambda>context.
        Ret (Some e, update_type context e (amqp_typedef_flags_set flags), b1)))"
  proof (cases q)
    case None
    then show ?thesis using rd ext0 arr by simp
  next
    case (Some e)
    have "next_type c0 \<le> e" using Some q pc by simp
    then have "heap_ext {} {p} c0 (update_type (c1\<lparr>arrays := (arrays c1)(p \<mapsto> es[i := Some e])\<rparr>) e (amqp_typedef_flags_set flags))"
      using link_element [OF ext _ c] by blast
    then show ?thesis using Some rd own store_element_ok [OF arr es(2)] by simp
  qed
qed

lemma described_safe:
  assumes into: "into_safe n into" and b: "readable b" and a: "a < next_type c"
    and n: "limit_size b - limit_index b \<le> n"
  shows "run_ok {NotImplemented} (into_post c b a) (amqp_decode_described_type into c b a)"
proof -
  let ?c = "update_type c a (\<lambda>t. map_value (value_count_update (\<lambda>_. 2)) (set_position (amqp_buffer_index b) 0 t))"
  obtain p c2 where al: "amqp_allocate_amqp_type_t_array ?c 2 = (p, c2)" by fastforce
  note alf = allocate_array_facts [OF al]
  obtain es where es: "arrays c2 p = Some es" "2 < length es" using alf(4) by blast
  define c3 where "c3 = update_type c2 a (map_value (value_elements_update (\<lambda>_. Some p)))"
  have "heap_ext {a} {} c c2" using heap_ext_trans [OF heap_ext_update alf(3) [of "{}" "{}"]] by simp
  then have ext3: "heap_ext {a} {} c c3" unfolding c3_def by (rule heap_ext_update_on)
  have own: "a < next_type c3" "value_elements (value_of (types c3 a)) = Some p" "p < next_array c3" "arrays c3 p = Some es"
    using a alf es by (simp_all add: c3_def map_value_def)
  have whole: "heap_ext {a} {} c c'" if "heap_ext {} {p} c3 c'" for c'
    using heap_ext_trans [OF ext3 that] alf(1) by simp
  show ?thesis
    unfolding amqp_decode_described_type_def Let_def al prod.case c3_def [symmetric]
  proof (rule run_ok_bindI [OF decode_part_safe [OF into b n own(1-3) heap_ext_refl own(4)]])
    show "0 < length es" using es by linarith
  next
    fix x :: "nat option \<times> amqp_context_t \<times> amqp_buffer_t"
    assume "case x of (q, c', b') \<Rightarrow> reads b b' \<and> heap_ext {} {p} c3 c' \<and>
      (\<exists>es'. arrays c' p = Some es' \<and> length es' = length es)"
    then obtain q c4 b4 es4 where x: "x = (q, c4, b4)" and rd4: "reads b b4" and ext4: "heap_ext {} {p} c3 c4"
      and es4: "arrays c4 p = Some es4" "length es4 = length es" by auto
    have b4: "readable b4" "limit_size b4 - limit_index b4 \<le> n"
      using readable_reads [OF b rd4] readsD [OF rd4] n by auto
    note fail4 = fail_at_safe [OF whole [OF ext4] rd4]
    show "run_ok {NotImplemented} (into_post c b a)
      (case x of (descriptor, context, buffer) \<Rightarrow>
       case descriptor of None \<Rightarrow> fail_at AMQP_ERROR_NO_DESCRIPTOR context buffer a
       | Some descriptor \<Rightarrow>
           run_bind (decode_part into 1 (amqp_is_contained OR amqp_is_described) context buffer a)
             (\<lambda>(described, context, buffer).
           case described of None \<Rightarrow> fail_at AMQP_ERROR_NO_DESCRIBED_TYPE context buffer a
           | Some described \<Rightarrow>
               if \<not> amqp_type_is_valid (types context descriptor) then fail_at AMQP_ERROR_DESCRIPTOR_INVALID context buffer a
               else if \<not> amqp_type_is_valid (types context described) then fail_at AMQP_ERROR_DESCRIBED_INVALID context buffer a
               else Ret (True, context, buffer)))"
    proof (cases q)
      case None
      then show ?thesis using fail4 x by simp
    next
      case (Some d)
      show ?thesis unfolding x prod.case Some option.case
      proof (rule run_ok_bindI [OF decode_part_safe [OF into b4 own(1-3) ext4 es4(1)]], use es es4 in simp, clarify)
        fix q5 c5 b5
        assume "reads b4 b5" and ext5: "heap_ext {} {p} c3 c5"
        then have rd5: "reads b b5" using reads_trans [OF rd4] by simp
        note fail5 = fail_at_safe [OF whole [OF ext5] rd5]
        show "run_ok {NotImplemented} (into_post c b a)
          (case q5 of None \<Rightarrow> fail_at AMQP_ERROR_NO_DESCRIBED_TYPE c5 b5 a
           | Some described \<Rightarrow>
               if \<not> amqp_type_is_valid (types c5 d) then fail_at AMQP_ERROR_DESCRIPTOR_INVALID c5 b5 a
               else if \<not> amqp_type_is_valid (types c5 described) then fail_at AMQP_ERROR_DESCRIBED_INVALID c5 b5 a
               else Ret (True, c5, b5))"
          using fail5 whole [OF ext5] rd5 by (auto simp: into_post_def split: option.split)
      qed
    qed
  qed
qed

section \<open>Dispatch and the whole decoder\<close>

text \<open>The widths in the table fit the decoders they are used with.\<close>

definition width_fits :: "amqp_encoding_meta_data_t \<Rightarrow> bool" where
  "width_fits m \<longleftrightarrow>
    (if type_decoder m \<in> {Decode_described_type, Decode_null, Decode_boolean_true, Decode_boolean_false,
         Decode_uint0, Decode_ulong0, Decode_list_0, Decode_extension_type}
     then True
     else if type_decoder m \<in> {Decode_binary_vbin8, Decode_string_str8_utf8, Decode_symbol_sym8,
         Decode_binary_vbin32, Decode_string_str32_utf8, Decode_symbol_sym32, Decode_list_8, Decode_map_8,
         Decode_list_32, Decode_map_32, Decode_array_8, Decode_array_32}
     then width m \<in> {1, 4}
     else width m \<in> {1, 2, 4, 8, 16})"

lemma table_width_fits: "m \<in> set amqp_type_lookup_table \<Longrightarrow> width_fits m"
proof -
  have "list_all width_fits amqp_type_lookup_table"
    by (simp add: amqp_type_lookup_table_def meta_data_defs width_fits_def)
  then show "m \<in> set amqp_type_lookup_table \<Longrightarrow> width_fits m" by (simp add: list_all_iff)
qed

lemmas leaf_defs =
  amqp_decode_null_def amqp_decode_boolean_true_def amqp_decode_boolean_false_def amqp_decode_uint0_def
  amqp_decode_ulong0_def amqp_decode_list_0_def amqp_decode_extension_type_def amqp_decode_ubyte_def
  amqp_decode_byte_def amqp_decode_small_uint_def amqp_decode_small_ulong_def amqp_decode_small_int_def
  amqp_decode_small_long_def amqp_decode_boolean_def amqp_decode_ushort_def amqp_decode_short_def
  amqp_decode_uint_def amqp_decode_int_def amqp_decode_float_def amqp_decode_decimal32_def
  amqp_decode_ulong_def amqp_decode_long_def amqp_decode_double_def amqp_decode_timestamp_def
  amqp_decode_decimal64_def amqp_decode_decimal128_def amqp_decode_uuid_def amqp_decode_binary_vbin8_def
  amqp_decode_binary_vbin32_def amqp_construct_binary_variable_type_def amqp_decode_symbol_sym8_def
  amqp_decode_symbol_sym32_def amqp_decode_string_str8_utf8_def amqp_decode_string_str32_utf8_def

lemmas container_defs =
  amqp_decode_list_8_def amqp_decode_list_32_def amqp_decode_map_8_def amqp_decode_map_32_def
  amqp_decode_array_8_def amqp_decode_array_32_def map_is_list

lemma zero_leaf_safe:
  assumes "readable b"
  shows "run_ok F (leaf_post b) (amqp_decode_null b m t)"
    and "run_ok F (leaf_post b) (amqp_decode_boolean_true b m t)"
    and "run_ok F (leaf_post b) (amqp_decode_boolean_false b m t)"
    and "run_ok F (leaf_post b) (amqp_decode_uint0 b m t)"
    and "run_ok F (leaf_post b) (amqp_decode_ulong0 b m t)"
    and "run_ok F (leaf_post b) (amqp_decode_list_0 b m t)"
  using run_ok_faults [OF zero_width_safe [OF assms] empty_subsetI, of F m t]
  by (auto simp: leaf_defs leaf_post_def run_ok_bind reads_refl readable_def amqp_decode_fixed_zero_width_def
      then_value_def)

lemma fixed_leaf_safe:
  assumes "readable b" and "width m \<in> {1, 2, 4, 8, 16}"
  shows "run_ok F (leaf_post b) (amqp_decode_boolean b m t)"
    and "run_ok F (leaf_post b) (amqp_decode_ubyte b m t)"
    and "run_ok F (leaf_post b) (amqp_decode_byte b m t)"
    and "run_ok F (leaf_post b) (amqp_decode_ushort b m t)"
    and "run_ok F (leaf_post b) (amqp_decode_short b m t)"
    and "run_ok F (leaf_post b) (amqp_decode_uint b m t)"
    and "run_ok F (leaf_post b) (amqp_decode_int b m t)"
    and "run_ok F (leaf_post b) (amqp_decode_float b m t)"
    and "run_ok F (leaf_post b) (amqp_decode_decimal32 b m t)"
    and "run_ok F (leaf_post b) (amqp_decode_ulong b m t)"
    and "run_ok F (leaf_post b) (amqp_decode_long b m t)"
    and "run_ok F (leaf_post b) (amqp_decode_double b m t)"
    and "run_ok F (leaf_post b) (amqp_decode_timestamp b m t)"
    and "run_ok F (leaf_post b) (amqp_decode_decimal64 b m t)"
    and "run_ok F (leaf_post b) (amqp_decode_uuid b m t)"
    and "run_ok F (leaf_post b) (amqp_decode_small_uint b m t)"
    and "run_ok F (leaf_post b) (amqp_decode_small_int b m t)"
    and "run_ok F (leaf_post b) (amqp_decode_small_ulong b m t)"
    and "run_ok F (leaf_post b) (amqp_decode_small_long b m t)"
    and "run_ok F (leaf_post b) (amqp_decode_char b m t)"
  using run_ok_faults [OF fixed_width_safe [OF assms] empty_subsetI, of F t]
    run_ok_faults [OF then_value_safe [OF fixed_width_safe [OF assms]] empty_subsetI, of F _ t]
    run_ok_faults [OF char_safe [OF assms] empty_subsetI, of F t]
  by (simp_all only: leaf_defs)

lemma sized_leaf_safe:
  assumes "readable b" and "width m \<in> {1, 4}"
  shows "run_ok F (leaf_post b) (amqp_decode_binary_vbin8 b m t)"
    and "run_ok F (leaf_post b) (amqp_decode_binary_vbin32 b m t)"
    and "run_ok F (leaf_post b) (amqp_decode_symbol_sym8 b m t)"
    and "run_ok F (leaf_post b) (amqp_decode_symbol_sym32 b m t)"
    and "run_ok F (leaf_post b) (amqp_decode_string_str8_utf8 b m t)"
    and "run_ok F (leaf_post b) (amqp_decode_string_str32_utf8 b m t)"
  using run_ok_faults [OF binary_safe [OF assms] empty_subsetI, of F t]
    run_ok_faults [OF symbol_safe [OF assms] empty_subsetI, of F t]
    run_ok_faults [OF string_safe [OF assms] empty_subsetI, of F t]
  by (simp_all only: leaf_defs)

lemma unimplemented_safe:
  "run_ok {NotImplemented} Q (amqp_decode_extension_type b m t)"
  "run_ok {NotImplemented} Q (amqp_decode_decimal128 b m t)"
  by (simp_all add: leaf_defs)

lemma call_type_decoder_safe:
  assumes into: "into_safe n into" and b: "readable b" and a: "a < next_type c"
    and n: "limit_size b - limit_index b \<le> n" and m: "width_fits m"
  shows "run_ok {NotImplemented} (into_post c b a) (call_type_decoder into m c b a)"
proof -
  note cont = list_safe [OF into b _ a n] array_safe [OF into b _ a n] described_safe [OF into b a n]
  show ?thesis
    using m unfolding call_type_decoder_def width_fits_def
    by (cases "type_decoder m")
      (simp_all add: container_defs cont on_heap_safe zero_leaf_safe [OF b] fixed_leaf_safe [OF b]
        sized_leaf_safe [OF b] unimplemented_safe)
qed

lemma into_result_safe: "into_safe n (decode_type_into_result n)"
proof (induction n)
  case 0
  then show ?case by (simp add: into_safe_def)
next
  case (Suc n)
  show ?case unfolding into_safe_def
  proof (intro allI impI)
    fix c :: amqp_context_t and b a
    assume b: "readable b" and n: "limit_size b - limit_index b < Suc n" and a: "a < next_type c"
      and "known_constructor (constructor (types c a))"
    then obtain m where m: "m \<in> set amqp_type_lookup_table" "meta_data (constructor (types c a)) = Some m"
      by (auto simp: known_constructor_def)
    have "run_ok {NotImplemented} (into_post c b a) (call_type_decoder (decode_type_into_result n) m c b a)"
      using call_type_decoder_safe [OF Suc.IH b a _ table_width_fits [OF m(1)]] n by simp
    then show "run_ok {NotImplemented} (into_post c b a) (decode_type_into_result (Suc n) c b a)"
      unfolding decode_type_into_result.simps m(2) option.case
      by (rule run_ok_bindI) (auto simp: run_ok_assert into_post_def failure_marked_def)
  qed
qed

theorem decode_safe:
  assumes "readable b"
  shows "run_ok {NotImplemented} (decode_post c b) (amqp_decode c b)"
  unfolding amqp_decode_def by (rule decode_with_safe [OF into_result_safe assms]) simp

end
