(* ===== verification/Decode_Correct.thy ===== *)
theory Decode_Correct
  imports Decode_Safety Values
begin

text \<open>
  The decoder against the reference encoding of \<open>Values\<close>: from the encoding of a value it builds
  an object that represents the value, and it consumes exactly the encoding.
\<close>

section \<open>Objects that represent a value\<close>

text \<open>
  The elements of an object are at addresses from \<open>la\<close> on, and past the address of the object
  they belong to, so that a representation is a tree; all its arrays are at addresses from \<open>lp\<close> on; \<open>mem\<close> is the memory of the buffer, which variable width values refer to.
\<close>

definition variable_bytes :: "(nat \<Rightarrow> byte) \<Rightarrow> amqp_type_t \<Rightarrow> byte list" where
  "variable_bytes mem t =
     map mem [position_index (position t)..<position_index (position t) + position_size (position t)]"

definition elements_of :: "nat \<Rightarrow> amqp_context_t \<Rightarrow> amqp_type_t \<Rightarrow> nat option list" where
  "elements_of lp c t =
    (case value_elements (value_of t) of
       None \<Rightarrow> []
     | Some p \<Rightarrow> if lp \<le> p \<and> p < next_array c
                 then (case arrays c p of None \<Rightarrow> [] | Some es \<Rightarrow> es) else [])"

fun holds :: "nat \<Rightarrow> nat \<Rightarrow> amqp_context_t \<Rightarrow> (nat \<Rightarrow> byte) \<Rightarrow> amqp_type_t \<Rightarrow> amqp_val \<Rightarrow> bool"
  and holds_all :: "nat \<Rightarrow> nat \<Rightarrow> amqp_context_t \<Rightarrow> (nat \<Rightarrow> byte) \<Rightarrow> nat option list \<Rightarrow> amqp_val list \<Rightarrow> bool" where
  "holds la lp c mem t VNull = amqp_type_is_null (Some t)"
| "holds la lp c mem t (VBoolean x) = (amqp_type_is_boolean t \<and> (amqp_type_to_boolean t \<noteq> 0) = x)"
| "holds la lp c mem t (VUbyte x) = (amqp_type_to_ubyte t = Ret x)"
| "holds la lp c mem t (VByte x) = (amqp_type_to_byte t = Ret x)"
| "holds la lp c mem t (VUshort x) = (amqp_type_to_ushort t = Ret x)"
| "holds la lp c mem t (VShort x) = (amqp_type_to_short t = Ret x)"
| "holds la lp c mem t (VUint x) = (amqp_type_to_uint t = Ret x)"
| "holds la lp c mem t (VInt x) = (amqp_type_to_int t = Ret x)"
| "holds la lp c mem t (VUlong x) = (amqp_type_to_ulong t = Ret x)"
| "holds la lp c mem t (VLong x) = (amqp_type_to_long t = Ret x)"
| "holds la lp c mem t (VTimestamp x) = (amqp_type_to_timestamp t = Ret x)"
| "holds la lp c mem t (VFloat x) = (amqp_type_to_float t = Ret x)"
| "holds la lp c mem t (VDouble x) = (amqp_type_to_double t = Ret x)"
| "holds la lp c mem t (VUuid bs) = (amqp_type_is_uuid t \<and> value_uuid (value_of t) = bs)"
| "holds la lp c mem t (VBinary bs) = (amqp_type_is_binary t \<and> variable_bytes mem t = bs)"
| "holds la lp c mem t (VString bs) = (amqp_type_is_string t \<and> variable_bytes mem t = bs)"
| "holds la lp c mem t (VSymbol bs) = (amqp_type_is_symbol t \<and> variable_bytes mem t = bs)"
| "holds la lp c mem t (VList wide vs) =
     (amqp_type_is_list t \<and> value_count (value_of t) = length vs \<and>
      (vs = [] \<or> holds_all la lp c mem (elements_of lp c t) vs))"
| "holds la lp c mem t (VMap wide vs) =
     (amqp_type_is_map t \<and> value_count (value_of t) = length vs \<and>
      (vs = [] \<or> holds_all la lp c mem (elements_of lp c t) vs))"
| "holds la lp c mem t (VDescribed d v) =
     (amqp_type_is_composite t \<and> value_count (value_of t) = 2 \<and>
      (case elements_of lp c t of
         Some x # Some y # es \<Rightarrow>
           la \<le> x \<and> x < next_type c \<and> amqp_type_is_valid (types c x) \<and> holds (Suc x) lp c mem (types c x) d \<and>
           la \<le> y \<and> y < next_type c \<and> amqp_type_is_valid (types c y) \<and> holds (Suc y) lp c mem (types c y) v
       | _ \<Rightarrow> False))"
| "holds_all la lp c mem es [] = True"
| "holds_all la lp c mem es (v # vs) =
     (case es of
        Some x # es \<Rightarrow>
          la \<le> x \<and> x < next_type c \<and> amqp_type_is_valid (types c x) \<and> holds (Suc x) lp c mem (types c x) v \<and>
          holds_all la lp c mem es vs
      | _ \<Rightarrow> False)"

definition represents :: "nat \<Rightarrow> nat \<Rightarrow> amqp_context_t \<Rightarrow> (nat \<Rightarrow> byte) \<Rightarrow> nat \<Rightarrow> amqp_val \<Rightarrow> bool" where
  "represents la lp c mem a v \<longleftrightarrow>
     la \<le> a \<and> a < next_type c \<and> amqp_type_is_valid (types c a) \<and> holds (Suc a) lp c mem (types c a) v"

lemma holds_all_Cons:
  "holds_all la lp c mem (Some x # es) (v # vs) \<longleftrightarrow> represents la lp c mem x v \<and> holds_all la lp c mem es vs"
  by (auto simp: represents_def)

lemma holds_all_ConsE:
  assumes "holds_all la lp c mem es (v # vs)"
  obtains x es' where "es = Some x # es'" and "represents la lp c mem x v" and "holds_all la lp c mem es' vs"
proof (cases es)
  case (Cons e es')
  then show ?thesis using assms that by (cases e) (auto simp: represents_def)
qed (use assms in simp)

lemma holds_describedE:
  assumes "holds la lp c mem t (VDescribed d v)"
  obtains x y es where "elements_of lp c t = Some x # Some y # es"
proof (cases "elements_of lp c t")
  case (Cons e es)
  then obtain x where x: "e = Some x" using assms by (cases e) auto
  show ?thesis
  proof (cases es)
    case (Cons e' es')
    with \<open>elements_of lp c t = e # es\<close> x show ?thesis using assms that by (cases e') auto
  qed (use assms \<open>elements_of lp c t = e # es\<close> x in simp)
qed (use assms in simp)

text \<open>Later allocations and stores elsewhere do not disturb a representation.\<close>

lemma elements_of_ext:
  assumes "heap_ext A P c c'" and "\<forall>p \<in> P. p < lp" and "elements_of lp c t \<noteq> []"
  shows "elements_of lp c' t = elements_of lp c t"
proof -
  obtain p where p: "value_elements (value_of t) = Some p" "lp \<le> p" "p < next_array c"
    using assms(3) by (auto simp: elements_of_def split: option.splits if_splits)
  then have "arrays c' p = arrays c p" "p < next_array c'"
    using heap_extD(2,4) [OF assms(1)] assms(2) by (auto simp: not_less [symmetric])
  with p show ?thesis by (simp add: elements_of_def)
qed

lemma elements_of_ext_holds_all:
  assumes "heap_ext A P c c'" and "\<forall>p \<in> P. p < lp" and "vs \<noteq> []" and "holds_all la lp c mem (elements_of lp c t) vs"
  shows "elements_of lp c' t = elements_of lp c t"
proof -
  obtain v vs' where "vs = v # vs'" using assms(3) by (cases vs) auto
  then have "elements_of lp c t \<noteq> []" using assms(4) by auto
  then show ?thesis using elements_of_ext [OF assms(1,2)] by simp
qed

lemma holds_ext:
  assumes ext: "heap_ext A P c c'" and P: "\<forall>p \<in> P. p < lp"
  shows "\<forall>x \<in> A. x < la \<Longrightarrow> holds la lp c mem t v \<Longrightarrow> holds la lp c' mem t v"
    and "\<forall>x \<in> A. x < la \<Longrightarrow> holds_all la lp c mem es vs \<Longrightarrow> holds_all la lp c' mem es vs"
proof (induction v and vs arbitrary: la t and la es rule: wire_wires.induct)
  have ty: "types c' x = types c x" "x < next_type c'" "\<forall>y \<in> A. y < Suc x"
    if "\<forall>x \<in> A. x < la" "la \<le> x" "x < next_type c" for x la
    using heap_extD(1,3) [OF ext] that by (auto simp: not_less [symmetric])
  {
    case (18 wide vs)
    then show ?case using elements_of_ext_holds_all [OF ext P] by (cases "vs = []") auto
  next
    case (19 wide vs)
    then show ?case using elements_of_ext_holds_all [OF ext P] by (cases "vs = []") auto
  next
    case (20 d v)
    obtain x y es where es: "elements_of lp c t = Some x # Some y # es"
      using "20.prems"(2) by (rule holds_describedE)
    then have "elements_of lp c' t = Some x # Some y # es" using elements_of_ext [OF ext P] by simp
    moreover have x: "la \<le> x" "x < next_type c" "holds (Suc x) lp c mem (types c x) d"
      and y: "la \<le> y" "y < next_type c" "holds (Suc y) lp c mem (types c y) v"
      using "20.prems"(2) es by simp_all
    ultimately show ?case
      using "20.prems"(2) es ty [OF "20.prems"(1) x(1,2)] ty [OF "20.prems"(1) y(1,2)]
        "20.IH"(1) [OF _ x(3)] "20.IH"(2) [OF _ y(3)] by simp
  next
    case (22 v vs)
    from "22.prems"(2) obtain x es' where es: "es = Some x # es'" "represents la lp c mem x v" "holds_all la lp c mem es' vs"
      by (rule holds_all_ConsE)
    then show ?case using ty [OF "22.prems"(1), of x] "22.IH"(1) [of "Suc x"] "22.IH"(2) [OF "22.prems"(1)]
      by (simp add: represents_def)
  }
qed simp_all

lemma represents_ext:
  assumes "represents la lp c mem a v" and "heap_ext A P c c'" and "\<forall>x \<in> A. x < la" and "\<forall>p \<in> P. p < lp"
  shows "represents la lp c' mem a v"
proof -
  have a: "la \<le> a" "a < next_type c" using assms(1) by (simp_all add: represents_def)
  then have "\<forall>x \<in> A. x < Suc a" "a \<notin> A" using assms(3) by fastforce+
  then show ?thesis
    using assms(1) a holds_ext(1) [OF assms(2,4)] heap_extD(1,3) [OF assms(2)] by (simp add: represents_def)
qed

text \<open>Lowering the bounds.\<close>

lemma elements_of_mono: "lp' \<le> lp \<Longrightarrow> elements_of lp c t \<noteq> [] \<Longrightarrow> elements_of lp' c t = elements_of lp c t"
  by (auto simp: elements_of_def split: option.splits if_splits)

lemma holds_mono:
  assumes lp: "lp' \<le> lp"
  shows "la' \<le> la \<Longrightarrow> holds la lp c mem t v \<Longrightarrow> holds la' lp' c mem t v"
    and "la' \<le> la \<Longrightarrow> holds_all la lp c mem es vs \<Longrightarrow> holds_all la' lp' c mem es vs"
proof (induction v and vs arbitrary: la la' t and la la' es rule: wire_wires.induct)
  have el: "elements_of lp' c t = elements_of lp c t" if ne: "vs \<noteq> []" and h: "holds_all la lp c mem (elements_of lp c t) vs" for la t vs
  proof -
    obtain v vs' where "vs = v # vs'" using ne by (cases vs) auto
    then have "elements_of lp c t \<noteq> []" using h by (metis holds_all_ConsE list.discI)
    then show ?thesis using elements_of_mono [OF lp] by simp
  qed
  {
    case (18 wide vs)
    then show ?case using el by (cases "vs = []") auto
  next
    case (19 wide vs)
    then show ?case using el by (cases "vs = []") auto
  next
    case (20 d v)
    obtain x y es where es: "elements_of lp c t = Some x # Some y # es"
      using "20.prems"(2) by (rule holds_describedE)
    then have "elements_of lp' c t = Some x # Some y # es" using elements_of_mono [OF lp] by simp
    then show ?case using "20.prems" "20.IH"(1) [OF order_refl] "20.IH"(2) [OF order_refl] es by simp
  next
    case (22 v vs)
    from "22.prems"(2) obtain x es' where es: "es = Some x # es'" "represents la lp c mem x v" "holds_all la lp c mem es' vs"
      by (rule holds_all_ConsE)
    then show ?case using "22.prems"(1) "22.IH"(1) [of "Suc x" "Suc x"] "22.IH"(2) by (simp add: represents_def)
  }
qed simp_all

lemma represents_mono:
  "represents la lp c mem a v \<Longrightarrow> la' \<le> la \<Longrightarrow> lp' \<le> lp \<Longrightarrow> represents la' lp' c mem a v"
  using holds_mono(1) [of lp' lp "Suc a" "Suc a"] by (auto simp: represents_def)

text \<open>The flags that link a value into its container do not change what it represents.\<close>

definition link_bits :: uint32 where
  "link_bits = amqp_is_contained OR amqp_is_descriptor OR amqp_is_described"

lemma or_and_same: "f AND m = 0 \<Longrightarrow> (w OR f) AND m = w AND (m :: uint32)"
  by (simp add: bit.conj_disj_distrib2)

lemma linked_flags:
  assumes f: "f = f AND link_bits" and m: "link_bits AND m = 0"
  shows "f AND m = 0"
proof -
  have "f AND m = f AND (link_bits AND m)" using f by (metis and.assoc)
  then show ?thesis using m by simp
qed

lemma linked_type:
  assumes f: "f = f AND link_bits"
  shows "holds la lp c mem (amqp_typedef_flags_set f t) v = holds la lp c mem t v"
    and "amqp_type_is_valid (amqp_typedef_flags_set f t) = amqp_type_is_valid t"
proof -
  have h: "has_flags (amqp_typedef_flags_set f t) m = has_flags t m" if "link_bits AND m = 0" for m
    using linked_flags [OF f that] by simp
  have u: "typedef_flags (constructor (amqp_typedef_flags_set f t)) AND m = typedef_flags (constructor t) AND m"
    if "link_bits AND m = 0" for m
    using or_and_same [OF linked_flags [OF f that]] by (simp add: amqp_typedef_flags_set_def)
  have v: "value_of (amqp_typedef_flags_set f t) = value_of t" "position (amqp_typedef_flags_set f t) = position t"
    by (simp_all add: amqp_typedef_flags_set_def)
  show "amqp_type_is_valid (amqp_typedef_flags_set f t) = amqp_type_is_valid t"
    by (simp add: amqp_type_is_valid_def h link_bits_def del: has_flags_set)
  show "holds la lp c mem (amqp_typedef_flags_set f t) v = holds la lp c mem t v"
    by (cases v)
      (simp_all only: holds.simps type_flag_defs amqp_type_is_null_def option.case amqp_type_to_boolean_def
        amqp_type_to_ubyte_def amqp_type_to_byte_def amqp_type_to_ushort_def amqp_type_to_short_def
        amqp_type_to_uint_def amqp_type_to_int_def amqp_type_to_ulong_def amqp_type_to_long_def
        amqp_type_to_timestamp_def amqp_type_to_float_def amqp_type_to_double_def variable_bytes_def
        elements_of_def v, simp_all add: h u link_bits_def del: has_flags_set)
qed

lemma represents_link:
  assumes "represents la lp c mem a v" and "f = f AND link_bits"
  shows "represents la lp (update_type c a (amqp_typedef_flags_set f)) mem a v"
proof -
  have "holds (Suc a) lp (update_type c a (amqp_typedef_flags_set f)) mem (types c a) v"
    using assms(1) by (intro holds_ext(1) [OF heap_ext_update [of a "{}"]]) (auto simp: represents_def)
  then show ?thesis using assms(1) linked_type [OF assms(2)] by (simp add: represents_def)
qed

section \<open>Reading the input\<close>

definition at_input :: "amqp_buffer_t \<Rightarrow> nat \<Rightarrow> byte list \<Rightarrow> bool" where
  "at_input b i bs \<longleftrightarrow> i + length bs \<le> limit_size b \<and> map (byte_at b) [i..<i + length bs] = bs"

lemma at_input_append:
  "at_input b i (xs @ ys) \<longleftrightarrow> at_input b i xs \<and> at_input b (i + length xs) ys"
proof -
  have "[i..<i + (length xs + length ys)] = [i..<i + length xs] @ [i + length xs..<i + length xs + length ys]"
    using upt_add_eq_append [of i "i + length xs" "length ys"] by (simp add: add.assoc)
  then show ?thesis by (auto simp: at_input_def add.assoc)
qed

lemma at_input_Cons: "at_input b i (x # ys) \<longleftrightarrow> i < limit_size b \<and> byte_at b i = x \<and> at_input b (Suc i) ys"
  using at_input_append [of b i "[x]" ys] by (auto simp: at_input_def)

lemma at_input_index [simp]: "at_input (b\<lparr>limit_index := j\<rparr>) i bs = at_input b i bs"
  by (simp add: at_input_def)

lemma readable_index: "readable b \<Longrightarrow> j \<le> limit_size b \<Longrightarrow> readable (b\<lparr>limit_index := j\<rparr>)"
  by (simp add: readable_def)

definition store_bytes :: "byte list \<Rightarrow> amqp_value_t \<Rightarrow> amqp_value_t" where
  "store_bytes bs v =
    (if length bs = 1 then set_b1 (hd bs) v
     else if length bs = 2 then set_b2 (word_of_bytes (rev bs)) v
     else if length bs = 4 then set_b4 (word_of_bytes (rev bs)) v
     else if length bs = 8 then set_b8 (word_of_bytes (rev bs)) v
     else v\<lparr>value_uuid := bs\<rparr>)"

lemma fixed_width_read:
  assumes b: "readable b" and bs: "at_input b (limit_index b) bs" and len: "length bs = width m" "width m \<in> {1, 2, 4, 8, 16}"
  shows "amqp_decode_fixed_width b m t = Ret (True, b\<lparr>limit_index := limit_index b + length bs\<rparr>,
    map_value (store_bytes bs) (set_position (limit_index b) (length bs) t))"
proof -
  let ?i = "limit_index b" and ?b = "b\<lparr>limit_index := limit_index b + width m\<rparr>"
  have le: "?i + width m \<le> limit_size b" and mem: "map (byte_at b) [?i..<?i + width m] = bs"
    using bs len by (simp_all add: at_input_def)
  have av: "amqp_buffer_check_available b (width m)"
    using le len by (auto simp: amqp_buffer_check_available_def)
  have ok: "buffer_ok ?b" and cap: "?i + width m \<le> capacity ?b" and adv: "size_add ?i (width m) = ?i + width m"
    using le readable_bounds [OF b] by simp_all
  have okj: "buffer_ok (b\<lparr>limit_index := j\<rparr>)" for j using ok by simp
  have r1: "amqp_ntoh_8 (b\<lparr>limit_index := j\<rparr>) ?i = Ret (hd bs)" if "width m = 1" for j
    using mem [symmetric] that unchecked_getc_at_ok [OF okj, of ?i] cap by (simp add: amqp_ntoh_8_def)
  have r2: "amqp_ntoh_16 (b\<lparr>limit_index := j\<rparr>) ?i = Ret (word_of_bytes (rev bs))" if "width m = 2" for j
    using ntoh_ok(1) [OF okj, of ?i] mem cap unfolding that by auto
  have r4: "amqp_ntoh_32 (b\<lparr>limit_index := j\<rparr>) ?i = Ret (word_of_bytes (rev bs))" if "width m = 4" for j
    using ntoh_ok(2) [OF okj, of ?i] mem cap unfolding that by simp
  have r8: "amqp_ntoh_64 (b\<lparr>limit_index := j\<rparr>) ?i = Ret (word_of_bytes (rev bs))" if "width m = 8" for j
    using ntoh_ok(3) [OF okj, of ?i] mem cap unfolding that by simp
  have r16: "copy_uuid (b\<lparr>limit_index := j\<rparr>) ?i = Ret bs" if "width m = 16" for j
    using buf.get_list_ok [OF okj, of ?i 16] mem cap unfolding that copy_uuid_def by simp
  have "amqp_buffer_advance_read_index b (width m) = ?b" using adv by (simp add: amqp_buffer_advance_read_index_def)
  then show ?thesis
    using len(2) av unfolding amqp_decode_fixed_width_def check_available_def amqp_buffer_index_def Let_def
    by (elim insertE) (simp_all add: len(1) store_bytes_def map_value_def r1 r2 r4 r8 r16)
qed

lemma size_field_read:
  assumes b: "readable b" and bs: "at_input b (limit_index b) bs" and w: "w \<in> {1, 4}"
    and "bs = (if w = 1 then [word_of_nat n] else be_bytes 4 (word_of_nat n :: uint32))"
    and n: "n < (if w = 1 then 256 else 2 ^ 32 - 1)"
  shows "\<exists>s. amqp_buffer_read_size_field b w = Ret (s, b\<lparr>limit_index := limit_index b + w\<rparr>) \<and> unat s = n \<and> s \<noteq> - 1"
proof (cases "w = 1")
  case True
  then have "limit_index b < limit_size b" "byte_at b (limit_index b) = word_of_nat n"
    using bs assms(4) by (simp_all add: at_input_Cons)
  moreover have "unat (ucast (word_of_nat n :: byte) :: uint32) = n"
    using n True by (simp add: unsigned_ucast_eq unsigned_of_nat take_bit_nat_eq_self)
  moreover have "(ucast (word_of_nat n :: byte) :: uint32) \<noteq> - 1"
  proof
    assume "(ucast (word_of_nat n :: byte) :: uint32) = - 1"
    then have "n = unat (- 1 :: uint32)" using \<open>unat (ucast (word_of_nat n :: byte) :: uint32) = n\<close> by simp
    then show False using n True by (simp add: unsigned_minus_1_eq_mask mask_eq_exp_minus_1)
  qed
  ultimately show ?thesis using read_size_field_1 [OF b] True by simp
next
  case False
  then have w4: "w = 4" using w by simp
  have bs': "bs = be_bytes 4 (word_of_nat n :: uint32)" using assms(4) w4 by simp
  have "limit_index b + 4 \<le> limit_size b" "map (byte_at b) [limit_index b..<limit_index b + 4] = bs"
    using bs bs' by (simp_all add: at_input_def)
  moreover have "word_of_bytes (rev bs) = (word_of_nat n :: uint32)" unfolding bs' by (rule word_of_be_bytes) simp
  moreover have u: "unat (word_of_nat n :: uint32) = n" using n w4 by (simp add: unat_of_nat)
  moreover have "(word_of_nat n :: uint32) \<noteq> - 1"
  proof
    assume "(word_of_nat n :: uint32) = - 1"
    then have "n = unat (- 1 :: uint32)" using u by simp
    then show False using n w4 by (simp add: unsigned_minus_1_eq_mask mask_eq_exp_minus_1)
  qed
  ultimately show ?thesis using read_size_field_4 [OF b] w4 by simp
qed

section \<open>A new object\<close>

definition fresh_type :: "amqp_encoding_meta_data_t \<Rightarrow> amqp_type_t \<Rightarrow> amqp_type_t" where
  "fresh_type m t = t\<lparr>constructor := \<lparr>meta_data = Some m, typedef_flags = meta_flags m,
     constructor_format_code = format_code m, extension_type_code = 0\<rparr>\<rparr>"

definition add_object :: "amqp_context_t \<Rightarrow> amqp_type_t \<Rightarrow> amqp_context_t" where
  "add_object c t = c\<lparr>types := (types c)(next_type c := t), live := (live c)(next_type c := True),
     next_type := Suc (next_type c)\<rparr>"

lemma add_object_simps [simp]:
  "types (add_object c t) = (types c)(next_type c := t)" "next_type (add_object c t) = Suc (next_type c)"
  "arrays (add_object c t) = arrays c" "next_array (add_object c t) = next_array c"
  "encode_container (add_object c t) = encode_container c"
  by (simp_all add: add_object_def)

lemma update_add_object [simp]: "update_type (add_object c t) (next_type c) f = add_object c (f t)"
  by (simp add: add_object_def update_type_def)

lemma heap_ext_add_object: "heap_ext A P c (add_object c t)"
  by (auto simp: heap_ext_def add_object_def)

lemma fresh_type_simps [simp]:
  "value_of (fresh_type m t) = value_of t" "meta_data (constructor (fresh_type m t)) = Some m"
  "has_flags (fresh_type m t) bits \<longleftrightarrow> meta_flags m AND bits \<noteq> 0"
  "typedef_flags (constructor (fresh_type m t)) = meta_flags m"
  by (simp_all add: fresh_type_def has_flags_def)

text \<open>The common start of every decoding: the format code selects the encoding.\<close>

lemma decode_with_start:
  assumes b: "readable b" and code: "at_input b (limit_index b) (format_code m # rest)"
    and m: "m \<in> set amqp_type_lookup_table"
  shows "decode_with into c b =
    run_bind (into (add_object c (fresh_type m (types c (next_type c)))) (b\<lparr>limit_index := Suc (limit_index b)\<rparr>) (next_type c))
      (\<lambda>(rc, c', b'). Ret (Some (next_type c), c', b'))"
proof -
  let ?a = "next_type c"
  let ?t = "amqp_initialize_amqp_type_t (types c ?a)"
  have lt: "limit_index b < limit_size b" and byt: "byte_at b (limit_index b) = format_code m"
    using code by (simp_all add: at_input_Cons)
  have getc: "amqp_buffer_getc b = Ret (uint (format_code m), b\<lparr>limit_index := Suc (limit_index b)\<rparr>)"
    using getc_ok [of b] b lt by (simp add: byt readable_def)
  have al: "amqp_allocate_type c = (?a, add_object c ?t)"
    by (simp add: amqp_allocate_type_def Let_def add_object_def update_type_def)
  have "decode_type_constructor_into_result b ?t =
      Ret (True, b\<lparr>limit_index := Suc (limit_index b)\<rparr>, fresh_type m (types c ?a))"
    using lookup_entry [OF m]
    by (simp add: decode_type_constructor_into_result_def decode_type_constructor_def getc Let_def fresh_type_def
        amqp_initialize_amqp_type_t_def)
  then show ?thesis
    using lt by (simp add: decode_with_def amqp_buffer_at_end_def al)
qed

text \<open>What decoding the encoding of a value from the read position on achieves.\<close>

definition beyond :: "amqp_context_t \<Rightarrow> amqp_context_t \<Rightarrow> bool" where
  "beyond c c' \<longleftrightarrow> (\<forall>x\<ge>next_type c'. types c' x = types c x)"

definition zeroed :: "amqp_context_t \<Rightarrow> bool" where
  "zeroed c \<longleftrightarrow> (\<forall>x\<ge>next_type c. value_b8 (value_of (types c x)) = 0)"

definition decoded :: "amqp_context_t \<Rightarrow> amqp_buffer_t \<Rightarrow> amqp_val \<Rightarrow> (nat option \<times> amqp_context_t \<times> amqp_buffer_t) run \<Rightarrow> bool" where
  "decoded c b v r \<longleftrightarrow> (\<exists>a c'. r = Ret (Some a, c', b\<lparr>limit_index := limit_index b + length (wire v)\<rparr>)
     \<and> heap_ext {} {} c c' \<and> beyond c c' \<and> represents (next_type c) (next_array c) c' (byte_at b) a v)"

lemma decoded_leaf:
  assumes b: "readable b" and m: "m \<in> set amqp_type_lookup_table" and w: "wire v = format_code m # bs"
    and code: "at_input b (limit_index b) (wire v)"
    and d: "\<And>into. call_type_decoder into m = on_heap d m"
    and t: "d (b\<lparr>limit_index := Suc (limit_index b)\<rparr>) m (fresh_type m (types c (next_type c)))
      = Ret (True, b\<lparr>limit_index := Suc (limit_index b) + length bs\<rparr>, t)"
    and valid: "amqp_type_is_valid t" and holds: "\<And>la lp c. holds la lp c (byte_at b) t v"
  shows "decoded c b v (decode_with (decode_type_into_result (Suc n)) c b)"
proof -
  have "decode_with (decode_type_into_result (Suc n)) c b =
      Ret (Some (next_type c), add_object c t, b\<lparr>limit_index := limit_index b + length (wire v)\<rparr>)"
    using decode_with_start [OF b _ m, of bs "decode_type_into_result (Suc n)" c] code d t
    by (simp add: w on_heap_def)
  moreover have "beyond c (add_object c t)" by (simp add: beyond_def)
  ultimately show ?thesis
    using heap_ext_add_object [of "{}" "{}" c t] valid holds by (auto simp: decoded_def represents_def)
qed

lemma set_position_simps [simp]:
  "value_of (set_position i n t) = value_of t" "constructor (set_position i n t) = constructor t"
  "has_flags (set_position i n t) bits = has_flags t bits"
  by (simp_all add: set_position_def)

lemma map_value_simps [simp]:
  "value_of (map_value f t) = f (value_of t)" "constructor (map_value f t) = constructor t"
  "position (map_value f t) = position t" "has_flags (map_value f t) bits = has_flags t bits"
  by (simp_all add: map_value_def has_flags_def)

section \<open>Values without elements\<close>

lemma then_value_id [simp]: "then_value id r = r"
proof -
  have id: "map_value id t = t" for t by (simp add: map_value_def)
  show ?thesis by (cases r) (auto simp: then_value_def id)
qed

lemma decoded_fixed:
  assumes b: "readable b" and m: "m \<in> set amqp_type_lookup_table" and w: "wire v = format_code m # bs"
    and code: "at_input b (limit_index b) (wire v)" and len: "length bs = width m" "width m \<in> {1, 2, 4, 8, 16}"
    and d: "\<And>into. call_type_decoder into m = on_heap d m"
    and df: "\<And>b t. d b m t = then_value f (amqp_decode_fixed_width b m t)"
    and valid: "meta_flags m AND (amqp_is_invalid OR amqp_is_incomplete) = 0"
    and holds: "\<And>la lp c t. typedef_flags (constructor t) = meta_flags m \<Longrightarrow>
       (\<exists>u. value_of t = f (store_bytes bs u)) \<Longrightarrow> holds la lp c (byte_at b) t v"
  shows "decoded c b v (decode_with (decode_type_into_result (Suc n)) c b)"
proof -
  let ?b = "b\<lparr>limit_index := Suc (limit_index b)\<rparr>" and ?t = "fresh_type m (types c (next_type c))"
  have bs: "at_input b (Suc (limit_index b)) bs" and lt: "limit_index b < limit_size b"
    using code by (simp_all add: w at_input_Cons)
  have "amqp_decode_fixed_width ?b m ?t = Ret (True, ?b\<lparr>limit_index := limit_index ?b + length bs\<rparr>,
      map_value (store_bytes bs) (set_position (limit_index ?b) (length bs) ?t))"
    using lt b bs by (intro fixed_width_read readable_index len) simp_all
  then have "d ?b m ?t = Ret (True, b\<lparr>limit_index := Suc (limit_index b) + length bs\<rparr>,
      map_value f (map_value (store_bytes bs) (set_position (Suc (limit_index b)) (length bs) ?t)))"
    by (simp add: df then_value_def)
  then show ?thesis
    by (rule decoded_leaf [OF b m w code d])
      (use valid in \<open>auto intro!: holds simp: amqp_type_is_valid_def\<close>)
qed

lemma in_table:
  "m \<in> {amqp_type_meta_data_described, amqp_type_meta_data_null, amqp_type_meta_data_boolean_true,
    amqp_type_meta_data_boolean_false, amqp_type_meta_data_uint_uint0, amqp_type_meta_data_ulong_ulong0,
    amqp_type_meta_data_list_0, amqp_type_meta_data_ubyte, amqp_type_meta_data_byte,
    amqp_type_meta_data_uint_small_uint, amqp_type_meta_data_ulong_small_ulong, amqp_type_meta_data_int_small_int,
    amqp_type_meta_data_long_small_long, amqp_type_meta_data_ushort, amqp_type_meta_data_short,
    amqp_type_meta_data_uint, amqp_type_meta_data_int, amqp_type_meta_data_float_ieee_754, amqp_type_meta_data_ulong,
    amqp_type_meta_data_long, amqp_type_meta_data_double_ieee_754, amqp_type_meta_data_timestamp_ms64,
    amqp_type_meta_data_uuid, amqp_type_meta_data_binary_vbin8, amqp_type_meta_data_string_str8_utf8,
    amqp_type_meta_data_symbol_sym8, amqp_type_meta_data_binary_vbin32, amqp_type_meta_data_string_str32_utf8,
    amqp_type_meta_data_symbol_sym32, amqp_type_meta_data_list_8, amqp_type_meta_data_map_8,
    amqp_type_meta_data_list_32, amqp_type_meta_data_map_32} \<Longrightarrow> m \<in> set amqp_type_lookup_table"
  by (auto simp: amqp_type_lookup_table_def)

lemma small_word:
  fixes x :: "'a::len word"
  assumes "unat x < 256"
  shows "ucast (ucast x :: byte) = x"
  using assms by (simp add: word_unat_eq_iff unsigned_ucast_eq unsigned_take_bit_eq take_bit_nat_eq_self)

lemma small_word_32: "x < 255 \<Longrightarrow> ucast (ucast x :: byte) = (x :: uint32)"
  using unat_mono [of x 255] by (intro small_word) simp

lemma small_word_64: "x < 255 \<Longrightarrow> ucast (ucast x :: byte) = (x :: uint64)"
  using unat_mono [of x 255] by (intro small_word) simp

lemma store_be_bytes [simp]:
  "store_bytes (be_bytes 2 x2) u = set_b2 x2 u" "store_bytes (be_bytes 4 x4) u = set_b4 x4 u"
  "store_bytes (be_bytes 8 x8) u = set_b8 x8 u"
  by (simp_all add: store_bytes_def word_of_be_bytes)

lemma store_one [simp]: "store_bytes [x] u = set_b1 x u"
  by (simp add: store_bytes_def)

lemmas conversion_defs =
  amqp_type_to_ubyte_def amqp_type_to_byte_def amqp_type_to_ushort_def amqp_type_to_short_def
  amqp_type_to_uint_def amqp_type_to_int_def amqp_type_to_ulong_def amqp_type_to_long_def
  amqp_type_to_timestamp_def amqp_type_to_float_def amqp_type_to_double_def

lemmas fixed_defs = meta_data_defs call_type_decoder_def leaf_defs conversion_defs type_flag_defs has_flags_def

lemma decoded_fixed_values:
  assumes b: "readable b" and code: "at_input b (limit_index b) (wire v)" and e: "encodable v"
    and v: "v \<in> range VUbyte \<union> range VByte \<union> range VUshort \<union> range VShort \<union> range VTimestamp
      \<union> range VFloat \<union> range VDouble \<union> range VUuid"
  shows "decoded c b v (decode_with (decode_type_into_result (Suc n)) c b)"
proof -
  note fixed = decoded_fixed [OF b in_table _ code, where f = id]
  show ?thesis
  proof (cases v)
    case (VUbyte x)
    show ?thesis
      by (rule fixed [of amqp_type_meta_data_ubyte "[x]" amqp_decode_ubyte]) (auto simp: VUbyte fixed_defs)
  next
    case (VByte x)
    show ?thesis
      by (rule fixed [of amqp_type_meta_data_byte "[x]" amqp_decode_byte]) (auto simp: VByte fixed_defs)
  next
    case (VUshort x)
    show ?thesis
      by (rule fixed [of amqp_type_meta_data_ushort "be_bytes 2 x" amqp_decode_ushort]) (auto simp: VUshort fixed_defs)
  next
    case (VShort x)
    show ?thesis
      by (rule fixed [of amqp_type_meta_data_short "be_bytes 2 x" amqp_decode_short]) (auto simp: VShort fixed_defs)
  next
    case (VTimestamp x)
    show ?thesis
      by (rule fixed [of amqp_type_meta_data_timestamp_ms64 "be_bytes 8 x" amqp_decode_timestamp])
        (auto simp: VTimestamp fixed_defs)
  next
    case (VFloat x)
    show ?thesis
      by (rule fixed [of amqp_type_meta_data_float_ieee_754 "be_bytes 4 x" amqp_decode_float]) (auto simp: VFloat fixed_defs)
  next
    case (VDouble x)
    show ?thesis
      by (rule fixed [of amqp_type_meta_data_double_ieee_754 "be_bytes 8 x" amqp_decode_double])
        (auto simp: VDouble fixed_defs)
  next
    case (VUuid x)
    show ?thesis
      by (rule fixed [of amqp_type_meta_data_uuid x amqp_decode_uuid])
        (use e in \<open>auto simp: VUuid fixed_defs store_bytes_def\<close>)
  qed (use v in auto)
qed

lemma decoded_zero:
  assumes b: "readable b" and m: "m \<in> set amqp_type_lookup_table" and w: "wire v = [format_code m]"
    and code: "at_input b (limit_index b) (wire v)" and d: "\<And>into. call_type_decoder into m = on_heap d m"
    and df: "\<And>b t. d b m t = then_value f (amqp_decode_fixed_zero_width b m t)"
    and valid: "meta_flags m AND (amqp_is_invalid OR amqp_is_incomplete) = 0"
    and holds: "\<And>la lp c t. typedef_flags (constructor t) = meta_flags m \<Longrightarrow>
       value_of t = f (value_of (types ctx (next_type ctx))) \<Longrightarrow> holds la lp c (byte_at b) t v"
  shows "decoded ctx b v (decode_with (decode_type_into_result (Suc n)) ctx b)"
proof -
  let ?b = "b\<lparr>limit_index := Suc (limit_index b)\<rparr>" and ?t = "fresh_type m (types ctx (next_type ctx))"
  have "d ?b m ?t = Ret (True, b\<lparr>limit_index := Suc (limit_index b) + length []\<rparr>,
      map_value f (set_position (Suc (limit_index b)) 0 ?t))"
    by (simp add: df then_value_def amqp_decode_fixed_zero_width_def amqp_buffer_index_def)
  then show ?thesis
    by (rule decoded_leaf [OF b m w code d])
      (use valid in \<open>auto intro!: holds simp: amqp_type_is_valid_def\<close>)
qed

lemma decoded_integers:
  assumes b: "readable b" and code: "at_input b (limit_index b) (wire v)"
    and v: "v \<in> range VUint \<union> range VInt \<union> range VUlong \<union> range VLong"
  shows "decoded c b v (decode_with (decode_type_into_result (Suc n)) c b)"
proof -
  note fixed = decoded_fixed [OF b in_table _ code] and zero = decoded_zero [OF b in_table _ code]
  show ?thesis
  proof (cases v)
    case (VUint x)
    consider "x = 0" | "x \<noteq> 0" "x < 255" | "x \<noteq> 0" "\<not> x < 255" by blast
    then show ?thesis
    proof cases
      case 1
      show ?thesis
        by (rule zero [of amqp_type_meta_data_uint_uint0 amqp_decode_uint0 "set_b4 0"]) (auto simp: VUint 1 fixed_defs)
    next
      case 2
      show ?thesis
        by (rule fixed [of amqp_type_meta_data_uint_small_uint "[ucast x]" amqp_decode_small_uint
              "\<lambda>v. set_b4 (ucast (value_b1 v)) v"])
          (use small_word_32 [OF 2(2)] in \<open>auto simp: VUint 2 fixed_defs\<close>)
    next
      case 3
      show ?thesis
        by (rule fixed [of amqp_type_meta_data_uint "be_bytes 4 x" amqp_decode_uint id]) (auto simp: VUint 3 fixed_defs)
    qed
  next
    case (VUlong x)
    consider "x = 0" | "x \<noteq> 0" "x < 255" | "x \<noteq> 0" "\<not> x < 255" by blast
    then show ?thesis
    proof cases
      case 1
      show ?thesis
        by (rule zero [of amqp_type_meta_data_ulong_ulong0 amqp_decode_ulong0 "set_b8 0"]) (auto simp: VUlong 1 fixed_defs)
    next
      case 2
      show ?thesis
        by (rule fixed [of amqp_type_meta_data_ulong_small_ulong "[ucast x]" amqp_decode_small_ulong
              "\<lambda>v. set_b8 (ucast (value_b1 v)) v"])
          (use small_word_64 [OF 2(2)] in \<open>auto simp: VUlong 2 fixed_defs\<close>)
    next
      case 3
      show ?thesis
        by (rule fixed [of amqp_type_meta_data_ulong "be_bytes 8 x" amqp_decode_ulong id]) (auto simp: VUlong 3 fixed_defs)
    qed
  next
    case (VInt x)
    show ?thesis
    proof (cases "x = scast (ucast x :: byte)")
      case True
      show ?thesis
        by (rule fixed [of amqp_type_meta_data_int_small_int "[ucast x]" amqp_decode_small_int
              "\<lambda>v. set_b4 (scast (value_b1 v)) v"])
          (use True in \<open>auto simp: VInt fixed_defs\<close>)
    next
      case False
      then show ?thesis
        by (intro fixed [of amqp_type_meta_data_int "be_bytes 4 x" amqp_decode_int id]) (auto simp: VInt fixed_defs)
    qed
  next
    case (VLong x)
    show ?thesis
    proof (cases "x = scast (ucast x :: byte)")
      case True
      show ?thesis
        by (rule fixed [of amqp_type_meta_data_long_small_long "[ucast x]" amqp_decode_small_long
              "\<lambda>v. set_b8 (scast (value_b1 v)) v"])
          (use True in \<open>auto simp: VLong fixed_defs\<close>)
    next
      case False
      then show ?thesis
        by (intro fixed [of amqp_type_meta_data_long "be_bytes 8 x" amqp_decode_long id]) (auto simp: VLong fixed_defs)
    qed
  qed (use v in auto)
qed

lemma decoded_zero_width:
  assumes b: "readable b" and code: "at_input b (limit_index b) (wire v)" and z: "zeroed c"
    and v: "v \<in> {VNull} \<union> range VBoolean \<union> {VList wide [] |wide. True}"
  shows "decoded c b v (decode_with (decode_type_into_result (Suc n)) c b)"
proof -
  note zero = decoded_zero [OF b in_table _ code]
  consider "v = VNull" | "v = VBoolean True" | "v = VBoolean False" | wide where "v = VList wide []"
    using v by auto
  then show ?thesis
  proof cases
    case 1
    show ?thesis
      by (rule zero [of amqp_type_meta_data_null amqp_decode_null id])
        (auto simp: 1 fixed_defs amqp_type_is_null_def amqp_decode_fixed_zero_width_def)
  next
    case 2
    show ?thesis
      by (rule zero [of amqp_type_meta_data_boolean_true amqp_decode_boolean_true "set_b1 1"])
        (auto simp: 2 fixed_defs amqp_type_to_boolean_def amqp_decode_fixed_zero_width_def then_value_def)
  next
    case 3
    show ?thesis
      by (rule zero [of amqp_type_meta_data_boolean_false amqp_decode_boolean_false id])
        (use z in \<open>auto simp: 3 fixed_defs amqp_type_to_boolean_def zeroed_def value_b1_def\<close>)
  next
    case 4
    show ?thesis
      by (rule zero [of amqp_type_meta_data_list_0 amqp_decode_list_0 "value_count_update (\<lambda>_. 0)"])
        (auto simp: 4 fixed_defs)
  qed
qed

section \<open>Variable width values\<close>

text \<open>
  The decoder asks for a byte after the size field even when the size is 0, so a value that ends
  with an empty binary, string or symbol is only read when the input goes on after it.
\<close>

fun ends_empty :: "amqp_val \<Rightarrow> bool" and end_empty :: "amqp_val list \<Rightarrow> bool" where
  "ends_empty (VBinary bs) = (bs = [])"
| "ends_empty (VString bs) = (bs = [])"
| "ends_empty (VSymbol bs) = (bs = [])"
| "ends_empty (VList wide vs) = end_empty vs"
| "ends_empty (VMap wide vs) = end_empty vs"
| "ends_empty (VDescribed d v) = ends_empty v"
| "ends_empty v = False"
| "end_empty [] = False"
| "end_empty (v # vs) = (if vs = [] then ends_empty v else end_empty vs)"

definition size_field :: "nat \<Rightarrow> nat \<Rightarrow> byte list" where
  "size_field w n = (if w = 1 then [word_of_nat n] else be_bytes 4 (word_of_nat n :: uint32))"

lemma length_size_field [simp]: "w \<in> {1, 4} \<Longrightarrow> length (size_field w n) = w"
  by (auto simp: size_field_def)

definition size_limit :: "nat \<Rightarrow> nat" where
  "size_limit w = (if w = 1 then 256 else 2 ^ 32 - 1)"

lemma variable_size_read:
  assumes b: "readable b" and w: "width m \<in> {1, 4}" and bs: "at_input b (limit_index b) (size_field (width m) n)"
    and n: "n < size_limit (width m)" and av: "amqp_buffer_check_available (b\<lparr>limit_index := limit_index b + width m\<rparr>) n"
  shows "\<exists>s. get_variable_type_size b m t = Ret (s, b\<lparr>limit_index := limit_index b + width m\<rparr>, t) \<and> unat s = n \<and> s \<noteq> - 1"
proof -
  obtain s where "amqp_buffer_read_size_field b (width m) = Ret (s, b\<lparr>limit_index := limit_index b + width m\<rparr>)"
    and "unat s = n" and "s \<noteq> - 1"
    using size_field_read [OF b bs w] n by (auto simp: size_field_def size_limit_def)
  then show ?thesis using av by (simp add: get_variable_type_size_def)
qed

lemma variable_read:
  assumes b: "readable b" and w: "width m \<in> {1, 4}"
    and bs: "at_input b (limit_index b) (size_field (width m) (length bs) @ bs)"
    and n: "length bs < size_limit (width m)" and more: "bs = [] \<longrightarrow> limit_index b + width m < limit_size b"
  shows "amqp_construct_variable_type b m t = Ret (True, b\<lparr>limit_index := limit_index b + width m + length bs\<rparr>,
    set_position (limit_index b + width m) (length bs) t)"
proof -
  let ?b = "b\<lparr>limit_index := limit_index b + width m\<rparr>"
  have sz: "at_input b (limit_index b) (size_field (width m) (length bs))"
    and le: "limit_index b + width m + length bs \<le> limit_size b"
    using bs [unfolded at_input_append] w by (simp_all add: at_input_def)
  have "amqp_buffer_check_available ?b (length bs)"
    using le more by (cases bs) (auto simp: amqp_buffer_check_available_def)
  from variable_size_read [OF b w sz n this, of t] obtain s where
    "get_variable_type_size b m t = Ret (s, ?b, t)" "unat s = length bs" "s \<noteq> - 1" by blast
  moreover have "size_add (limit_index b + width m) (length bs) = limit_index b + width m + length bs"
    using le readable_bounds [OF b] by simp
  ultimately show ?thesis
    by (simp add: amqp_construct_variable_type_def amqp_buffer_advance_read_index_def amqp_buffer_index_def)
qed

lemma scan_read:
  assumes b: "readable b" and bs: "at_input b i bs" and good: "list_all (\<lambda>c. \<not> bad c) bs"
  shows "scan_for bad (b\<lparr>limit_index := j\<rparr>) i (length bs) = Ret False"
proof -
  have le: "i + length bs \<le> limit_size b" and mem: "map (byte_at b) [i..<i + length bs] = bs"
    using bs by (simp_all add: at_input_def)
  have "byte_at b (i + k) = bs ! k" if "k < length bs" for k
    using arg_cong [OF mem, of "\<lambda>xs. xs ! k"] that by simp
  then have "\<not> (\<exists>k<length bs. bad (byte_at b (i + k)))" using good by (auto simp: list_all_length)
  moreover have "buffer_ok (b\<lparr>limit_index := j\<rparr>)" "i + length bs \<le> capacity (b\<lparr>limit_index := j\<rparr>)"
    using le readable_bounds [OF b] by simp_all
  ultimately show ?thesis using scan_for_ok [of "b\<lparr>limit_index := j\<rparr>" i "length bs" bad] by simp
qed

lemma decoded_variable:
  assumes b: "readable b" and m: "m \<in> set amqp_type_lookup_table" and w: "width m \<in> {1, 4}"
    and wire: "wire v = format_code m # size_field (width m) (length bs) @ bs"
    and code: "at_input b (limit_index b) (wire v)"
    and n: "length bs < size_limit (width m)" and more: "bs = [] \<longrightarrow> limit_index b + length (wire v) < limit_size b"
    and d: "\<And>into. call_type_decoder into m = on_heap d m"
    and df: "\<And>b b' t t'. amqp_construct_variable_type b m t = Ret (True, b', t') \<Longrightarrow>
       scan_for bad b' (position_index (position t')) (position_size (position t')) = Ret False \<Longrightarrow>
       d b m t = Ret (True, b', t')"
    and good: "list_all (\<lambda>c. \<not> bad c) bs"
    and valid: "meta_flags m AND (amqp_is_invalid OR amqp_is_incomplete) = 0"
    and holds: "\<And>la lp c t. typedef_flags (constructor t) = meta_flags m \<Longrightarrow> variable_bytes (byte_at b) t = bs \<Longrightarrow>
       holds la lp c (byte_at b) t v"
  shows "decoded c b v (decode_with (decode_type_into_result (Suc k)) c b)"
proof -
  let ?b = "b\<lparr>limit_index := Suc (limit_index b)\<rparr>" and ?t = "fresh_type m (types c (next_type c))"
  let ?i = "Suc (limit_index b) + width m"
  let ?t' = "set_position ?i (length bs) ?t"
  have bs: "at_input b (Suc (limit_index b)) (size_field (width m) (length bs) @ bs)" and lt: "limit_index b < limit_size b"
    using code by (simp_all add: wire at_input_Cons)
  have rb: "readable ?b" using b lt by (intro readable_index) simp_all
  have data: "at_input b ?i bs" using bs w by (simp add: at_input_append)
  have "amqp_construct_variable_type ?b m ?t = Ret (True, b\<lparr>limit_index := ?i + length bs\<rparr>, ?t')"
    using variable_read [OF rb w _ n, of ?t] bs more w by (simp add: wire)
  moreover have "scan_for bad (b\<lparr>limit_index := ?i + length bs\<rparr>) (position_index (position ?t')) (position_size (position ?t'))
      = Ret False"
    using scan_read [OF b data good] by (simp add: set_position_def)
  ultimately have "d ?b m ?t = Ret (True, b\<lparr>limit_index := ?i + length bs\<rparr>, ?t')" by (rule df)
  then have "d ?b m ?t = Ret (True, b\<lparr>limit_index := Suc (limit_index b) + length (size_field (width m) (length bs) @ bs)\<rparr>, ?t')"
    using w by (simp add: add.assoc)
  then show ?thesis
  proof (rule decoded_leaf [OF b m wire code d])
    show "amqp_type_is_valid ?t'" using valid by (simp add: amqp_type_is_valid_def)
    show "holds la lp c' (byte_at b) ?t' v" for la lp c'
      by (rule holds) (use data in \<open>simp_all add: variable_bytes_def set_position_def at_input_def\<close>)
  qed
qed

lemma wire_variable_forms:
  "length bs < 256 \<Longrightarrow> wire_variable c8 c32 bs = c8 # size_field 1 (length bs) @ bs"
  "\<not> length bs < 256 \<Longrightarrow> wire_variable c8 c32 bs = c32 # size_field 4 (length bs) @ bs"
  by (simp_all add: wire_variable_def size_field_def)

lemmas variable_defs = leaf_defs amqp_decode_symbol_def amqp_decode_string_utf8_def call_type_decoder_def type_flag_defs has_flags_def

lemma decoded_variable_values:
  assumes b: "readable b" and code: "at_input b (limit_index b) (wire v)" and e: "encodable v"
    and more: "ends_empty v \<longrightarrow> limit_index b + length (wire v) < limit_size b"
    and v: "v \<in> range VBinary \<union> range VString \<union> range VSymbol"
  shows "decoded c b v (decode_with (decode_type_into_result (Suc n)) c b)"
proof -
  note var = decoded_variable [OF b in_table _ _ code]
  show ?thesis
  proof (cases v)
    case (VBinary bs)
    show ?thesis
    proof (cases "length bs < 256")
      case True
      show ?thesis
        by (rule var [of amqp_type_meta_data_binary_vbin8 bs amqp_decode_binary_vbin8 "\<lambda>_. False"])
          (use True more in \<open>auto simp: VBinary wire_variable_forms size_limit_def meta_data_defs variable_defs list_all_def\<close>)
    next
      case False
      show ?thesis
        by (rule var [of amqp_type_meta_data_binary_vbin32 bs amqp_decode_binary_vbin32 "\<lambda>_. False"])
          (use False e more in \<open>auto simp: VBinary wire_variable_forms size_limit_def meta_data_defs variable_defs list_all_def\<close>)
    qed
  next
    case (VString bs)
    show ?thesis
    proof (cases "length bs < 256")
      case True
      show ?thesis
        by (rule var [of amqp_type_meta_data_string_str8_utf8 bs amqp_decode_string_str8_utf8 "\<lambda>c. c = 0"])
          (use True e more in \<open>auto simp: VString wire_variable_forms size_limit_def meta_data_defs variable_defs\<close>)
    next
      case False
      show ?thesis
        by (rule var [of amqp_type_meta_data_string_str32_utf8 bs amqp_decode_string_str32_utf8 "\<lambda>c. c = 0"])
          (use False e more in \<open>auto simp: VString wire_variable_forms size_limit_def meta_data_defs variable_defs\<close>)
    qed
  next
    case (VSymbol bs)
    show ?thesis
    proof (cases "length bs < 256")
      case True
      show ?thesis
        by (rule var [of amqp_type_meta_data_symbol_sym8 bs amqp_decode_symbol_sym8 "\<lambda>c. c AND 0x80 \<noteq> 0"])
          (use True e more in \<open>auto simp: VSymbol wire_variable_forms size_limit_def meta_data_defs variable_defs\<close>)
    next
      case False
      show ?thesis
        by (rule var [of amqp_type_meta_data_symbol_sym32 bs amqp_decode_symbol_sym32 "\<lambda>c. c AND 0x80 \<noteq> 0"])
          (use False e more in \<open>auto simp: VSymbol wire_variable_forms size_limit_def meta_data_defs variable_defs\<close>)
    qed
  qed (use v in auto)
qed

end
