(* ===== verification/Decode_Containers.thy ===== *)
theory Decode_Containers
  imports Decode_Correct
begin

text \<open>
  The decoder against the reference encoding, second part: lists, maps and described values, and
  the main theorem: \<open>amqp_decode\<close> builds a representation of the value whose encoding it reads.
\<close>

section \<open>Linking an element into its container\<close>

lemma zeroed_ext: "zeroed c \<Longrightarrow> heap_ext A P c c' \<Longrightarrow> beyond c c' \<Longrightarrow> zeroed c'"
  using heap_extD(1) [of A P c c'] by (simp add: zeroed_def beyond_def)

lemma beyond_trans:
  "beyond c c1 \<Longrightarrow> beyond c1 c2 \<Longrightarrow> heap_ext A P c1 c2 \<Longrightarrow> beyond c c2"
  using heap_extD(1) [of A P c1 c2] by (simp add: beyond_def)

lemma link_step:
  assumes dec: "decoded c b v r" and a: "a < next_type c" and p: "value_elements (value_of (types c a)) = Some p"
    "p < next_array c" "arrays c p = Some es" "i < length es" and f: "f = f AND link_bits"
  shows "\<exists>e c1 c2 c3. r = Ret (Some e, c1, b\<lparr>limit_index := limit_index b + length (wire v)\<rparr>)
    \<and> store_element c1 (value_elements (value_of (types c1 a))) i e = Ret c2
    \<and> c3 = update_type c2 e (amqp_typedef_flags_set f)
    \<and> heap_ext {} {p} c c3 \<and> beyond c c3 \<and> arrays c3 p = Some (es[i := Some e])
    \<and> represents (next_type c) (next_array c) c3 (byte_at b) e v"
proof -
  obtain e c1 where r: "r = Ret (Some e, c1, b\<lparr>limit_index := limit_index b + length (wire v)\<rparr>)"
    and ext: "heap_ext {} {} c c1" and bey: "beyond c c1"
    and rep: "represents (next_type c) (next_array c) c1 (byte_at b) e v"
    using dec by (auto simp: decoded_def)
  let ?c2 = "c1\<lparr>arrays := (arrays c1)(p \<mapsto> es[i := Some e])\<rparr>"
  let ?c3 = "update_type ?c2 e (amqp_typedef_flags_set f)"
  have e: "next_type c \<le> e" "e < next_type c1" using rep by (simp_all add: represents_def)
  have ty: "types c1 a = types c a" and ar: "arrays c1 p = Some es"
    using heap_extD(3,4) [OF ext] a p by auto
  have "store_element c1 (value_elements (value_of (types c1 a))) i e = Ret ?c2"
    using ty ar p by (simp add: store_element_def)
  moreover have "heap_ext {} {p} c ?c3" by (rule link_element [OF ext e(1) heap_ext_refl])
  moreover have "beyond c ?c3" using bey e by (auto simp: beyond_def update_type_def)
  moreover have "arrays ?c3 p = Some (es[i := Some e])" by (simp add: update_type_def)
  moreover have "represents (next_type c) (next_array c) ?c2 (byte_at b) e v"
    using represents_ext [OF rep heap_ext_store [of p "{p}" "{}"]] p by simp
  then have "represents (next_type c) (next_array c) ?c3 (byte_at b) e v" by (rule represents_link [OF _ f])
  ultimately show ?thesis using r by blast
qed

lemma decode_elements_ok:
  fixes into :: into_result and b :: amqp_buffer_t and p a :: nat
  assumes IH: "\<And>v c j. v \<in> set vs \<Longrightarrow> zeroed c \<Longrightarrow> limit_index b \<le> j \<Longrightarrow> j \<le> limit_size b \<Longrightarrow> at_input b j (wire v) \<Longrightarrow>
      (ends_empty v \<longrightarrow> j + length (wire v) < limit_size b) \<Longrightarrow>
      decoded c (b\<lparr>limit_index := j\<rparr>) v (decode_with into c (b\<lparr>limit_index := j\<rparr>))"
    and "limit_index b \<le> j" "j \<le> limit_size b" and z: "zeroed c" and code: "at_input b j (wires vs)"
    and more: "end_empty vs \<longrightarrow> j + length (wires vs) < limit_size b"
    and a: "a < next_type c" and p: "value_elements (value_of (types c a)) = Some p" "p < next_array c"
      "arrays c p = Some es" "i + length vs \<le> length es"
  shows "\<exists>c' es'. decode_elements (decode_with into) i (length vs) c (b\<lparr>limit_index := j\<rparr>) a
      = Ret (c', b\<lparr>limit_index := j + length (wires vs)\<rparr>) \<and> heap_ext {} {p} c c' \<and> beyond c c' \<and>
      arrays c' p = Some es' \<and> length es' = length es \<and> take i es' = take i es \<and>
      holds_all (next_type c) (next_array c) c' (byte_at b) (drop i es') vs"
  using assms
proof (induction vs arbitrary: c j i es)
  case Nil
  then show ?case by (auto simp: heap_ext_refl beyond_def)
next
  case (Cons v vs)
  let ?j = "j + length (wire v)" and ?f = "amqp_is_contained"
  have code: "at_input b j (wire v)" "at_input b ?j (wires vs)"
    using Cons.prems(5) by (simp_all add: at_input_append)
  have len: "?j \<le> limit_size b" using code(1) by (simp add: at_input_def)
  have "ends_empty v \<longrightarrow> ?j < limit_size b"
  proof (cases vs)
    case (Cons w ws)
    then have "0 < length (wires vs)" by simp
    moreover have "?j + length (wires vs) \<le> limit_size b" using code(2) by (simp add: at_input_def)
    ultimately show ?thesis by linarith
  qed (use Cons.prems(6) in simp)
  then have dec: "decoded c (b\<lparr>limit_index := j\<rparr>) v (decode_with into c (b\<lparr>limit_index := j\<rparr>))"
    by (intro Cons.prems(1)) (use Cons.prems(2-4) code in simp_all)
  have fl: "?f = ?f AND link_bits" by (simp add: link_bits_def)
  from link_step [OF dec Cons.prems(7-10) _ fl, of i] Cons.prems(11)
  obtain e c1 c2 c3 where e: "decode_with into c (b\<lparr>limit_index := j\<rparr>) = Ret (Some e, c1, b\<lparr>limit_index := ?j\<rparr>)"
    and st: "store_element c1 (value_elements (value_of (types c1 a))) i e = Ret c2"
    and c3: "c3 = update_type c2 e (amqp_typedef_flags_set ?f)"
    and ext: "heap_ext {} {p} c c3" and bey: "beyond c c3" and ar: "arrays c3 p = Some (es[i := Some e])"
    and rep: "represents (next_type c) (next_array c) c3 (byte_at b) e v" by auto
  have nx: "next_type c \<le> next_type c3" "next_array c \<le> next_array c3" using heap_extD(1,2) [OF ext] by simp_all
  have ty: "types c3 a = types c a" using heap_extD(3) [OF ext Cons.prems(7)] by simp
  have "\<exists>c' es'. decode_elements (decode_with into) (Suc i) (length vs) c3 (b\<lparr>limit_index := ?j\<rparr>) a
      = Ret (c', b\<lparr>limit_index := ?j + length (wires vs)\<rparr>) \<and> heap_ext {} {p} c3 c' \<and> beyond c3 c' \<and>
      arrays c' p = Some es' \<and> length es' = length (es[i := Some e]) \<and> take (Suc i) es' = take (Suc i) (es[i := Some e]) \<and>
      holds_all (next_type c3) (next_array c3) c' (byte_at b) (drop (Suc i) es') vs"
  proof (rule Cons.IH)
    show "decoded c (b\<lparr>limit_index := j\<rparr>) v (decode_with into c (b\<lparr>limit_index := j\<rparr>))"
      if "v \<in> set vs" "zeroed c" "limit_index b \<le> j" "j \<le> limit_size b" "at_input b j (wire v)"
        "ends_empty v \<longrightarrow> j + length (wire v) < limit_size b" for v c j
      using Cons.prems(1) that by simp
    show "end_empty vs \<longrightarrow> ?j + length (wires vs) < limit_size b"
      using Cons.prems(6) by (cases "vs = []") (simp_all add: add.assoc)
  qed (use Cons.prems(2,7-11) len code(2) ar ty nx zeroed_ext [OF Cons.prems(4) ext bey] in simp_all)
  then obtain c' es' where run: "decode_elements (decode_with into) (Suc i) (length vs) c3 (b\<lparr>limit_index := ?j\<rparr>) a
      = Ret (c', b\<lparr>limit_index := ?j + length (wires vs)\<rparr>)" and ext': "heap_ext {} {p} c3 c'" and bey': "beyond c3 c'"
    and ar': "arrays c' p = Some es'" and len': "length es' = length es"
    and take': "take (Suc i) es' = take (Suc i) (es[i := Some e])"
    and holds': "holds_all (next_type c3) (next_array c3) c' (byte_at b) (drop (Suc i) es') vs" by auto
  have lt: "i < length es" using Cons.prems(11) by simp
  have "es' ! i = Some e" using arg_cong [OF take', of "\<lambda>xs. xs ! i"] lt by simp
  then have dr: "drop i es' = Some e # drop (Suc i) es'" using lt len' by (metis Cons_nth_drop_Suc)
  have "take i es' = take i (es[i := Some e])"
    using arg_cong [OF take', of "take i"] by (simp add: min_def)
  then have tk: "take i es' = take i es" by simp
  have "heap_ext {} {p} c c'" by (rule heap_ext_trans [OF ext ext']) auto
  moreover have "beyond c c'" by (rule beyond_trans [OF bey bey' ext'])
  moreover have "represents (next_type c) (next_array c) c' (byte_at b) e v"
    using represents_ext [OF rep ext'] Cons.prems(9) by simp
  moreover have "holds_all (next_type c) (next_array c) c' (byte_at b) (drop (Suc i) es') vs"
    using holds_mono(2) [OF nx(2) nx(1) holds'] .
  ultimately show ?case
    using e st c3 run ar' len' tk dr holds_all_Cons by (auto simp: add.assoc)
qed

section \<open>Lists and maps\<close>

text \<open>The object and the heap after the header of a container with \<open>n\<close> elements was read.\<close>

definition container_type :: "amqp_encoding_meta_data_t \<Rightarrow> nat \<Rightarrow> nat \<Rightarrow> nat \<Rightarrow> nat \<Rightarrow> amqp_type_t \<Rightarrow> amqp_type_t" where
  "container_type m i sz n p t =
     map_value (value_elements_update (\<lambda>_. Some p)) (map_value (value_count_update (\<lambda>_. n))
       (set_position i sz (fresh_type m t)))"

definition array_space :: "nat \<Rightarrow> nat option list" where
  "array_space n = replicate ((n div 16 + 1) * 16) None"

lemma array_space_length [simp]: "n \<le> length (array_space n)"
proof -
  have "n = n div 16 * 16 + n mod 16" "n mod 16 < 16" by simp_all
  moreover have "length (array_space n) = n div 16 * 16 + 16" by (simp add: array_space_def)
  ultimately show ?thesis by linarith
qed

definition new_container :: "amqp_context_t \<Rightarrow> amqp_type_t \<Rightarrow> nat \<Rightarrow> amqp_context_t" where
  "new_container c t n = (add_object c t)\<lparr>arrays := (arrays c)(next_array c \<mapsto> array_space n),
     next_array := Suc (next_array c)\<rparr>"

lemma new_container_simps [simp]:
  "types (new_container c t n) = (types c)(next_type c := t)" "next_type (new_container c t n) = Suc (next_type c)"
  "arrays (new_container c t n) = (arrays c)(next_array c \<mapsto> array_space n)"
  "next_array (new_container c t n) = Suc (next_array c)"
  by (simp_all add: new_container_def)

lemma update_new_container [simp]:
  "update_type (new_container c t n) (next_type c) f = new_container c (f t) n"
  by (simp add: new_container_def add_object_def update_type_def)

lemma allocate_new_container [simp]:
  "amqp_allocate_amqp_type_t_array (add_object c t) n = (next_array c, new_container c t n)"
  by (simp add: amqp_allocate_amqp_type_t_array_def new_container_def array_space_def Let_def)

lemma new_container_ext: "heap_ext {} {} c (new_container c t n)"
  by (auto simp: heap_ext_def new_container_def add_object_def)

lemma new_container_beyond: "beyond c (new_container c t n)"
  by (simp add: beyond_def)

lemma container_run:
  fixes c :: amqp_context_t
  assumes b: "readable b" and w: "width m \<in> {1, 4}"
    and bs: "at_input b (limit_index b) (size_field (width m) (n + width m) @ size_field (width m) k)"
    and n: "n + width m < size_limit (width m)" and k: "k < size_limit (width m)"
    and av: "limit_index b + width m + (n + width m) \<le> limit_size b"
  shows "amqp_decode_list_list into m (add_object c (fresh_type m t)) b (next_type c) =
    run_bind (decode_elements (decode_with into) 0 k
        (new_container c (container_type m (limit_index b + width m) (n + width m) k (next_array c) t) k)
        (b\<lparr>limit_index := limit_index b + width m + width m\<rparr>) (next_type c))
      (\<lambda>(context, buffer). Ret (True, context, buffer))"
proof -
  let ?b = "b\<lparr>limit_index := limit_index b + width m\<rparr>"
  have s: "at_input b (limit_index b) (size_field (width m) (n + width m))"
    and ct: "at_input ?b (limit_index ?b) (size_field (width m) k)"
    using bs [unfolded at_input_append] w by simp_all
  have rb: "readable ?b" using b av by (intro readable_index) simp_all
  have "amqp_buffer_check_available ?b (n + width m)"
    using av w by (auto simp: amqp_buffer_check_available_def)
  from variable_size_read [OF b w s n this] obtain s where s:
    "get_variable_type_size b m (fresh_type m t) = Ret (s, ?b, fresh_type m t)" "unat s = n + width m" "s \<noteq> - 1" by blast
  from size_field_read [OF rb ct w] k obtain r where r:
    "amqp_buffer_read_size_field ?b (width m) = Ret (r, b\<lparr>limit_index := limit_index b + width m + width m\<rparr>)"
    "unat r = k" "r \<noteq> - 1"
    by (auto simp: size_field_def size_limit_def)
  show ?thesis
    using s r by (simp add: amqp_decode_list_list_def on_heap_def amqp_construct_container_type_def
      get_variable_type_count_def amqp_buffer_index_def container_type_def)
qed

lemma decoded_container:
  fixes c :: amqp_context_t
  assumes b: "readable b" and m: "m \<in> set amqp_type_lookup_table" and w: "width m \<in> {1, 4}"
    and wire: "wire v = format_code m # size_field (width m) (length (wires vs) + width m)
      @ size_field (width m) (length vs) @ wires vs"
    and code: "at_input b (limit_index b) (wire v)" and z: "zeroed c"
    and n: "length (wires vs) + width m < size_limit (width m)"
    and more: "end_empty vs \<longrightarrow> limit_index b + length (wire v) < limit_size b"
    and d: "\<And>into. call_type_decoder into m = amqp_decode_list_list into m"
    and valid: "meta_flags m AND (amqp_is_invalid OR amqp_is_incomplete) = 0"
    and holds: "\<And>la lp c t. typedef_flags (constructor t) = meta_flags m \<Longrightarrow> value_count (value_of t) = length vs \<Longrightarrow>
       vs = [] \<or> holds_all la lp c (byte_at b) (elements_of lp c t) vs \<Longrightarrow> holds la lp c (byte_at b) t v"
    and IH: "\<And>v c j. v \<in> set vs \<Longrightarrow> zeroed c \<Longrightarrow> limit_index b < j \<Longrightarrow> j \<le> limit_size b \<Longrightarrow> at_input b j (wire v) \<Longrightarrow>
      (ends_empty v \<longrightarrow> j + length (wire v) < limit_size b) \<Longrightarrow>
      decoded c (b\<lparr>limit_index := j\<rparr>) v (decode_with (decode_type_into_result f) c (b\<lparr>limit_index := j\<rparr>))"
  shows "decoded c b v (decode_with (decode_type_into_result (Suc f)) c b)"
proof -
  let ?i = "Suc (limit_index b)" and ?a = "next_type c" and ?p = "next_array c"
  let ?b = "b\<lparr>limit_index := ?i\<rparr>" and ?j = "?i + width m + width m"
  let ?t = "container_type m (?i + width m) (length (wires vs) + width m) (length vs) ?p (types c ?a)"
  let ?c = "new_container c ?t (length vs)" and ?n = "length (wires vs)"
  have lt: "limit_index b < limit_size b" and bs: "at_input b ?i (size_field (width m) (?n + width m)
      @ size_field (width m) (length vs) @ wires vs)"
    using code by (simp_all add: wire at_input_Cons)
  then have rb: "readable ?b" using b by (intro readable_index) simp_all
  have hd: "at_input ?b (limit_index ?b) (size_field (width m) (?n + width m) @ size_field (width m) (length vs))"
    and pl: "at_input b ?j (wires vs)"
    using bs w by (simp_all add: at_input_append)
  have le: "?j + ?n \<le> limit_size b" using pl by (simp add: at_input_def)
  have k: "length vs < size_limit (width m)" using n length_wires [of vs] by linarith
  have run: "amqp_decode_list_list (decode_type_into_result f) m (add_object c (fresh_type m (types c ?a))) ?b ?a =
    run_bind (decode_elements (decode_with (decode_type_into_result f)) 0 (length vs) ?c (b\<lparr>limit_index := ?j\<rparr>) ?a)
      (\<lambda>(context, buffer). Ret (True, context, buffer))"
    using container_run [OF rb w hd n k, of "decode_type_into_result f" c "types c ?a"] le by simp
  have "\<exists>c' es'. decode_elements (decode_with (decode_type_into_result f)) 0 (length vs) ?c (?b\<lparr>limit_index := ?j\<rparr>) ?a
      = Ret (c', ?b\<lparr>limit_index := ?j + length (wires vs)\<rparr>) \<and> heap_ext {} {?p} ?c c' \<and> beyond ?c c' \<and>
      arrays c' ?p = Some es' \<and> length es' = length (array_space (length vs)) \<and> take 0 es' = take 0 (array_space (length vs)) \<and>
      holds_all (next_type ?c) (next_array ?c) c' (byte_at ?b) (drop 0 es') vs"
  proof (rule decode_elements_ok)
    show "decoded c' (?b\<lparr>limit_index := j\<rparr>) v' (decode_with (decode_type_into_result f) c' (?b\<lparr>limit_index := j\<rparr>))"
      if "v' \<in> set vs" "zeroed c'" "limit_index ?b \<le> j" "j \<le> limit_size ?b" "at_input ?b j (wire v')"
        "ends_empty v' \<longrightarrow> j + length (wire v') < limit_size ?b" for v' c' j
      using IH [OF that(1,2)] that(3-) by simp
    show "zeroed ?c" by (rule zeroed_ext [OF z new_container_ext new_container_beyond])
    show "end_empty vs \<longrightarrow> ?j + length (wires vs) < limit_size ?b" using more w by (simp add: wire add.assoc)
  qed (use pl le in \<open>simp_all add: container_type_def\<close>)
  then obtain c' es' where el: "decode_elements (decode_with (decode_type_into_result f)) 0 (length vs) ?c (b\<lparr>limit_index := ?j\<rparr>) ?a
      = Ret (c', b\<lparr>limit_index := ?j + ?n\<rparr>)" and ext: "heap_ext {} {?p} ?c c'" and bey: "beyond ?c c'"
    and ar: "arrays c' ?p = Some es'" and all: "holds_all (Suc ?a) (Suc ?p) c' (byte_at b) es' vs" by auto
  have nx: "?a < next_type c'" "?p < next_array c'" using heap_extD(1,2) [OF ext] by simp_all
  have ty: "types c' ?a = ?t" using heap_extD(3) [OF ext, of ?a] by simp
  have "decode_with (decode_type_into_result (Suc f)) c b = Ret (Some ?a, c', b\<lparr>limit_index := limit_index b + length (wire v)\<rparr>)"
    using decode_with_start [OF b _ m, of _ "decode_type_into_result (Suc f)" c] code run el w
    by (simp add: wire d add.assoc)
  moreover have "heap_ext {} {} c c'" by (rule heap_ext_trans [OF new_container_ext ext]) auto
  moreover have "beyond c c'" by (rule beyond_trans [OF new_container_beyond bey ext])
  moreover have "elements_of ?p c' ?t = es'" using ar nx(2) by (simp add: elements_of_def container_type_def)
  then have "represents ?a ?p c' (byte_at b) ?a v"
    using nx(1) valid holds_mono(2) [OF _ _ all, of ?p "Suc ?a"]
    by (auto simp: represents_def ty container_type_def amqp_type_is_valid_def intro!: holds)
  ultimately show ?thesis by (auto simp: decoded_def)
qed

section \<open>Described values\<close>

lemma decode_part_ok:
  assumes "decoded c b v (decode_with into c b)" and "a < next_type c" and "value_elements (value_of (types c a)) = Some p"
    "p < next_array c" "arrays c p = Some es" "i < length es" and "f = f AND link_bits"
  shows "\<exists>e c'. decode_part into i f c b a = Ret (Some e, c', b\<lparr>limit_index := limit_index b + length (wire v)\<rparr>)
    \<and> heap_ext {} {p} c c' \<and> beyond c c' \<and> arrays c' p = Some (es[i := Some e])
    \<and> represents (next_type c) (next_array c) c' (byte_at b) e v"
  using link_step [OF assms] by (auto simp: decode_part_def)

lemma two_elements: "(array_space 2)[0 := Some x, 1 := Some y] = Some x # Some y # replicate 14 None"
proof -
  have "(2 div 16 + 1) * 16 = Suc (Suc 14)" by simp
  then have "array_space 2 = None # None # replicate 14 None" by (simp only: array_space_def replicate_Suc)
  then show ?thesis by simp
qed

lemma described_run:
  "amqp_decode_described_type into (add_object c (fresh_type m t)) b (next_type c) =
    run_bind (decode_part into 0 (amqp_is_contained OR amqp_is_descriptor)
        (new_container c (container_type m (limit_index b) 0 2 (next_array c) t) 2) b (next_type c))
      (\<lambda>(descriptor, context, buffer).
        case descriptor of
          None \<Rightarrow> fail_at AMQP_ERROR_NO_DESCRIPTOR context buffer (next_type c)
        | Some descriptor \<Rightarrow>
            run_bind (decode_part into 1 (amqp_is_contained OR amqp_is_described) context buffer (next_type c))
              (\<lambda>(described, context, buffer).
            case described of
              None \<Rightarrow> fail_at AMQP_ERROR_NO_DESCRIBED_TYPE context buffer (next_type c)
            | Some described \<Rightarrow>
                if \<not> amqp_type_is_valid (types context descriptor)
                then fail_at AMQP_ERROR_DESCRIPTOR_INVALID context buffer (next_type c)
                else if \<not> amqp_type_is_valid (types context described)
                then fail_at AMQP_ERROR_DESCRIBED_INVALID context buffer (next_type c)
                else Ret (True, context, buffer)))"
  by (simp add: amqp_decode_described_type_def container_type_def amqp_buffer_index_def)

lemma decoded_described:
  fixes c :: amqp_context_t
  assumes b: "readable b" and code: "at_input b (limit_index b) (wire (VDescribed d v))" and z: "zeroed c"
    and more: "ends_empty v \<longrightarrow> limit_index b + length (wire (VDescribed d v)) < limit_size b"
    and IH: "\<And>v' c j. v' \<in> {d, v} \<Longrightarrow> zeroed c \<Longrightarrow> limit_index b < j \<Longrightarrow> j \<le> limit_size b \<Longrightarrow> at_input b j (wire v') \<Longrightarrow>
      (ends_empty v' \<longrightarrow> j + length (wire v') < limit_size b) \<Longrightarrow>
      decoded c (b\<lparr>limit_index := j\<rparr>) v' (decode_with (decode_type_into_result f) c (b\<lparr>limit_index := j\<rparr>))"
  shows "decoded c b (VDescribed d v) (decode_with (decode_type_into_result (Suc f)) c b)"
proof -
  let ?m = "amqp_type_meta_data_described" and ?i = "Suc (limit_index b)" and ?a = "next_type c" and ?p = "next_array c"
  let ?into = "decode_type_into_result f" and ?j = "Suc (limit_index b) + length (wire d)"
  let ?t = "container_type ?m ?i 0 2 ?p (types c ?a)"
  let ?c = "new_container c ?t 2"
  let ?f0 = "amqp_is_contained OR amqp_is_descriptor" and ?f1 = "amqp_is_contained OR amqp_is_described"
  have m: "?m \<in> set amqp_type_lookup_table" by (rule in_table) simp
  have fc: "format_code ?m = 0" by (simp add: meta_data_defs)
  have lt: "limit_index b < limit_size b" and cd: "at_input b ?i (wire d)" "at_input b ?j (wire v)"
    using code by (simp_all add: at_input_Cons at_input_append)
  have "?j + length (wire v) \<le> limit_size b" using cd(2) by (simp add: at_input_def)
  moreover have "0 < length (wire v)" by simp
  ultimately have le: "?j < limit_size b" by linarith
  have z1: "zeroed ?c" by (rule zeroed_ext [OF z new_container_ext new_container_beyond])
  have d1: "decoded ?c (b\<lparr>limit_index := ?i\<rparr>) d (decode_with ?into ?c (b\<lparr>limit_index := ?i\<rparr>))"
    by (rule IH) (use z1 lt cd le in simp_all)
  have fl: "?f0 = ?f0 AND link_bits" "?f1 = ?f1 AND link_bits" by (simp_all add: link_bits_def)
  have sp: "length (array_space 2) = 16" by (simp add: array_space_def)
  from decode_part_ok [OF d1 _ _ _ _ _ fl(1), of ?a ?p "array_space 2" 0]
  obtain x c1 where x: "decode_part ?into 0 ?f0 ?c (b\<lparr>limit_index := ?i\<rparr>) ?a = Ret (Some x, c1, b\<lparr>limit_index := ?j\<rparr>)"
    and ext1: "heap_ext {} {?p} ?c c1" and bey1: "beyond ?c c1" and ar1: "arrays c1 ?p = Some ((array_space 2)[0 := Some x])"
    and rep1: "represents (Suc ?a) (Suc ?p) c1 (byte_at b) x d"
    using sp by (auto simp: container_type_def)
  have nx1: "Suc ?a \<le> next_type c1" "Suc ?p \<le> next_array c1" using heap_extD(1,2) [OF ext1] by simp_all
  have ty1: "types c1 ?a = ?t" using heap_extD(3) [OF ext1, of ?a] by simp
  have d2: "decoded c1 (b\<lparr>limit_index := ?j\<rparr>) v (decode_with ?into c1 (b\<lparr>limit_index := ?j\<rparr>))"
    by (rule IH) (use zeroed_ext [OF z1 ext1 bey1] cd le more in \<open>simp_all add: add.assoc\<close>)
  from decode_part_ok [OF d2 _ _ _ ar1 _ fl(2), of ?a 1]
  obtain y c2 where y: "decode_part ?into 1 ?f1 c1 (b\<lparr>limit_index := ?j\<rparr>) ?a = Ret (Some y, c2, b\<lparr>limit_index := ?j + length (wire v)\<rparr>)"
    and ext2: "heap_ext {} {?p} c1 c2" and bey2: "beyond c1 c2" and ar2: "arrays c2 ?p = Some ((array_space 2)[0 := Some x, 1 := Some y])"
    and rep2: "represents (next_type c1) (next_array c1) c2 (byte_at b) y v"
    using nx1 ty1 sp by (auto simp: container_type_def)
  have r1: "represents (Suc ?a) (Suc ?p) c2 (byte_at b) x d" by (rule represents_ext [OF rep1 ext2]) simp_all
  have r2: "represents (Suc ?a) (Suc ?p) c2 (byte_at b) y v" by (rule represents_mono [OF rep2 nx1])
  have nx2: "?a < next_type c2" "?p < next_array c2" using nx1 heap_extD(1,2) [OF ext2] by simp_all
  have ty2: "types c2 ?a = ?t" using heap_extD(3) [OF ext2, of ?a] nx1 ty1 by simp
  have "decode_with (decode_type_into_result (Suc f)) c b =
      Ret (Some ?a, c2, b\<lparr>limit_index := limit_index b + length (wire (VDescribed d v))\<rparr>)"
    using decode_with_start [OF b _ m, of "wire d @ wire v" "decode_type_into_result (Suc f)" c] code fc x y r1 r2
    by (simp add: call_type_decoder_def described_run represents_def amqp_type_meta_data_described_def)
  moreover have "heap_ext {} {?p} c c2"
    by (rule heap_ext_trans [OF heap_ext_trans [OF heap_ext_mono [OF new_container_ext] ext1] ext2]) auto
  then have "heap_ext {} {} c c2" by (auto simp: heap_ext_def)
  moreover have "beyond c c2"
    by (rule beyond_trans [OF beyond_trans [OF new_container_beyond bey1 ext1] bey2 ext2])
  moreover have "elements_of ?p c2 ?t = (array_space 2)[0 := Some x, 1 := Some y]"
    using ar2 nx2(2) by (simp add: elements_of_def container_type_def)
  then have "elements_of ?p c2 ?t = Some x # Some y # replicate 14 None" unfolding two_elements .
  then have "represents ?a ?p c2 (byte_at b) ?a (VDescribed d v)"
    using nx2(1) represents_mono [OF r1 order_refl, of ?p] represents_mono [OF r2 order_refl, of ?p]
    by (simp add: represents_def ty2 amqp_type_is_valid_def, simp add: container_type_def meta_data_defs type_flag_defs)
  ultimately show ?thesis by (auto simp: decoded_def)
qed

section \<open>Every encodable value\<close>

lemma wire_container_forms:
  "wire_container False c8 c32 n pl = c8 # size_field 1 (length pl + 1) @ size_field 1 n @ pl"
  "wire_container True c8 c32 n pl = c32 # size_field 4 (length pl + 4) @ size_field 4 n @ pl"
  by (simp_all add: wire_container_def size_field_def)

lemmas container_value_defs =
  wire_container_forms size_limit_def meta_data_defs container_defs call_type_decoder_def map_is_list type_flag_defs has_flags_def

text \<open>\<open>f\<close> bounds the depth of the recursion, \<open>limit_size - limit_index\<close> is always enough.\<close>

theorem decode_value:
  fixes c :: amqp_context_t
  assumes "readable b" and "encodable v" and "at_input b (limit_index b) (wire v)" and "zeroed c"
    and "ends_empty v \<longrightarrow> limit_index b + length (wire v) < limit_size b"
    and "limit_size b - limit_index b \<le> f"
  shows "decoded c b v (decode_with (decode_type_into_result (Suc f)) c b)"
  using assms
proof (induction f arbitrary: b v c)
  case 0
  have "0 < length (wire v)" by simp
  moreover have "limit_index b + length (wire v) \<le> limit_size b" using "0.prems"(3) by (simp add: at_input_def)
  ultimately show ?case using "0.prems"(6) by linarith
next
  case (Suc f)
  have IH: "decoded c' (b\<lparr>limit_index := j\<rparr>) v' (decode_with (decode_type_into_result (Suc f)) c' (b\<lparr>limit_index := j\<rparr>))"
    if "encodable v'" "zeroed c'" "limit_index b < j" "j \<le> limit_size b" "at_input b j (wire v')"
      "ends_empty v' \<longrightarrow> j + length (wire v') < limit_size b" for v' c' j
    by (rule Suc.IH) (use that Suc.prems(1,6) readable_index in auto)
  have all: "encodables vs \<Longrightarrow> v' \<in> set vs \<Longrightarrow> encodable v'" for vs v' by (induction vs) auto
  note con = decoded_container [OF Suc.prems(1) in_table _ _ Suc.prems(3,4)]
  show ?case
  proof (cases v)
    case (VList wide vs)
    have el: "encodable v'" if "v' \<in> set vs" for v' using all that Suc.prems(2) VList by auto
    show ?thesis
    proof (cases "vs = []")
      case True
      then show ?thesis using VList by (intro decoded_zero_width [OF Suc.prems(1,3,4)]) auto
    next
      case False
      note ne = False
      show ?thesis
      proof (cases wide)
        case True
        show ?thesis
          by (rule con [of amqp_type_meta_data_list_32 vs])
            (use Suc.prems(2,5) True el ne IH in \<open>auto simp: VList container_value_defs\<close>)
      next
        case False
        show ?thesis
          by (rule con [of amqp_type_meta_data_list_8 vs])
            (use Suc.prems(2,5) False el ne IH in \<open>auto simp: VList container_value_defs\<close>)
      qed
    qed
  next
    case (VMap wide vs)
    have el: "encodable v'" if "v' \<in> set vs" for v' using all that Suc.prems(2) VMap by auto
    show ?thesis
    proof (cases wide)
      case True
      show ?thesis
        by (rule con [of amqp_type_meta_data_map_32 vs])
          (use Suc.prems(2,5) True el IH in \<open>auto simp: VMap container_value_defs\<close>)
    next
      case False
      show ?thesis
        by (rule con [of amqp_type_meta_data_map_8 vs])
          (use Suc.prems(2,5) False el IH in \<open>auto simp: VMap container_value_defs\<close>)
    qed
  next
    case (VDescribed d w)
    show ?thesis unfolding VDescribed
      by (rule decoded_described [OF Suc.prems(1) _ Suc.prems(4)]) (use VDescribed Suc.prems(2,3,5) IH in auto)
  qed (use decoded_fixed_values [OF Suc.prems(1,3,2)] decoded_integers [OF Suc.prems(1,3)]
    decoded_zero_width [OF Suc.prems(1,3,4)] decoded_variable_values [OF Suc.prems(1,3,2,5)] in
      \<open>simp_all del: decode_type_into_result.simps\<close>)
qed

end
