(* ===== verification/Codec.thy ===== *)
theory Codec
  imports Encode_Correct Decode_Containers
begin

text \<open>
  The encoder and the decoder together: what the encoder of one context appends to a buffer, the
  decoder of another context reads back.
\<close>

lemma extends_at_input: "extends b bs b' \<Longrightarrow> at_input b' (limit_size b) bs"
proof -
  assume ext: "extends b bs b'"
  have "map (byte_at b') [0..<limit_size b + length bs] = contents b @ bs"
    using extendsD(3,4) [OF ext] by (simp add: contents_def)
  then have "drop (limit_size b) (map (byte_at b') [0..<limit_size b + length bs]) = bs" by simp
  then show ?thesis using extendsD(3) [OF ext] by (simp add: at_input_def drop_map drop_upt)
qed

lemma decode_encoding:
  assumes "readable b" and "encodable v" and "at_input b (limit_index b) (wire v)" and "zeroed c"
    and "ends_empty v \<longrightarrow> limit_index b + length (wire v) < limit_size b"
  shows "decoded c b v (amqp_decode c b)"
  unfolding amqp_decode_def by (rule decode_value [OF assms]) simp

lemma decode_encoded:
  assumes v: "encodable v" and "encode_ready c" and "room b (Suc (space v))" and idx: "limit_index b = limit_size b"
    and "\<not> ends_empty v" and "zeroed d"
  shows "\<exists>a c' b'. encode_value v c b = Ret (Some a, c', b') \<and> extends b (wire v) b' \<and> decoded d b' v (amqp_decode d b')"
proof -
  obtain a c' b' where r: "encode_value v c b = Ret (Some a, c', b')" and ext: "extends b (wire v) b'"
    using encode_value_wire(1) [OF assms(1-3)] by (rule encodedE)
  have "readable b'" "limit_index b' = limit_size b"
    using extendsD [OF ext] idx by (simp_all add: readable_def)
  then have "decoded d b' v (amqp_decode d b')"
    using extends_at_input [OF ext] assms by (intro decode_encoding) simp_all
  with r ext show ?thesis by blast
qed

end
