(* ===== verification/Allocator.thy ===== *)
theory Allocator
  imports Prelude
begin

text \<open>
  The interface of an allocator: the library has two, the guarded memory of \<^verbatim>\<open>Memory.c\<close> and the
  pools of \<^verbatim>\<open>Pool.c\<close>. \<open>live\<close> is the set of pointers in use, \<open>count\<close> the statistic from which the
  library tells at the end whether everything was given back.
\<close>

section \<open>Sequences of calls\<close>

primrec allocate_all :: "('r \<Rightarrow> 's \<Rightarrow> ('p \<times> 's) run) \<Rightarrow> 'r list \<Rightarrow> 's \<Rightarrow> ('p list \<times> 's) run" where
  "allocate_all alloc [] s = Ret ([], s)"
| "allocate_all alloc (r # rs) s =
     run_bind (alloc r s) (\<lambda>(p, s). run_bind (allocate_all alloc rs s) (\<lambda>(ps, s). Ret (p # ps, s)))"

primrec release_all :: "('s \<Rightarrow> 'p \<Rightarrow> 's run) \<Rightarrow> 'p list \<Rightarrow> 's \<Rightarrow> 's run" where
  "release_all release [] s = Ret s"
| "release_all release (p # ps) s = run_bind (release s p) (\<lambda>s. release_all release ps s)"

section \<open>The contract and what follows from it\<close>

locale allocator =
  fixes ok :: "'s \<Rightarrow> bool" and live :: "'s \<Rightarrow> 'p set" and valid :: "'r \<Rightarrow> bool"
    and alloc :: "'r \<Rightarrow> 's \<Rightarrow> ('p \<times> 's) run" and release :: "'s \<Rightarrow> 'p \<Rightarrow> 's run" and count :: "'s \<Rightarrow> uint64"
  assumes alloc_ok: "ok s \<Longrightarrow> valid r \<Longrightarrow>
      \<exists>p s'. alloc r s = Ret (p, s') \<and> ok s' \<and> p \<notin> live s \<and> live s' = insert p (live s)"
    and release_ok: "ok s \<Longrightarrow> p \<in> live s \<Longrightarrow> \<exists>s'. release s p = Ret s' \<and> ok s' \<and> live s' = live s - {p}"
    and count_live: "ok s \<Longrightarrow> finite (live s) \<and> count s = word_of_nat (card (live s))"
begin

lemma allocate_all_ok:
  "ok s \<Longrightarrow> list_all valid rs \<Longrightarrow> \<exists>ps s'. allocate_all alloc rs s = Ret (ps, s') \<and> ok s' \<and> length ps = length rs
     \<and> distinct ps \<and> set ps \<inter> live s = {} \<and> live s' = live s \<union> set ps"
proof (induction rs arbitrary: s)
  case (Cons r rs)
  obtain p s1 where p: "alloc r s = Ret (p, s1)" "ok s1" "p \<notin> live s" "live s1 = insert p (live s)"
    using alloc_ok [OF Cons.prems(1), of r] Cons.prems(2) by auto
  then obtain ps s' where "allocate_all alloc rs s1 = Ret (ps, s')" "ok s'" "length ps = length rs" "distinct ps"
    "set ps \<inter> live s1 = {}" "live s' = live s1 \<union> set ps"
    using Cons.IH [of s1] Cons.prems(2) by auto
  with p show ?case by auto
qed simp

lemma release_all_ok:
  "ok s \<Longrightarrow> distinct ps \<Longrightarrow> set ps \<subseteq> live s \<Longrightarrow>
   \<exists>s'. release_all release ps s = Ret s' \<and> ok s' \<and> live s' = live s - set ps"
proof (induction ps arbitrary: s)
  case (Cons p ps)
  obtain s1 where s1: "release s p = Ret s1" "ok s1" "live s1 = live s - {p}"
    using release_ok [OF Cons.prems(1), of p] Cons.prems(3) by auto
  moreover have "set ps \<subseteq> live s1" using s1(3) Cons.prems(2,3) by auto
  ultimately obtain s' where "release_all release ps s1 = Ret s'" "ok s'" "live s' = live s1 - set ps"
    using Cons.IH [of s1] Cons.prems(2) by auto
  with s1 show ?case by auto
qed simp

text \<open>Pointers that are given back in any order leave the allocator as it was.\<close>

lemma allocate_release:
  assumes "ok s" and "list_all valid rs"
  shows "\<exists>ps s'. allocate_all alloc rs s = Ret (ps, s') \<and> distinct ps \<and>
    (\<forall>qs. distinct qs \<and> set qs = set ps \<longrightarrow>
      (\<exists>s''. release_all release qs s' = Ret s'' \<and> ok s'' \<and> live s'' = live s \<and> count s'' = count s))"
proof -
  obtain ps s' where ps: "allocate_all alloc rs s = Ret (ps, s')" "ok s'" "distinct ps" "set ps \<inter> live s = {}"
    "live s' = live s \<union> set ps"
    using allocate_all_ok [OF assms] by blast
  have "\<exists>s''. release_all release qs s' = Ret s'' \<and> ok s'' \<and> live s'' = live s \<and> count s'' = count s"
    if d: "distinct qs" and q: "set qs = set ps" for qs
  proof -
    obtain s'' where s'': "release_all release qs s' = Ret s''" "ok s''" "live s'' = live s' - set qs"
      using release_all_ok [OF ps(2) d] ps(5) q by auto
    then have "live s'' = live s" using ps(4,5) q by auto
    with s'' show ?thesis using count_live [of s''] count_live [OF assms(1)] by auto
  qed
  with ps show ?thesis by blast
qed

text \<open>The statistic is 0 exactly when nothing is in use (short of \<open>2 ^ 64\<close> pointers).\<close>

lemma count_zero:
  assumes "ok s" and "card (live s) < 2 ^ 64"
  shows "count s = 0 \<longleftrightarrow> live s = {}"
proof -
  have "unat (count s) = card (live s)" using count_live [OF assms(1)] assms(2) by (simp add: unat_of_nat)
  then show ?thesis using count_live [OF assms(1)] by (metis card_0_eq unat_0 unsigned_word_eqI)
qed

end

end
