(* ===== verification/Memory.thy ===== *)
theory Memory
  imports Allocator
begin

text \<open>
  The guarded allocator of \<^verbatim>\<open>Memory/Memory.c\<close>: every block carries its size and a guard word before
  the data, and a guard word that depends on the size after it. The data is modelled as the bytes
  that the C allocator delivered behind the header; fragment \<open>i\<close> is bytes \<open>8 * i\<close> to
  \<open>8 * i + 7\<close>, with the address arithmetic modulo \<open>2 ^ 64\<close>. The build without the debugging
  options (\<^verbatim>\<open>LIBAMQP_DEBUG_ALLOCATIONS\<close>, \<^verbatim>\<open>LIBAMQP_DEBUG_DOUBLE_FREE\<close>) is modelled, and the C
  allocator is assumed to succeed.
\<close>

section \<open>Blocks\<close>

definition SIZE_T_BYTES :: nat where "SIZE_T_BYTES = 8"

definition memory_mask :: uint64 where "memory_mask = 0x996e796d586067ca"

record amqp__memory_block_t =
  block_count :: nat
  block_mask :: uint64
  block_data :: "byte list"

text \<open>
  The memory of the process, and the statistics that the context keeps. \<open>uninitialized\<close> is what
  new memory happens to hold.
\<close>

record amqp_memory_t =
  memory_blocks :: "nat \<Rightarrow> amqp__memory_block_t option"
  next_address :: nat
  uninitialized :: "nat \<Rightarrow> byte"
  outstanding_allocations :: uint64
  total_allocation_calls :: uint64

definition size_sub :: "nat \<Rightarrow> nat \<Rightarrow> nat" where
  "size_sub a b = (a + (2 ^ 64 - b)) mod 2 ^ 64"

definition size_mult :: "nat \<Rightarrow> nat \<Rightarrow> nat" where
  "size_mult a b = (a * b) mod 2 ^ 64"

definition byte_count_rounded :: "nat \<Rightarrow> nat" where
  "byte_count_rounded n = size_add (size_sub n 1 div SIZE_T_BYTES) 1"

text \<open>The size of the header is 16, and the union of the data has 16 bytes.\<close>

definition calculate_bytes_to_allocate :: "nat \<Rightarrow> nat" where
  "calculate_bytes_to_allocate count = size_add 32 (size_mult (size_sub count 1) SIZE_T_BYTES)"

definition read_fragment :: "amqp__memory_block_t \<Rightarrow> nat \<Rightarrow> uint64 run" where
  "read_fragment block i =
    (let p = size_mult i SIZE_T_BYTES
     in if p + SIZE_T_BYTES \<le> length (block_data block)
        then Ret (word_of_bytes (take SIZE_T_BYTES (drop p (block_data block))))
        else Fault BadMemory)"

definition write_bytes :: "byte list \<Rightarrow> nat \<Rightarrow> byte list \<Rightarrow> byte list run" where
  "write_bytes mem p bs =
    (if p + length bs \<le> length mem then Ret (take p mem @ bs @ drop (p + length bs) mem) else Fault BadMemory)"

definition write_block :: "amqp__memory_block_t \<Rightarrow> nat \<Rightarrow> byte list \<Rightarrow> amqp__memory_block_t run" where
  "write_block block p bs =
     run_bind (write_bytes (block_data block) p bs) (\<lambda>mem. Ret (block\<lparr>block_data := mem\<rparr>))"

definition le_bytes :: "uint64 \<Rightarrow> byte list" where
  "le_bytes w = rev (be_bytes 8 w)"

definition save_guard_mask :: "amqp__memory_block_t \<Rightarrow> nat \<Rightarrow> amqp__memory_block_t run" where
  "save_guard_mask block count =
     write_block (block\<lparr>block_count := count, block_mask := memory_mask\<rparr>) (size_mult count SIZE_T_BYTES)
       (le_bytes (memory_mask XOR word_of_nat count))"

section \<open>Operations\<close>

definition new_bytes :: "amqp_memory_t \<Rightarrow> nat \<Rightarrow> byte list" where
  "new_bytes m n = map (uninitialized m) [0..<n]"

text \<open>The argument \<open>context\<close> tells whether the context pointer is set.\<close>

definition amqp__malloc :: "bool \<Rightarrow> amqp_memory_t \<Rightarrow> nat \<Rightarrow> (nat \<times> amqp_memory_t) run" where
  "amqp__malloc context m n =
    (let count = byte_count_rounded n;
         p = next_address m;
         block = \<lparr>block_count = 0, block_mask = 0,
                  block_data = new_bytes m (calculate_bytes_to_allocate count - 16)\<rparr>;
         m = m\<lparr>next_address := Suc p\<rparr>;
         m = (if context then m\<lparr>outstanding_allocations := outstanding_allocations m + 1,
                                total_allocation_calls := total_allocation_calls m + 1\<rparr> else m)
     in run_bind (save_guard_mask block count) (\<lambda>block.
        run_bind (write_block block 0 (replicate (size_mult count SIZE_T_BYTES) 0)) (\<lambda>block.
        Ret (p, m\<lparr>memory_blocks := (memory_blocks m)(p \<mapsto> block)\<rparr>))))"

definition amqp_malloc_array :: "bool \<Rightarrow> amqp_memory_t \<Rightarrow> nat \<Rightarrow> int \<Rightarrow> (nat \<times> amqp_memory_t) run" where
  "amqp_malloc_array context m n count = amqp__malloc context m (size_mult n (nat (count mod 2 ^ 64)))"

definition calculate_block_start :: "amqp_memory_t \<Rightarrow> nat \<Rightarrow> amqp__memory_block_t run" where
  "calculate_block_start m p = (case memory_blocks m p of None \<Rightarrow> Fault BadMemory | Some block \<Rightarrow> Ret block)"

definition assert_leading_guard_correct :: "amqp__memory_block_t \<Rightarrow> unit run" where
  "assert_leading_guard_correct block = (if block_mask block \<noteq> memory_mask then Fault Aborted else Ret ())"

definition assert_trailing_guard_correct :: "amqp__memory_block_t \<Rightarrow> unit run" where
  "assert_trailing_guard_correct block =
     run_bind (read_fragment block (block_count block)) (\<lambda>w.
     if w \<noteq> memory_mask XOR word_of_nat (block_count block) then Fault Aborted else Ret ())"

text \<open>A block that has to grow moves.\<close>

definition amqp_realloc :: "bool \<Rightarrow> amqp_memory_t \<Rightarrow> nat \<Rightarrow> nat \<Rightarrow> (nat \<times> amqp_memory_t) run" where
  "amqp_realloc context m p n =
     run_bind (calculate_block_start m p) (\<lambda>old_block.
     run_bind (assert_leading_guard_correct old_block) (\<lambda>_.
     run_bind (assert_trailing_guard_correct old_block) (\<lambda>_.
     let old_count = block_count old_block;
         count = byte_count_rounded n
     in if count \<le> old_count then Ret (p, m)
        else
          let q = next_address m;
              size' = calculate_bytes_to_allocate count - 16;
              block = old_block\<lparr>block_data := take size' (block_data old_block)
                                  @ drop (length (block_data old_block)) (new_bytes m size')\<rparr>;
              m = m\<lparr>memory_blocks := (memory_blocks m)(p := None), next_address := Suc q\<rparr>
          in run_bind (write_block block (size_mult old_count SIZE_T_BYTES)
                         (replicate (size_mult (count - old_count) SIZE_T_BYTES) 0)) (\<lambda>block.
             let m = (if context then m\<lparr>total_allocation_calls := total_allocation_calls m + 1\<rparr> else m)
             in run_bind (save_guard_mask block count) (\<lambda>block.
                Ret (q, m\<lparr>memory_blocks := (memory_blocks m)(q \<mapsto> block)\<rparr>))))))"

definition amqp__free :: "bool \<Rightarrow> amqp_memory_t \<Rightarrow> nat option \<Rightarrow> amqp_memory_t run" where
  "amqp__free context m ptr =
    (case ptr of
       None \<Rightarrow> Ret m
     | Some p \<Rightarrow>
         run_bind (calculate_block_start m p) (\<lambda>block.
         run_bind (assert_leading_guard_correct block) (\<lambda>_.
         run_bind (assert_trailing_guard_correct block) (\<lambda>_.
         let m = (if context then m\<lparr>outstanding_allocations := outstanding_allocations m - 1\<rparr> else m)
         in Ret (m\<lparr>memory_blocks := (memory_blocks m)(p := None)\<rparr>)))))"

definition amqp_duplicate :: "bool \<Rightarrow> amqp_memory_t \<Rightarrow> byte list \<Rightarrow> (nat \<times> amqp_memory_t) run" where
  "amqp_duplicate context m bytes =
     run_bind (amqp__malloc context m (length bytes)) (\<lambda>(p, m).
     run_bind (calculate_block_start m p) (\<lambda>block.
     run_bind (write_block block 0 bytes) (\<lambda>block.
     Ret (p, m\<lparr>memory_blocks := (memory_blocks m)(p \<mapsto> block)\<rparr>))))"

text \<open>The bytes of a C string up to its terminator.\<close>

definition amqp_duplicate_cstr :: "bool \<Rightarrow> amqp_memory_t \<Rightarrow> byte list \<Rightarrow> (nat \<times> amqp_memory_t) run" where
  "amqp_duplicate_cstr context m s = amqp_duplicate context m (takeWhile (\<lambda>c. c \<noteq> 0) s)"

definition amqp_check_allocation_count :: "amqp_memory_t \<Rightarrow> bool" where
  "amqp_check_allocation_count m \<longleftrightarrow> outstanding_allocations m = 0"

section \<open>Sizes\<close>

lemma size_sub_small [simp]: "b \<le> a \<Longrightarrow> a < 2 ^ 64 \<Longrightarrow> size_sub a b = a - b"
proof -
  assume b: "b \<le> a" and a: "a < 2 ^ 64"
  then have "a + (2 ^ 64 - b) = (a - b) + 2 ^ 64" by simp
  moreover have "(a - b) mod 2 ^ 64 = a - b" using a by (intro mod_less) simp
  ultimately show ?thesis unfolding size_sub_def by simp
qed

lemma size_mult_small [simp]: "a * b < 2 ^ 64 \<Longrightarrow> size_mult a b = a * b"
  by (simp add: size_mult_def)

text \<open>Sizes up to \<open>2 ^ 63\<close> are rounded up to a multiple of 8 without wrap-around.\<close>

lemma rounded:
  assumes "0 < n" and "n \<le> 2 ^ 63"
  shows "byte_count_rounded n = (n - 1) div 8 + 1" and "n \<le> 8 * byte_count_rounded n"
    and "8 * byte_count_rounded n < n + 8" and "byte_count_rounded n \<le> 2 ^ 60"
proof -
  have "size_sub n 1 = n - 1" using assms by (intro size_sub_small) simp_all
  moreover have "(n - 1) div 8 < 2 ^ 60" using assms by (intro less_mult_imp_div_less) simp
  ultimately show r: "byte_count_rounded n = (n - 1) div 8 + 1" by (simp add: byte_count_rounded_def SIZE_T_BYTES_def)
  show "byte_count_rounded n \<le> 2 ^ 60" using \<open>(n - 1) div 8 < 2 ^ 60\<close> unfolding r by simp
  define q k where "q = (n - 1) div 8" and "k = (n - 1) mod 8"
  have "n - 1 = q * 8 + k" "k < 8" by (simp_all add: q_def k_def)
  then have d: "n = q * 8 + k + 1" "k < 8" using assms(1) by simp_all
  show "n \<le> 8 * byte_count_rounded n" unfolding r q_def [symmetric] using d by simp
  show "8 * byte_count_rounded n < n + 8" unfolding r q_def [symmetric] using d by simp
qed

lemma bytes_to_allocate:
  assumes "0 < c" and "c \<le> 2 ^ 60"
  shows "calculate_bytes_to_allocate c - 16 = 8 * c + 8"
proof -
  have "size_sub c 1 = c - 1" using assms by (intro size_sub_small) simp_all
  moreover have "size_mult (c - 1) 8 = (c - 1) * 8" using assms by (intro size_mult_small) simp
  ultimately show ?thesis using assms by (simp add: calculate_bytes_to_allocate_def SIZE_T_BYTES_def)
qed

lemma rounded_bytes [simp]:
  "0 < n \<Longrightarrow> n \<le> 2 ^ 63 \<Longrightarrow> calculate_bytes_to_allocate (byte_count_rounded n) - 16 = 8 * byte_count_rounded n + 8"
  using rounded [of n] by (intro bytes_to_allocate) simp_all

lemma fragment_offset [simp]: "c \<le> 2 ^ 60 \<Longrightarrow> size_mult c SIZE_T_BYTES = 8 * c"
  by (simp add: SIZE_T_BYTES_def)

section \<open>Guards\<close>

lemma length_le_bytes [simp]: "length (le_bytes w) = 8"
  by (simp add: le_bytes_def)

lemma word_of_le_bytes [simp]: "word_of_bytes (le_bytes w) = w"
  unfolding le_bytes_def by (rule word_of_be_bytes) simp

text \<open>
  A block is intact when both guards are in place. The payload is the part the client may use.
\<close>

definition payload :: "amqp__memory_block_t \<Rightarrow> byte list" where
  "payload block = take (8 * block_count block) (block_data block)"

definition intact :: "amqp__memory_block_t \<Rightarrow> bool" where
  "intact block \<longleftrightarrow> 0 < block_count block \<and> block_count block \<le> 2 ^ 60 \<and> block_mask block = memory_mask
     \<and> block_data block = payload block @ le_bytes (memory_mask XOR word_of_nat (block_count block))
     \<and> length (block_data block) = 8 * block_count block + 8"

lemma save_guard_ok:
  assumes "length (block_data block) = 8 * c + 8" and "c \<le> 2 ^ 60"
  shows "save_guard_mask block c = Ret (block\<lparr>block_count := c, block_mask := memory_mask,
    block_data := take (8 * c) (block_data block) @ le_bytes (memory_mask XOR word_of_nat c)\<rparr>)"
  using assms by (simp add: save_guard_mask_def write_block_def write_bytes_def)

lemma intact_guards:
  assumes "intact block"
  shows "assert_leading_guard_correct block = Ret ()" and "assert_trailing_guard_correct block = Ret ()"
proof -
  show "assert_leading_guard_correct block = Ret ()"
    using assms by (simp add: intact_def assert_leading_guard_correct_def)
  let ?c = "block_count block" and ?w = "memory_mask XOR word_of_nat (block_count block)"
  have len: "length (payload block) = 8 * ?c" using assms by (simp add: intact_def payload_def)
  have "block_data block = payload block @ le_bytes ?w" "?c \<le> 2 ^ 60" using assms by (simp_all add: intact_def)
  then have "read_fragment block ?c = Ret ?w"
    using len by (simp add: read_fragment_def Let_def) (simp add: SIZE_T_BYTES_def)
  then show "assert_trailing_guard_correct block = Ret ()" by (simp add: assert_trailing_guard_correct_def)
qed

section \<open>The invariant of the memory\<close>

definition memory_ok :: "amqp_memory_t \<Rightarrow> bool" where
  "memory_ok m \<longleftrightarrow> finite (dom (memory_blocks m)) \<and> (\<forall>p \<in> dom (memory_blocks m). p < next_address m)
     \<and> (\<forall>p block. memory_blocks m p = Some block \<longrightarrow> intact block)
     \<and> outstanding_allocations m = word_of_nat (card (dom (memory_blocks m)))"

lemma memory_okD:
  assumes "memory_ok m"
  shows "memory_blocks m (next_address m) = None" and "finite (dom (memory_blocks m))"
    and "memory_blocks m p = Some block \<Longrightarrow> intact block" and "memory_blocks m p = Some block \<Longrightarrow> p < next_address m"
  using assms by (auto simp: memory_ok_def dom_def)

text \<open>Memory of \<open>n\<close> bytes, all zero, behind intact guards.\<close>

definition zero_block :: "nat \<Rightarrow> amqp__memory_block_t" where
  "zero_block c = \<lparr>block_count = c, block_mask = memory_mask,
     block_data = replicate (8 * c) 0 @ le_bytes (memory_mask XOR word_of_nat c)\<rparr>"

lemma zero_block_intact: "0 < c \<Longrightarrow> c \<le> 2 ^ 60 \<Longrightarrow> intact (zero_block c)"
  by (simp add: intact_def zero_block_def payload_def)

lemma malloc_run:
  assumes "0 < n" and "n \<le> 2 ^ 63"
  shows "amqp__malloc True m n = Ret (next_address m, m\<lparr>
    memory_blocks := (memory_blocks m)(next_address m \<mapsto> zero_block (byte_count_rounded n)),
    next_address := Suc (next_address m), outstanding_allocations := outstanding_allocations m + 1,
    total_allocation_calls := total_allocation_calls m + 1\<rparr>)"
proof -
  let ?c = "byte_count_rounded n"
  have c: "?c \<le> 2 ^ 60" using rounded(4) [OF assms] .
  show ?thesis
    using assms c by (simp add: amqp__malloc_def Let_def save_guard_ok new_bytes_def write_block_def write_bytes_def
        zero_block_def)
qed

lemma insert_ok:
  assumes "memory_ok m" and "p = next_address m" and "intact block" and "q = Suc p"
    and "out = outstanding_allocations m + 1"
  shows "memory_ok (m\<lparr>memory_blocks := (memory_blocks m)(p \<mapsto> block), next_address := q,
    outstanding_allocations := out, total_allocation_calls := calls\<rparr>)"
proof -
  let ?d = "dom (memory_blocks m)"
  have "p \<notin> ?d" "finite ?d" using memory_okD(1,2) [OF assms(1)] assms(2) by auto
  then have "out = word_of_nat (card (insert p ?d))" using assms(1,5) by (simp add: memory_ok_def)
  then show ?thesis using assms(1-4) by (auto simp: memory_ok_def less_Suc_eq split: if_splits)
qed

lemma malloc_ok:
  assumes "memory_ok m" and "0 < n" and "n \<le> 2 ^ 63"
  shows "\<exists>p m' block. amqp__malloc True m n = Ret (p, m') \<and> memory_ok m' \<and> memory_blocks m p = None
    \<and> memory_blocks m' = (memory_blocks m)(p \<mapsto> block) \<and> n \<le> length (payload block)
    \<and> list_all (\<lambda>x. x = 0) (payload block)"
proof -
  let ?c = "byte_count_rounded n"
  have c: "0 < ?c" "?c \<le> 2 ^ 60" "n \<le> 8 * ?c" using rounded [OF assms(2,3)] by simp_all
  have "payload (zero_block ?c) = replicate (8 * ?c) 0" by (simp add: payload_def zero_block_def)
  then have "n \<le> length (payload (zero_block ?c))" "list_all (\<lambda>x. x = 0) (payload (zero_block ?c))"
    using c by (simp_all add: list_all_iff)
  then show ?thesis
    using malloc_run [OF assms(2,3), of m] memory_okD(1) [OF assms(1)]
      insert_ok [OF assms(1) refl zero_block_intact [OF c(1,2)] refl refl]
    by (simp, intro exI [of _ "zero_block ?c"]) simp
qed

lemma free_ok:
  assumes m: "memory_ok m" and p: "memory_blocks m p = Some block"
  shows "\<exists>m'. amqp__free True m (Some p) = Ret m' \<and> memory_ok m' \<and> memory_blocks m' = (memory_blocks m)(p := None)"
proof -
  have i: "intact block" using memory_okD(3) [OF m p] .
  let ?d = "dom (memory_blocks m)"
  have "p \<in> ?d" "finite ?d" using p memory_okD(2) [OF m] by auto
  then have "card ?d = Suc (card (?d - {p}))" by (metis card.remove)
  then have "outstanding_allocations m - 1 = word_of_nat (card (?d - {p}))"
    using m by (simp add: memory_ok_def)
  moreover have "dom ((memory_blocks m)(p := None)) = ?d - {p}" by auto
  ultimately have "memory_ok (m\<lparr>outstanding_allocations := outstanding_allocations m - 1,
      memory_blocks := (memory_blocks m)(p := None)\<rparr>)"
    using m by (simp add: memory_ok_def)
  then show ?thesis
    using intact_guards [OF i] p by (simp add: amqp__free_def calculate_block_start_def)
qed

lemma realloc_ok:
  assumes m: "memory_ok m" and p: "memory_blocks m p = Some block" and n: "0 < n" "n \<le> 2 ^ 63"
  shows "\<exists>q m' block'. amqp_realloc True m p n = Ret (q, m') \<and> memory_ok m'
    \<and> memory_blocks m' = (memory_blocks m)(p := None, q \<mapsto> block') \<and> n \<le> length (payload block')
    \<and> (\<exists>k. payload block' = payload block @ replicate k 0)"
proof -
  let ?c = "byte_count_rounded n" and ?o = "block_count block"
  have i: "intact block" using memory_okD(3) [OF m p] .
  have c: "0 < ?c" "?c \<le> 2 ^ 60" "n \<le> 8 * ?c" using rounded [OF n] by simp_all
  have o: "0 < ?o" "?o \<le> 2 ^ 60" "length (block_data block) = 8 * ?o + 8" "length (payload block) = 8 * ?o"
    using i by (auto simp: intact_def payload_def)
  show ?thesis
  proof (cases "?c \<le> ?o")
    case True
    have "(memory_blocks m)(p := None, p \<mapsto> block) = memory_blocks m" using p by auto
    moreover have "n \<le> length (payload block)" "payload block = payload block @ replicate 0 0" using True c(3) o(4) by simp_all
    moreover have "amqp_realloc True m p n = Ret (p, m)"
      using True intact_guards [OF i] p by (simp add: amqp_realloc_def calculate_block_start_def)
    ultimately show ?thesis using m by metis
  next
    case False
    let ?q = "next_address m"
    let ?b = "block\<lparr>block_count := ?c, block_mask := memory_mask, block_data :=
      payload block @ replicate (8 * ?c - 8 * ?o) 0 @ le_bytes (memory_mask XOR word_of_nat ?c)\<rparr>"
    let ?m = "m\<lparr>next_address := Suc ?q, total_allocation_calls := total_allocation_calls m + 1,
      memory_blocks := (memory_blocks m)(p := None, ?q \<mapsto> ?b)\<rparr>"
    have sz: "calculate_bytes_to_allocate ?c - 16 = 8 * ?c + 8" using n by simp
    have "size_mult (?c - ?o) SIZE_T_BYTES = 8 * (?c - ?o)" using c(2) by (intro fragment_offset) simp
    then have k: "size_mult (?c - ?o) SIZE_T_BYTES = 8 * ?c - 8 * ?o" by (simp add: diff_mult_distrib2)
    have lt: "?o < ?c" using False by simp
    have "amqp_realloc True m p n = Ret (?q, ?m)"
      using False intact_guards [OF i] p c(2) o sz k lt
      by (simp add: amqp_realloc_def calculate_block_start_def Let_def write_block_def write_bytes_def save_guard_ok
          new_bytes_def payload_def)
    moreover have pl: "payload ?b = payload block @ replicate (8 * ?c - 8 * ?o) 0" using o(4) lt by (simp add: payload_def)
    then have "intact ?b" using c o(4) lt by (simp add: intact_def)
    then have "memory_ok ?m"
    proof -
      let ?d = "dom (memory_blocks m)"
      have d: "p \<in> ?d" "finite ?d" "?q \<notin> ?d" using p memory_okD(1,2) [OF m] by auto
      then have "card (insert ?q (?d - {p})) = card ?d"
        by (metis card_Suc_Diff1 card_insert_disjoint finite_Diff DiffD1)
      moreover have "dom ((memory_blocks m)(p := None, ?q \<mapsto> ?b)) = insert ?q (?d - {p})" by auto
      ultimately show ?thesis
        using m \<open>intact ?b\<close> d by (auto simp: memory_ok_def less_Suc_eq split: if_splits)
    qed
    moreover have "n \<le> length (payload ?b)" using c(3) o(4) lt unfolding pl by simp
    ultimately show ?thesis using pl
      by (intro exI [of _ ?q] exI [of _ ?m] exI [of _ ?b]) auto
  qed
qed

text \<open>A client that wrote past its block is stopped when it frees the block.\<close>

lemma overrun_detected:
  assumes i: "intact block" and p: "memory_blocks m p = Some (block\<lparr>block_data := payload block @ bs\<rparr>)"
    and bs: "length bs = 8" "bs \<noteq> le_bytes (memory_mask XOR word_of_nat (block_count block))"
  shows "amqp__free context m (Some p) = Fault Aborted"
proof -
  let ?w = "memory_mask XOR word_of_nat (block_count block)"
  let ?b = "block\<lparr>block_data := payload block @ bs\<rparr>"
  have o: "block_count block \<le> 2 ^ 60" "length (payload block) = 8 * block_count block" "block_mask block = memory_mask"
    using i by (auto simp: intact_def payload_def)
  have "word_of_bytes bs \<noteq> ?w"
  proof
    assume eq: "word_of_bytes bs = ?w"
    have "bs ! k = le_bytes ?w ! k" if "k < 8" for k
    proof (rule bit_word_eqI)
      fix j assume "j < LENGTH(8)"
      have "bit (word_of_bytes xs :: uint64) (8 * k + j) = bit (xs ! k) j" if "length xs = 8" for xs
        using \<open>k < 8\<close> \<open>j < LENGTH(8)\<close> that by (simp add: bit_word_of_bytes)
      from this [OF bs(1)] this [OF length_le_bytes, of ?w] show "bit (bs ! k) j = bit (le_bytes ?w ! k) j"
        by (simp add: eq)
    qed
    then have "bs = le_bytes ?w" using bs(1) by (simp add: list_eq_iff_nth_eq)
    then show False using bs(2) by simp
  qed
  then have "assert_trailing_guard_correct ?b = Fault Aborted"
    using o bs(1) by (simp add: assert_trailing_guard_correct_def read_fragment_def SIZE_T_BYTES_def Let_def)
  then show ?thesis
    using p o by (simp add: amqp__free_def calculate_block_start_def assert_leading_guard_correct_def)
qed

lemma duplicate_ok:
  assumes m: "memory_ok m" and n: "bs \<noteq> []" "length bs \<le> 2 ^ 63"
  shows "\<exists>p m' block. amqp_duplicate True m bs = Ret (p, m') \<and> memory_ok m' \<and> memory_blocks m p = None
    \<and> memory_blocks m' = (memory_blocks m)(p \<mapsto> block) \<and> (\<exists>k. payload block = bs @ replicate k 0)"
proof -
  let ?n = "length bs" and ?p = "next_address m"
  let ?c = "byte_count_rounded ?n"
  have n': "0 < ?n" using n by simp
  have c: "0 < ?c" "?c \<le> 2 ^ 60" "?n \<le> 8 * ?c" using rounded [OF n' n(2)] by simp_all
  let ?b = "(zero_block ?c)\<lparr>block_data := bs @ replicate (8 * ?c - ?n) 0 @ le_bytes (memory_mask XOR word_of_nat ?c)\<rparr>"
  have "write_block (zero_block ?c) 0 bs = Ret ?b" using c by (simp add: write_block_def write_bytes_def zero_block_def)
  moreover have pl: "payload ?b = bs @ replicate (8 * ?c - ?n) 0" using c by (simp add: payload_def zero_block_def)
  moreover have "intact ?b" using c pl by (simp add: intact_def zero_block_def)
  moreover have "memory_ok (m\<lparr>next_address := Suc ?p, outstanding_allocations := outstanding_allocations m + 1,
      total_allocation_calls := total_allocation_calls m + 1, memory_blocks := (memory_blocks m)(?p \<mapsto> ?b)\<rparr>)"
    using insert_ok [OF m refl \<open>intact ?b\<close> refl refl] by (simp add: memory_ok_def)
  ultimately show ?thesis
    using malloc_run [OF n' n(2), of m] memory_okD(1) [OF m]
    by (auto simp: amqp_duplicate_def calculate_block_start_def)
qed

section \<open>The memory is an allocator\<close>

interpretation memory: allocator memory_ok "\<lambda>m. dom (memory_blocks m)" "\<lambda>n. 0 < n \<and> n \<le> 2 ^ 63"
  "\<lambda>n m. amqp__malloc True m n" "\<lambda>m p. amqp__free True m (Some p)" outstanding_allocations
proof
  fix m :: amqp_memory_t and n :: nat
  assume "memory_ok m" and "0 < n \<and> n \<le> 2 ^ 63"
  then show "\<exists>p m'. amqp__malloc True m n = Ret (p, m') \<and> memory_ok m' \<and> p \<notin> dom (memory_blocks m)
      \<and> dom (memory_blocks m') = insert p (dom (memory_blocks m))"
    using malloc_ok [of m n] by fastforce
next
  fix m :: amqp_memory_t and p
  assume "memory_ok m" and "p \<in> dom (memory_blocks m)"
  then show "\<exists>m'. amqp__free True m (Some p) = Ret m' \<and> memory_ok m' \<and> dom (memory_blocks m') = dom (memory_blocks m) - {p}"
    using free_ok [of m p] by fastforce
next
  fix m assume "memory_ok m"
  then show "finite (dom (memory_blocks m)) \<and> outstanding_allocations m = word_of_nat (card (dom (memory_blocks m)))"
    by (simp add: memory_ok_def)
qed

end
