(* ===== verification/Pool.thy ===== *)
theory Pool
  imports Memory
begin

text \<open>
  The object pools of \<^verbatim>\<open>Memory/Pool.c\<close>: blocks of equally sized allocations in a doubly linked list,
  with one bit per allocation that tells whether it is free. A pointer to an allocation, and to
  the object in it, is the address of its block and its index there; a block that the guarded
  memory delivers has a new address. The contents of an object (of any type \<open>'o\<close>) are kept, since
  the pool does not clear an object that it hands out again. The build without
  \<^verbatim>\<open>LIBAMQP_DEBUG_ALLOCATIONS\<close> on a 64 bit little-endian platform is modelled.
\<close>

section \<open>State\<close>

type_synonym object_ptr = "nat \<times> nat"

record 'o amqp_memory_allocation_t =
  header_block :: nat
  header_index :: nat
  leading_guard :: uint32
  trailing_guard :: uint64
  object_data :: 'o

record 'o amqp_memory_block_t =
  header_next :: "nat option"
  header_previous :: "nat option"
  mask_bits :: uint64
  allocations :: "'o amqp_memory_allocation_t list"

text \<open>The blocks of a pool in memory; \<open>blank\<close> is an object in memory that was set to zero.\<close>

record 'o pool_memory =
  pool_blocks :: "nat \<Rightarrow> 'o amqp_memory_block_t option"
  next_pool_block :: nat
  blank :: 'o

record 'o amqp_memory_pool_t =
  block_list :: "nat option"
  allocations_per_block :: int
  allocations_mask :: uint64
  block_size :: nat
  offset_to_first_allocation :: nat
  offset_to_allocation_data :: nat
  object_size_in_fragments :: nat
  allocation_size_in_bytes :: nat
  stats_outstanding_allocations :: uint64
  stats_total_allocation_calls :: uint64
  initialized :: bool
  initializer_callback :: "('o \<Rightarrow> 'o) option"
  destroyer_callback :: "('o \<Rightarrow> 'o) option"
  pool_name :: string

definition LONG_BIT :: nat where "LONG_BIT = 64"

definition MIN_FRAGMENTS :: nat where "MIN_FRAGMENTS = (16 - 1) div SIZE_T_BYTES + 1"

definition leading_mask :: uint32 where "leading_mask = 0x1d32a441"

definition trailing_mask :: uint64 where "trailing_mask = 0x53d0cabf1d2d6c40"

definition All_ONES_MASK :: uint64 where "All_ONES_MASK = - 1"

definition get_block :: "'o pool_memory \<Rightarrow> nat \<Rightarrow> 'o amqp_memory_block_t run" where
  "get_block m b = (case pool_blocks m b of None \<Rightarrow> Fault BadMemory | Some block \<Rightarrow> Ret block)"

definition put_block :: "'o pool_memory \<Rightarrow> nat \<Rightarrow> 'o amqp_memory_block_t \<Rightarrow> 'o pool_memory" where
  "put_block m b block = m\<lparr>pool_blocks := (pool_blocks m)(b \<mapsto> block)\<rparr>"

section \<open>Allocation\<close>

text \<open>The walk along the list; the fuel bounds the number of its blocks.\<close>

primrec find_block_with_free_space :: "nat \<Rightarrow> 'o pool_memory \<Rightarrow> nat option \<Rightarrow> nat option run" where
  "find_block_with_free_space 0 m result = Fault OutOfFuel"
| "find_block_with_free_space (Suc fuel) m result =
    (case result of
       None \<Rightarrow> Ret None
     | Some b \<Rightarrow>
         run_bind (get_block m b) (\<lambda>block.
         if mask_bits block = 0 then find_block_with_free_space fuel m (header_next block) else Ret (Some b)))"

definition allocation_from_index :: "'o amqp_memory_block_t \<Rightarrow> nat \<Rightarrow> 'o amqp_memory_allocation_t run" where
  "allocation_from_index block index =
    (if index < length (allocations block) then Ret (allocations block ! index) else Fault BadMemory)"

definition allocate_block :: "'o pool_memory \<Rightarrow> 'o amqp_memory_pool_t \<Rightarrow> nat \<times> 'o amqp_memory_block_t \<times> 'o pool_memory" where
  "allocate_block m pool =
     (next_pool_block m,
      \<lparr>header_next = None, header_previous = None, mask_bits = 0,
       allocations = replicate (nat (allocations_per_block pool))
         \<lparr>header_block = 0, header_index = 0, leading_guard = 0, trailing_guard = 0, object_data = blank m\<rparr>\<rparr>,
      m\<lparr>next_pool_block := Suc (next_pool_block m)\<rparr>)"

definition allocate_new_memory_block ::
  "'o pool_memory \<Rightarrow> 'o amqp_memory_pool_t \<Rightarrow> (nat \<times> 'o pool_memory \<times> 'o amqp_memory_pool_t) run" where
  "allocate_new_memory_block m pool =
    (let (b, result, m) = allocate_block m pool;
         result = result\<lparr>header_next := block_list pool\<rparr>
     in run_bind (case block_list pool of
           None \<Rightarrow> Ret m
         | Some h \<Rightarrow> run_bind (get_block m h) (\<lambda>next. Ret (put_block m h (next\<lparr>header_previous := Some b\<rparr>)))) (\<lambda>m.
        let result = result\<lparr>header_previous := None,
              mask_bits := All_ONES_MASK AND allocations_mask pool,
              allocations := map (\<lambda>i. (allocations result ! i)\<lparr>header_block := b, header_index := i,
                  leading_guard := leading_mask, trailing_guard := trailing_mask\<rparr>)
                [0..<nat (allocations_per_block pool)]\<rparr>
        in Ret (b, put_block m b result, pool\<lparr>block_list := Some b\<rparr>)))"

text \<open>The loop over the bits of a byte; \<open>n\<close> iterations are left.\<close>

primrec find_first_free_loop :: "nat \<Rightarrow> nat \<Rightarrow> byte \<Rightarrow> byte \<Rightarrow> nat run" where
  "find_first_free_loop 0 i byte msk = Fault Aborted"
| "find_first_free_loop (Suc n) i byte msk =
     (if byte AND msk \<noteq> 0 then Ret i else find_first_free_loop n (Suc i) byte (push_bit 1 msk))"

definition find_first_free_allocation :: "byte \<Rightarrow> nat run" where
  "find_first_free_allocation byte = find_first_free_loop 8 0 byte 1"

text \<open>The bytes of the union with the mask, least significant first.\<close>

definition set_mask_byte :: "uint64 \<Rightarrow> nat \<Rightarrow> byte \<Rightarrow> uint64" where
  "set_mask_byte bits i x = (bits AND NOT (push_bit (8 * i) 0xff)) OR push_bit (8 * i) (ucast x)"

primrec find_free_loop :: "nat \<Rightarrow> nat \<Rightarrow> 'o amqp_memory_block_t \<Rightarrow> (nat \<times> 'o amqp_memory_block_t) run" where
  "find_free_loop 0 i block = Fault Aborted"
| "find_free_loop (Suc n) i block =
    (if LONG_BIT div 8 \<le> i then Fault BadMemory
     else
       let byte = word_byte (mask_bits block) i
       in if byte \<noteq> 0 then
            run_bind (find_first_free_allocation byte) (\<lambda>j.
            run_bind (allocation_from_index block (i * 8 + j)) (\<lambda>free_allocation.
            Ret (i * 8 + j, block\<lparr>mask_bits := set_mask_byte (mask_bits block) i (byte AND NOT (push_bit j 1))\<rparr>)))
          else find_free_loop n (Suc i) block)"

definition find_free_allocation_within_block ::
  "'o amqp_memory_pool_t \<Rightarrow> 'o amqp_memory_block_t \<Rightarrow> (nat \<times> 'o amqp_memory_block_t) run" where
  "find_free_allocation_within_block pool block =
     run_assert (mask_bits block \<noteq> 0) (find_free_loop (nat (allocations_per_block pool) div 8 + 1) 0 block)"

definition allocate_object ::
  "'o pool_memory \<Rightarrow> 'o amqp_memory_pool_t \<Rightarrow> (object_ptr \<times> 'o pool_memory \<times> 'o amqp_memory_pool_t) run" where
  "allocate_object m pool =
     run_bind (find_block_with_free_space (Suc (next_pool_block m)) m (block_list pool)) (\<lambda>found.
     run_bind (case found of Some b \<Rightarrow> Ret (b, m, pool) | None \<Rightarrow> allocate_new_memory_block m pool) (\<lambda>(b, m, pool).
     run_bind (get_block m b) (\<lambda>block.
     run_bind (find_free_allocation_within_block pool block) (\<lambda>(index, block).
     run_bind (allocation_from_index block index) (\<lambda>free_allocation.
     if header_block free_allocation \<noteq> b then Fault Aborted
     else Ret ((b, index), put_block m b block, pool))))))"

text \<open>A callback works on the object in place.\<close>

definition call_on_object :: "('o \<Rightarrow> 'o) \<Rightarrow> object_ptr \<Rightarrow> 'o pool_memory \<Rightarrow> 'o pool_memory run" where
  "call_on_object f p m =
     run_bind (get_block m (fst p)) (\<lambda>block.
     run_bind (allocation_from_index block (snd p)) (\<lambda>allocation.
     Ret (put_block m (fst p) (block\<lparr>allocations := (allocations block)[snd p := object_data_update f allocation]\<rparr>))))"

definition amqp__allocate ::
  "'o pool_memory \<times> 'o amqp_memory_pool_t \<Rightarrow> (object_ptr \<times> 'o pool_memory \<times> 'o amqp_memory_pool_t) run" where
  "amqp__allocate = (\<lambda>(m, pool).
     run_assert (initialized pool)
       (case initializer_callback pool of
          None \<Rightarrow> Fault AssertFailed
        | Some callback \<Rightarrow>
            run_assert (object_size_in_fragments pool \<noteq> 0)
              (run_bind (allocate_object m pool) (\<lambda>(p, m, pool).
               run_bind (call_on_object callback p m) (\<lambda>m.
               Ret (p, m, pool\<lparr>stats_outstanding_allocations := stats_outstanding_allocations pool + 1,
                               stats_total_allocation_calls := stats_total_allocation_calls pool + 1\<rparr>))))))"

section \<open>Deallocation\<close>

definition unlink_block ::
  "'o pool_memory \<Rightarrow> 'o amqp_memory_pool_t \<Rightarrow> nat \<Rightarrow> ('o pool_memory \<times> 'o amqp_memory_pool_t) run" where
  "unlink_block m pool b =
     run_bind (get_block m b) (\<lambda>block.
     run_bind (case header_next block of
         None \<Rightarrow> Ret m
       | Some q \<Rightarrow> run_bind (get_block m q) (\<lambda>next.
           Ret (put_block m q (next\<lparr>header_previous := header_previous block\<rparr>)))) (\<lambda>m.
     run_bind (case header_previous block of
         Some q \<Rightarrow> run_bind (get_block m q) (\<lambda>previous.
           Ret (put_block m q (previous\<lparr>header_next := header_next block\<rparr>), pool))
       | None \<Rightarrow> Ret (m, pool\<lparr>block_list := header_next block\<rparr>)) (\<lambda>(m, pool).
     Ret (m\<lparr>pool_blocks := (pool_blocks m)(b := None)\<rparr>, pool))))"

definition delete_object ::
  "'o pool_memory \<Rightarrow> 'o amqp_memory_pool_t \<Rightarrow> object_ptr \<Rightarrow> ('o pool_memory \<times> 'o amqp_memory_pool_t) run" where
  "delete_object m pool p =
     run_bind (get_block m (fst p)) (\<lambda>block.
     run_bind (allocation_from_index block (snd p)) (\<lambda>allocation.
     if leading_guard allocation \<noteq> leading_mask then Fault Aborted
     else if trailing_guard allocation \<noteq> trailing_mask then Fault Aborted
     else
       let b = header_block allocation;
           index = header_index allocation;
           i = index div 8;
           j = index mod 8
       in run_bind (get_block m b) (\<lambda>block.
          if LONG_BIT div 8 \<le> i then Fault BadMemory
          else
            let block = block\<lparr>mask_bits := set_mask_byte (mask_bits block) i
                                (word_byte (mask_bits block) i OR push_bit j 1)\<rparr>;
                m = put_block m b block
            in if NOT (mask_bits block) AND allocations_mask pool = 0 then unlink_block m pool b
               else Ret (m, pool))))"

definition amqp_deallocate ::
  "'o pool_memory \<times> 'o amqp_memory_pool_t \<Rightarrow> object_ptr option \<Rightarrow> ('o pool_memory \<times> 'o amqp_memory_pool_t) run" where
  "amqp_deallocate = (\<lambda>(m, pool) pooled_object.
    (case destroyer_callback pool of
       None \<Rightarrow> Fault AssertFailed
     | Some callback \<Rightarrow>
         (case pooled_object of
            None \<Rightarrow> Ret (m, pool)
          | Some p \<Rightarrow>
              run_bind (call_on_object callback p m) (\<lambda>m.
              run_bind (delete_object m pool p) (\<lambda>(m, pool).
              Ret (m, pool\<lparr>stats_outstanding_allocations := stats_outstanding_allocations pool - 1\<rparr>))))))"

section \<open>Initialization\<close>

definition preferred_block_size :: nat where
  "preferred_block_size = (if LONG_BIT > 32 then 2048 else 1024)"

partial_function (option) adjust_block_size_loop :: "nat \<Rightarrow> nat \<Rightarrow> nat option" where
  "adjust_block_size_loop wanted size' =
    (let next_size = size' div 2
     in if next_size < wanted then Some size' else adjust_block_size_loop wanted next_size)"

definition adjust_block_size :: "nat \<Rightarrow> nat option" where
  "adjust_block_size wanted = adjust_block_size_loop wanted (preferred_block_size * 2)"

text \<open>The headers of a block and of an allocation, with the padding before the data.\<close>

definition calculate_block_offset_to_first_allocation :: nat where
  "calculate_block_offset_to_first_allocation = 32"

definition calculate_offset_to_allocation_data :: nat where
  "calculate_offset_to_allocation_data = 16"

definition byte_count_rounded_to_size_t_array_size :: "nat \<Rightarrow> nat" where
  "byte_count_rounded_to_size_t_array_size n =
    (let result = size_add (size_sub n 1 div SIZE_T_BYTES) 1
     in if result < MIN_FRAGMENTS then MIN_FRAGMENTS else result)"

definition calculate_allocation_t_size_in_bytes :: "'o amqp_memory_pool_t \<Rightarrow> nat" where
  "calculate_allocation_t_size_in_bytes pool =
    (let count = size_add (object_size_in_fragments pool) 1
     in size_add (offset_to_allocation_data pool) (size_mult count SIZE_T_BYTES))"

text \<open>The quotient is stored in an \<open>int\<close>.\<close>

definition fitting_allocations :: "'o amqp_memory_pool_t \<Rightarrow> int" where
  "fitting_allocations pool =
     sint (word_of_nat (size_sub (block_size pool) (offset_to_first_allocation pool)
                        div allocation_size_in_bytes pool) :: uint32)"

partial_function (option) fit_block_loop :: "'o amqp_memory_pool_t \<Rightarrow> 'o amqp_memory_pool_t option" where
  "fit_block_loop pool =
    (let pool = pool\<lparr>allocations_per_block := fitting_allocations pool\<rparr>
     in if allocations_per_block pool > int LONG_BIT
        then fit_block_loop (pool\<lparr>block_size := block_size pool div 2\<rparr>)
        else Some pool)"

definition default_callback :: "'o \<Rightarrow> 'o" where
  "default_callback object = object"

text \<open>A shift by the width of the operand or more is not defined in C.\<close>

definition initialize_mask :: "'o amqp_memory_pool_t \<Rightarrow> 'o amqp_memory_pool_t run" where
  "initialize_mask pool =
    (if 0 \<le> allocations_per_block pool \<and> allocations_per_block pool < int LONG_BIT
     then Ret (pool\<lparr>allocations_mask := (push_bit (nat (allocations_per_block pool)) 1 AND NOT 1) - 1\<rparr>)
     else Fault BadMemory)"

definition amqp_initialize_pool_suggesting_block_size ::
  "nat \<Rightarrow> nat \<Rightarrow> string \<Rightarrow> 'o amqp_memory_pool_t run option" where
  "amqp_initialize_pool_suggesting_block_size pooled_object_size suggested_block_size name =
    (case adjust_block_size suggested_block_size of
       None \<Rightarrow> None
     | Some bs \<Rightarrow>
         let pool = \<lparr>block_list = None, allocations_per_block = 0, allocations_mask = 0, block_size = bs,
               offset_to_first_allocation = calculate_block_offset_to_first_allocation,
               offset_to_allocation_data = calculate_offset_to_allocation_data,
               object_size_in_fragments = byte_count_rounded_to_size_t_array_size pooled_object_size,
               allocation_size_in_bytes = 0, stats_outstanding_allocations = 0, stats_total_allocation_calls = 0,
               initialized = False, initializer_callback = None, destroyer_callback = None, pool_name = []\<rparr>;
             pool = pool\<lparr>allocation_size_in_bytes := calculate_allocation_t_size_in_bytes pool\<rparr>
         in case fit_block_loop pool of
              None \<Rightarrow> None
            | Some pool \<Rightarrow> Some (run_bind (initialize_mask pool) (\<lambda>pool.
                Ret (pool\<lparr>initializer_callback := Some default_callback, destroyer_callback := Some default_callback,
                          pool_name := name, initialized := True\<rparr>))))"

definition amqp_initialize_pool :: "nat \<Rightarrow> string \<Rightarrow> 'o amqp_memory_pool_t run option" where
  "amqp_initialize_pool pooled_object_size name =
     amqp_initialize_pool_suggesting_block_size pooled_object_size preferred_block_size name"

definition amqp_pool_specify_initialization_callbacks ::
  "'o amqp_memory_pool_t \<Rightarrow> ('o \<Rightarrow> 'o) option \<Rightarrow> ('o \<Rightarrow> 'o) option \<Rightarrow> 'o amqp_memory_pool_t run" where
  "amqp_pool_specify_initialization_callbacks pool init destroy =
     run_assert (initialized pool) (run_assert (stats_total_allocation_calls pool = 0)
       (Ret (pool\<lparr>initializer_callback := init, destroyer_callback := destroy\<rparr>)))"

definition amqp_check_pool_is_empty :: "'o amqp_memory_pool_t \<Rightarrow> bool" where
  "amqp_check_pool_is_empty pool \<longleftrightarrow> stats_outstanding_allocations pool = 0"

section \<open>The bits of the mask\<close>

lemma bit_set_mask_byte:
  assumes "i < 8"
  shows "bit (set_mask_byte bits i x) n \<longleftrightarrow>
    (if 8 * i \<le> n \<and> n < 8 * i + 8 then bit x (n - 8 * i) else bit bits n)"
proof -
  have m: "push_bit (8 * i) (0xff :: uint64) = push_bit (8 * i) (mask 8)" by (simp add: mask_eq_exp_minus_1)
  have x: "bit x (n - 8 * i) \<Longrightarrow> n - 8 * i < 8" using bit_imp_le_length [of x "n - 8 * i"] by simp
  have "bit bits n \<Longrightarrow> n < 64" using bit_imp_le_length [of bits n] by simp
  with x show ?thesis
    using assms unfolding set_mask_byte_def m by (auto simp: bit_simps simp del: push_bit_mask_eq)
qed

lemma same_byte: "8 * i \<le> n \<Longrightarrow> n < 8 * i + 8 \<Longrightarrow> j < 8 \<Longrightarrow> n - 8 * i = j \<longleftrightarrow> n = i * 8 + (j :: nat)"
  by auto

lemma clear_mask_bit:
  assumes "i < 8" and "j < 8"
  shows "bit (set_mask_byte bits i (word_byte bits i AND NOT (push_bit j 1))) n \<longleftrightarrow> bit bits n \<and> n \<noteq> i * 8 + j"
  using assms same_byte [of i n j] by (auto simp: bit_set_mask_byte bit_word_byte bit_simps)

lemma set_mask_bit:
  assumes "i < 8" and "j < 8"
  shows "bit (set_mask_byte bits i (word_byte bits i OR push_bit j 1)) n \<longleftrightarrow> bit bits n \<or> n = i * 8 + j"
  using assms same_byte [of i n j] by (auto simp: bit_set_mask_byte bit_word_byte bit_simps)

lemma first_free_loop:
  "k + i = 8 \<Longrightarrow> \<exists>j\<ge>i. bit byte j \<Longrightarrow>
   \<exists>j. find_first_free_loop k i byte (push_bit i 1) = Ret j \<and> j < 8 \<and> bit byte j"
proof (induction k arbitrary: i)
  case 0
  then show ?case using bit_imp_le_length [of byte] by fastforce
next
  case (Suc k)
  have i: "byte AND push_bit i 1 \<noteq> 0 \<longleftrightarrow> bit byte i"
    using Suc.prems(1) by (simp add: bit_iff_and_push_bit_not_eq_0)
  have p: "push_bit (Suc i) 1 = push_bit 1 (push_bit i (1 :: byte))" by simp
  show ?case
  proof (cases "bit byte i")
    case True
    then show ?thesis using i Suc.prems(1) by simp
  next
    case False
    then have "\<exists>j\<ge>Suc i. bit byte j" using Suc.prems(2) by (metis Suc_le_eq le_neq_implies_less)
    then show ?thesis using Suc.IH [of "Suc i"] Suc.prems(1) i False by (simp add: p mult.commute)
  qed
qed

lemma first_free: "byte \<noteq> 0 \<Longrightarrow> \<exists>j. find_first_free_allocation byte = Ret j \<and> j < 8 \<and> bit byte j"
proof -
  assume "byte \<noteq> 0"
  then have "\<exists>j\<ge>0. bit byte j" using bit_eq_iff [of byte 0] by auto
  then show ?thesis using first_free_loop [of 8 0 byte] by (simp add: find_first_free_allocation_def)
qed

lemma free_loop:
  fixes block :: "'o amqp_memory_block_t"
  assumes "\<exists>k. bit (mask_bits block) k \<and> 8 * i \<le> k \<and> k < 8 * (i + n)" and "i + n \<le> 8"
    and "\<forall>k. bit (mask_bits block) k \<longrightarrow> k < length (allocations block)"
  shows "\<exists>k bits. find_free_loop n i block = Ret (k, block\<lparr>mask_bits := bits\<rparr>) \<and> bit (mask_bits block) k
    \<and> (\<forall>x. bit bits x \<longleftrightarrow> bit (mask_bits block) x \<and> x \<noteq> k)"
  using assms
proof (induction n arbitrary: i)
  case (Suc n)
  have i: "i < 8" using Suc.prems(2) by simp
  show ?case
  proof (cases "word_byte (mask_bits block) i = 0")
    case True
    have "\<not> bit (mask_bits block) (8 * i + j)" if "j < 8" for j
      using that arg_cong [OF True, of "\<lambda>w. bit w j"] by (simp add: bit_word_byte)
    moreover obtain k where k: "bit (mask_bits block) k" "8 * i \<le> k" "k < 8 * (i + Suc n)" using Suc.prems(1) by blast
    ultimately have "8 * Suc i \<le> k" by (metis add_less_cancel_left le_add_diff_inverse mult_Suc_right not_less add.commute)
    then have "\<exists>k. bit (mask_bits block) k \<and> 8 * Suc i \<le> k \<and> k < 8 * (Suc i + n)" using k by auto
    then show ?thesis using Suc.IH [of "Suc i"] Suc.prems True i by (simp add: LONG_BIT_def)
  next
    case False
    then obtain j where j: "find_first_free_allocation (word_byte (mask_bits block) i) = Ret j" "j < 8"
      "bit (word_byte (mask_bits block) i) j" using first_free by blast
    then have b: "bit (mask_bits block) (i * 8 + j)" by (simp add: bit_word_byte mult.commute)
    then show ?thesis
      using False j i Suc.prems(3) clear_mask_bit [OF i j(2)]
      by (auto simp: LONG_BIT_def allocation_from_index_def Let_def)
  qed
qed auto

section \<open>The list of blocks\<close>

text \<open>
  A segment of the doubly linked list: it starts at \<open>p\<close> with the link \<open>prev\<close> back, and goes on at
  \<open>q\<close>, where the link back is \<open>last\<close>.
\<close>

fun segment :: "'o pool_memory \<Rightarrow> nat option \<Rightarrow> nat option \<Rightarrow> nat list \<Rightarrow> nat option \<Rightarrow> nat option \<Rightarrow> bool" where
  "segment m prev p [] final q = (prev = final \<and> p = q)"
| "segment m prev p (b # bs) final q =
     (p = Some b \<and> (case pool_blocks m b of
        None \<Rightarrow> False
      | Some block \<Rightarrow> header_previous block = prev \<and> segment m (Some b) (header_next block) bs final q))"

lemma segment_append:
  "segment m prev p (xs @ ys) final q \<longleftrightarrow> (\<exists>r s. segment m prev p xs r s \<and> segment m r s ys final q)"
  by (induction xs arbitrary: prev p) (auto split: option.splits)

lemma segment_cong:
  assumes "\<And>b. b \<in> set bs \<Longrightarrow> map_option (\<lambda>x. (header_previous x, header_next x)) (pool_blocks m' b)
      = map_option (\<lambda>x. (header_previous x, header_next x)) (pool_blocks m b)"
  shows "segment m' prev p bs final q \<longleftrightarrow> segment m prev p bs final q"
  using assms
proof (induction bs arbitrary: prev p)
  case (Cons b bs)
  have "map_option (\<lambda>x. (header_previous x, header_next x)) (pool_blocks m' b)
      = map_option (\<lambda>x. (header_previous x, header_next x)) (pool_blocks m b)" using Cons.prems by simp
  moreover have "segment m' prev p bs final q \<longleftrightarrow> segment m prev p bs final q" for prev p
    using Cons.IH Cons.prems by simp
  ultimately show ?case by (cases "pool_blocks m b"; cases "pool_blocks m' b") auto
qed simp

lemma segment_blocks: "segment m prev p bs final q \<Longrightarrow> b \<in> set bs \<Longrightarrow> \<exists>block. pool_blocks m b = Some block"
  by (induction bs arbitrary: prev p) (auto split: option.splits)

lemma find_block_ok:
  "segment m prev p bs final None \<Longrightarrow> length bs < fuel \<Longrightarrow>
   \<exists>r. find_block_with_free_space fuel m p = Ret r \<and>
     (case r of None \<Rightarrow> True | Some b \<Rightarrow> b \<in> set bs \<and> (\<exists>block. pool_blocks m b = Some block \<and> mask_bits block \<noteq> 0))"
proof (induction bs arbitrary: prev p fuel)
  case Nil
  then show ?case by (cases fuel) auto
next
  case (Cons b bs)
  then obtain f block where f: "fuel = Suc f" "length bs < f" "p = Some b" "pool_blocks m b = Some block"
    "segment m (Some b) (header_next block) bs final None"
    by (cases fuel) (auto split: option.splits)
  show ?case
  proof (cases "mask_bits block = 0")
    case True
    obtain r where "find_block_with_free_space f m (header_next block) = Ret r"
      "case r of None \<Rightarrow> True | Some b \<Rightarrow> b \<in> set bs \<and> (\<exists>block. pool_blocks m b = Some block \<and> mask_bits block \<noteq> 0)"
      using Cons.IH [OF f(5,2)] by blast
    then show ?thesis using f True by (auto simp: get_block_def split: option.splits)
  qed (use f in \<open>simp add: get_block_def\<close>)
qed

text \<open>Taking a block out of the list.\<close>

lemma unlink_ok:
  fixes m :: "'o pool_memory"
  assumes seg: "segment m None (block_list pool) (xs @ b # ys) final None" and d: "distinct (xs @ b # ys)"
  shows "\<exists>m' pool' final'. unlink_block m pool b = Ret (m', pool') \<and> segment m' None (block_list pool') (xs @ ys) final' None
    \<and> pool' = pool\<lparr>block_list := block_list pool'\<rparr> \<and> pool_blocks m' b = None \<and> next_pool_block m' = next_pool_block m
    \<and> blank m' = blank m
    \<and> (\<forall>x. x \<noteq> b \<longrightarrow> map_option (\<lambda>y. (mask_bits y, allocations y)) (pool_blocks m' x)
         = map_option (\<lambda>y. (mask_bits y, allocations y)) (pool_blocks m x))"
proof -
  obtain r block where sx: "segment m None (block_list pool) xs r (Some b)" and bl: "pool_blocks m b = Some block"
    "header_previous block = r" and sy: "segment m (Some b) (header_next block) ys final None"
    using seg by (auto simp: segment_append split: option.splits)
  obtain m1 where m1: "(case header_next block of None \<Rightarrow> Ret m
       | Some q \<Rightarrow> run_bind (get_block m q) (\<lambda>next. Ret (put_block m q (next\<lparr>header_previous := header_previous block\<rparr>)))) = Ret m1"
    and s1: "\<exists>final'. segment m1 r (header_next block) ys final' None"
    and e1: "\<forall>x. x \<notin> set ys \<longrightarrow> pool_blocks m1 x = pool_blocks m x"
      "next_pool_block m1 = next_pool_block m" "blank m1 = blank m"
      "\<forall>x. map_option (\<lambda>y. (mask_bits y, allocations y)) (pool_blocks m1 x)
         = map_option (\<lambda>y. (mask_bits y, allocations y)) (pool_blocks m x)"
  proof (cases ys)
    case Nil
    then show ?thesis using sy that [of m] by auto
  next
    case (Cons y ys')
    then obtain z where z: "header_next block = Some y" "pool_blocks m y = Some z"
      "segment m (Some y) (header_next z) ys' final None"
      using sy by (auto split: option.splits)
    let ?m = "put_block m y (z\<lparr>header_previous := header_previous block\<rparr>)"
    have "segment ?m (Some y) (header_next z) ys' final None"
      using z(3) d Cons by (subst segment_cong [of _ _ m]) (auto simp: put_block_def)
    then have "\<exists>final'. segment ?m r (header_next block) ys final' None" using z Cons bl(2) by (auto simp: put_block_def)
    then show ?thesis by (rule that [of ?m, rotated]) (use z Cons in \<open>auto simp: get_block_def put_block_def\<close>)
  qed
  have sx1: "segment m1 None (block_list pool) xs r (Some b)"
    using sx d e1(1) by (subst segment_cong [of _ _ m]) auto
  obtain final' where sy1: "segment m1 r (header_next block) ys final' None" using s1 by blast
  show ?thesis
  proof (cases xs rule: rev_cases)
    case Nil
    let ?m = "m1\<lparr>pool_blocks := (pool_blocks m1)(b := None)\<rparr>"
    have r: "r = None" using sx Nil by simp
    then have "segment ?m None (header_next block) ys final' None"
      using sy1 d by (subst segment_cong [of _ _ m1]) auto
    moreover have "unlink_block m pool b = Ret (?m, pool\<lparr>block_list := header_next block\<rparr>)"
      using r bl m1 by (simp add: unlink_block_def get_block_def)
    ultimately show ?thesis using e1 Nil by auto
  next
    case (snoc xs' x)
    obtain z t where z: "r = Some x" "pool_blocks m1 x = Some z" "segment m1 None (block_list pool) xs' t (Some x)"
      "header_previous z = t"
      using sx1 snoc by (auto simp: segment_append split: option.splits)
    let ?m = "put_block m1 x (z\<lparr>header_next := header_next block\<rparr>)"
    let ?n = "?m\<lparr>pool_blocks := (pool_blocks ?m)(b := None)\<rparr>"
    have "segment ?n None (block_list pool) xs' t (Some x)"
      using z(3) d snoc by (subst segment_cong [of _ _ m1]) (auto simp: put_block_def)
    moreover have "segment ?n r (header_next block) ys final' None"
      using sy1 d snoc by (subst segment_cong [of _ _ m1]) (auto simp: put_block_def)
    ultimately have "segment ?n None (block_list pool) (xs @ ys) final' None"
      using z d snoc by (auto simp: segment_append put_block_def)
    moreover have "unlink_block m pool b = Ret (?n, pool)"
      using z bl m1 by (simp add: unlink_block_def get_block_def)
    moreover have "map_option (\<lambda>y. (mask_bits y, allocations y)) (pool_blocks ?n w)
         = map_option (\<lambda>y. (mask_bits y, allocations y)) (pool_blocks m w)" if "w \<noteq> b" for w
      using e1(4) [rule_format, of w] z(2) that by (cases "pool_blocks m1 w") (auto simp: put_block_def)
    ultimately show ?thesis using e1(2,3)
      by (intro exI [of _ ?n] exI [of _ pool] exI [of _ final']) (auto simp: put_block_def)
  qed
qed

section \<open>The invariant of a pool\<close>

definition shape_ok :: "nat \<Rightarrow> nat \<Rightarrow> 'o amqp_memory_block_t \<Rightarrow> bool" where
  "shape_ok n b block \<longleftrightarrow> length (allocations block) = n
     \<and> (\<forall>i<n. header_block (allocations block ! i) = b \<and> header_index (allocations block ! i) = i
          \<and> leading_guard (allocations block ! i) = leading_mask \<and> trailing_guard (allocations block ! i) = trailing_mask)
     \<and> (\<forall>i. bit (mask_bits block) i \<longrightarrow> i < n)"

text \<open>A block without an allocation in use is given back at once.\<close>

definition block_ok :: "nat \<Rightarrow> nat \<Rightarrow> 'o amqp_memory_block_t \<Rightarrow> bool" where
  "block_ok n b block \<longleftrightarrow> shape_ok n b block \<and> (\<exists>i<n. \<not> bit (mask_bits block) i)"

definition pool_live :: "'o pool_memory \<Rightarrow> object_ptr set" where
  "pool_live m = {(b, i). \<exists>block. pool_blocks m b = Some block \<and> i < length (allocations block) \<and> \<not> bit (mask_bits block) i}"

definition config_ok :: "nat \<Rightarrow> 'o amqp_memory_pool_t \<Rightarrow> bool" where
  "config_ok n pool \<longleftrightarrow> 1 \<le> n \<and> n < LONG_BIT \<and> allocations_per_block pool = int n \<and> allocations_mask pool = mask n
     \<and> initialized pool \<and> initializer_callback pool \<noteq> None \<and> destroyer_callback pool \<noteq> None
     \<and> object_size_in_fragments pool \<noteq> 0"

definition blocks_ok :: "nat \<Rightarrow> 'o pool_memory \<Rightarrow> 'o amqp_memory_pool_t \<Rightarrow> bool" where
  "blocks_ok n m pool \<longleftrightarrow>
     (\<exists>bs final. segment m None (block_list pool) bs final None \<and> distinct bs \<and> set bs = dom (pool_blocks m))
     \<and> (\<forall>b block. pool_blocks m b = Some block \<longrightarrow> b < next_pool_block m \<and> block_ok n b block)"

definition pool_ok :: "'o pool_memory \<times> 'o amqp_memory_pool_t \<Rightarrow> bool" where
  "pool_ok = (\<lambda>(m, pool). \<exists>n. config_ok n pool \<and> blocks_ok n m pool
     \<and> stats_outstanding_allocations pool = word_of_nat (card (pool_live m)))"

lemma block_ok_cong:
  "block_ok n b block \<Longrightarrow> mask_bits block = mask_bits block' \<Longrightarrow> allocations block = allocations block' \<Longrightarrow> block_ok n b block'"
  by (simp add: block_ok_def shape_ok_def)

lemma blocks_okD:
  "blocks_ok n m pool \<Longrightarrow> pool_blocks m b = Some block \<Longrightarrow> b < next_pool_block m"
  "blocks_ok n m pool \<Longrightarrow> pool_blocks m b = Some block \<Longrightarrow> block_ok n b block"
  by (auto simp: blocks_ok_def)

lemma blocks_finite:
  assumes "blocks_ok n m pool"
  shows "finite (dom (pool_blocks m))" and "finite (pool_live m)"
proof -
  show f: "finite (dom (pool_blocks m))" using assms unfolding blocks_ok_def by (metis finite_set)
  have "pool_live m \<subseteq> dom (pool_blocks m) \<times> {..<n}"
    using assms by (auto simp: pool_live_def blocks_ok_def block_ok_def shape_ok_def)
  then show "finite (pool_live m)" using f finite_subset by blast
qed

text \<open>Taking a free allocation of a block, up to the callback on the object.\<close>

definition taken :: "nat \<Rightarrow> uint64 \<Rightarrow> ('o \<Rightarrow> 'o) \<Rightarrow> 'o amqp_memory_block_t \<Rightarrow> 'o amqp_memory_block_t" where
  "taken k bits f block = block\<lparr>mask_bits := bits,
     allocations := (allocations block)[k := object_data_update f (allocations block ! k)]\<rparr>"

lemma taken_links [simp]: "header_next (taken k bits f block) = header_next block"
  "header_previous (taken k bits f block) = header_previous block" "mask_bits (taken k bits f block) = bits"
  "length (allocations (taken k bits f block)) = length (allocations block)"
  by (simp_all add: taken_def)

lemma taken_shape:
  "shape_ok n b block \<Longrightarrow> k < n \<Longrightarrow> (\<And>x. bit bits x \<Longrightarrow> x < n) \<Longrightarrow> shape_ok n b (taken k bits f block)"
  by (auto simp: shape_ok_def taken_def nth_list_update)

lemma find_free_ok:
  fixes block :: "'o amqp_memory_block_t"
  assumes "config_ok n pool" and "shape_ok n b block" and "mask_bits block \<noteq> 0"
  shows "\<exists>k bits. find_free_allocation_within_block pool block = Ret (k, block\<lparr>mask_bits := bits\<rparr>)
    \<and> bit (mask_bits block) k \<and> (\<forall>x. bit bits x \<longleftrightarrow> bit (mask_bits block) x \<and> x \<noteq> k)"
proof -
  have n: "n < 64" "nat (allocations_per_block pool) = n" using assms(1) by (simp_all add: config_ok_def LONG_BIT_def)
  obtain k where k: "bit (mask_bits block) k" using assms(3) bit_eq_iff [of "mask_bits block" 0] by auto
  then have "k < n" using assms(2) by (simp add: shape_ok_def)
  moreover have "n < 8 * (n div 8 + 1)" using dividend_less_times_div [of 8 n] by simp
  ultimately have "k < 8 * (0 + (n div 8 + 1))" by simp
  moreover have "0 + (n div 8 + 1) \<le> 8" using div_le_mono [of n 63 8] n(1) by simp
  ultimately show ?thesis
    using free_loop [of block 0 "n div 8 + 1"] k assms(2,3) n(2)
    by (simp add: find_free_allocation_within_block_def shape_ok_def del: find_free_loop.simps) blast
qed

text \<open>The part of \<open>amqp__allocate\<close> after a block was chosen.\<close>

lemma take_slot:
  fixes m :: "'o pool_memory"
  assumes "config_ok n pool" and b: "pool_blocks m b = Some block" and s: "shape_ok n b block" and "mask_bits block \<noteq> 0"
  shows "\<exists>k bits. run_bind (run_bind (get_block m b) (\<lambda>block.
       run_bind (find_free_allocation_within_block pool block) (\<lambda>(index, block).
       run_bind (allocation_from_index block index) (\<lambda>free_allocation.
       if header_block free_allocation \<noteq> b then Fault Aborted
       else Ret ((b, index), put_block m b block, pool)))))
      (\<lambda>(p, m, pool). run_bind (call_on_object f p m) (\<lambda>m. Ret (p, m, pool)))
     = Ret ((b, k), put_block m b (taken k bits f block), pool)
     \<and> bit (mask_bits block) k \<and> (\<forall>x. bit bits x \<longleftrightarrow> bit (mask_bits block) x \<and> x \<noteq> k)"
proof -
  obtain k bits where k: "find_free_allocation_within_block pool block = Ret (k, block\<lparr>mask_bits := bits\<rparr>)"
    "bit (mask_bits block) k" "\<forall>x. bit bits x \<longleftrightarrow> bit (mask_bits block) x \<and> x \<noteq> k"
    using find_free_ok [OF assms(1,3,4)] by blast
  have lt: "k < length (allocations block)" "header_block (allocations block ! k) = b" using k(2) s by (auto simp: shape_ok_def)
  show ?thesis
    using k b lt by (intro exI [of _ k] exI [of _ bits])
      (simp add: get_block_def allocation_from_index_def call_on_object_def put_block_def taken_def)
qed

lemma pool_live_put:
  assumes "pool_blocks m b = Some block" and "length (allocations block') = length (allocations block)"
    and "\<And>x. bit (mask_bits block') x \<longleftrightarrow> bit (mask_bits block) x \<and> x \<noteq> k" and "k < length (allocations block)"
  shows "pool_live (put_block m b block') = insert (b, k) (pool_live m)"
  using assms by (auto simp: pool_live_def put_block_def split: if_splits)

section \<open>Allocation returns an object that was not in use\<close>

lemma run_bind_pairs: "run_bind (run_bind r (\<lambda>(x, y, z). f x y z)) g = run_bind r (\<lambda>(x, y, z). run_bind (f x y z) g)"
  by (cases r) auto

lemma allocate_parts:
  assumes "config_ok n pool" and "initializer_callback pool = Some f"
  shows "amqp__allocate (m, pool) =
    run_bind (run_bind (find_block_with_free_space (Suc (next_pool_block m)) m (block_list pool)) (\<lambda>found.
      case found of Some b \<Rightarrow> Ret (b, m, pool) | None \<Rightarrow> allocate_new_memory_block m pool)) (\<lambda>(b, m, pool).
    run_bind (run_bind (run_bind (get_block m b) (\<lambda>block.
       run_bind (find_free_allocation_within_block pool block) (\<lambda>(index, block).
       run_bind (allocation_from_index block index) (\<lambda>free_allocation.
       if header_block free_allocation \<noteq> b then Fault Aborted
       else Ret ((b, index), put_block m b block, pool)))))
      (\<lambda>(p, m, pool). run_bind (call_on_object f p m) (\<lambda>m. Ret (p, m, pool))))
    (\<lambda>(p, m, pool). Ret (p, m, pool\<lparr>stats_outstanding_allocations := stats_outstanding_allocations pool + 1,
       stats_total_allocation_calls := stats_total_allocation_calls pool + 1\<rparr>)))"
proof -
  have e: "(\<lambda>(p, m, pool). run_bind (call_on_object f p m) (\<lambda>m. Ret (p, m, pool\<lparr>stats_outstanding_allocations :=
        stats_outstanding_allocations pool + 1, stats_total_allocation_calls := stats_total_allocation_calls pool + 1\<rparr>)))
    = (\<lambda>x. run_bind ((\<lambda>(p, m, pool). run_bind (call_on_object f p m) (\<lambda>m. Ret (p, m, pool))) x)
        (\<lambda>(p, m, pool). Ret (p, m, pool\<lparr>stats_outstanding_allocations := stats_outstanding_allocations pool + 1,
           stats_total_allocation_calls := stats_total_allocation_calls pool + 1\<rparr>)))"
    by (auto simp: fun_eq_iff run_bind_assoc)
  show ?thesis
    using assms by (simp add: amqp__allocate_def config_ok_def allocate_object_def e run_bind_assoc split_def)
qed

lemma segment_put:
  assumes "pool_blocks m b = Some block" and "header_next block' = header_next block"
    and "header_previous block' = header_previous block"
  shows "segment (put_block m b block') prev p bs final q \<longleftrightarrow> segment m prev p bs final q"
  using assms by (intro segment_cong) (auto simp: put_block_def)

lemma new_allocations:
  "map (\<lambda>i. (replicate n \<lparr>header_block = 0, header_index = 0, leading_guard = 0, trailing_guard = 0, object_data = x\<rparr> ! i)
      \<lparr>header_block := b, header_index := i, leading_guard := leading_mask, trailing_guard := trailing_mask\<rparr>) [0..<n]
   = map (\<lambda>i. \<lparr>header_block = b, header_index = i, leading_guard = leading_mask,
        trailing_guard = trailing_mask, object_data = x\<rparr>) [0..<n]"
  by simp

text \<open>The new block is first in the list, and all its allocations are free.\<close>

lemma new_block_ok:
  fixes m :: "'o pool_memory"
  assumes c: "config_ok n pool" and ok: "blocks_ok n m pool"
  shows "\<exists>m1 block. allocate_new_memory_block m pool = Ret (next_pool_block m, m1, pool\<lparr>block_list := Some (next_pool_block m)\<rparr>)
    \<and> pool_blocks m1 (next_pool_block m) = Some block \<and> shape_ok n (next_pool_block m) block \<and> mask_bits block = mask n
    \<and> next_pool_block m1 = Suc (next_pool_block m)
    \<and> (\<exists>bs final. segment m1 None (Some (next_pool_block m)) bs final None \<and> distinct bs \<and> set bs = dom (pool_blocks m1))
    \<and> dom (pool_blocks m1) = insert (next_pool_block m) (dom (pool_blocks m))
    \<and> (\<forall>b. b \<noteq> next_pool_block m \<longrightarrow> map_option (\<lambda>y. (mask_bits y, allocations y)) (pool_blocks m1 b)
         = map_option (\<lambda>y. (mask_bits y, allocations y)) (pool_blocks m b))"
proof -
  let ?b = "next_pool_block m"
  obtain bs final where seg: "segment m None (block_list pool) bs final None" "distinct bs" "set bs = dom (pool_blocks m)"
    using ok by (auto simp: blocks_ok_def)
  have new: "?b \<notin> dom (pool_blocks m)" using ok by (auto simp: blocks_ok_def)
  let ?as = "map (\<lambda>i. \<lparr>header_block = ?b, header_index = i, leading_guard = leading_mask,
    trailing_guard = trailing_mask, object_data = blank m\<rparr>) [0..<n]"
  let ?block = "\<lparr>header_next = block_list pool, header_previous = None, mask_bits = mask n, allocations = ?as\<rparr>"
  let ?m = "m\<lparr>next_pool_block := Suc ?b\<rparr>"
  obtain m1 where run: "(case block_list pool of None \<Rightarrow> Ret ?m
         | Some h \<Rightarrow> run_bind (get_block ?m h) (\<lambda>next. Ret (put_block ?m h (next\<lparr>header_previous := Some ?b\<rparr>)))) = Ret m1"
    and s1: "\<exists>final'. segment m1 (Some ?b) (block_list pool) bs final' None"
    and e: "dom (pool_blocks m1) = dom (pool_blocks m)" "next_pool_block m1 = Suc ?b"
      "\<forall>b. map_option (\<lambda>y. (mask_bits y, allocations y)) (pool_blocks m1 b)
         = map_option (\<lambda>y. (mask_bits y, allocations y)) (pool_blocks m b)"
  proof (cases bs)
    case Nil
    then show ?thesis using seg that [of ?m] by auto
  next
    case (Cons h bs')
    then obtain z where z: "block_list pool = Some h" "pool_blocks m h = Some z" "header_previous z = None"
      "segment m (Some h) (header_next z) bs' final None" using seg by (auto split: option.splits)
    let ?m1 = "put_block ?m h (z\<lparr>header_previous := Some ?b\<rparr>)"
    have "segment ?m1 (Some h) (header_next z) bs' final None"
      using z(4) seg(2) Cons by (subst segment_cong [of _ _ m]) (auto simp: put_block_def)
    then have "\<exists>final'. segment ?m1 (Some ?b) (block_list pool) bs final' None" using z Cons by (auto simp: put_block_def)
    then show ?thesis by (rule that [of ?m1, rotated]) (use z in \<open>auto simp: get_block_def put_block_def\<close>)
  qed
  obtain final' where s1': "segment m1 (Some ?b) (block_list pool) bs final' None" using s1 by blast
  let ?m2 = "put_block m1 ?b ?block"
  have "segment ?m2 (Some ?b) (block_list pool) bs final' None"
    using s1' new seg(3) by (subst segment_cong [of _ _ m1]) (auto simp: put_block_def)
  then have "segment ?m2 None (Some ?b) (?b # bs) final' None" by (simp add: put_block_def)
  moreover have "distinct (?b # bs)" "set (?b # bs) = dom (pool_blocks ?m2)"
    using seg(2,3) new e(1) by (auto simp: put_block_def)
  ultimately have list: "\<exists>bs final. segment ?m2 None (Some ?b) bs final None \<and> distinct bs \<and> set bs = dom (pool_blocks ?m2)"
    by blast
  have n: "n < 64" "nat (allocations_per_block pool) = n" "allocations_mask pool = mask n"
    using c by (simp_all add: config_ok_def LONG_BIT_def)
  then have new_run: "allocate_new_memory_block m pool = Ret (?b, ?m2, pool\<lparr>block_list := Some ?b\<rparr>)"
    using run by (simp add: allocate_new_memory_block_def allocate_block_def All_ONES_MASK_def Let_def new_allocations)
  have "shape_ok n ?b ?block" using n by (simp add: shape_ok_def bit_mask_iff)
  then show ?thesis
    by (intro exI [of _ ?m2] exI [of _ ?block] conjI) (rule new_run list | simp add: put_block_def e)+
qed

lemma take_blocks_ok:
  assumes list: "\<exists>bs final. segment m None (block_list pool) bs final None \<and> distinct bs \<and> set bs = dom (pool_blocks m)"
    and others: "\<forall>x block. x \<noteq> b \<longrightarrow> pool_blocks m x = Some block \<longrightarrow> x < next_pool_block m \<and> block_ok n x block"
    and b: "pool_blocks m b = Some block" "b < next_pool_block m" "shape_ok n b block"
    and k: "bit (mask_bits block) k" "\<forall>x. bit bits x \<longleftrightarrow> bit (mask_bits block) x \<and> x \<noteq> k"
  shows "blocks_ok n (put_block m b (taken k bits f block)) pool"
    and "pool_live (put_block m b (taken k bits f block)) = insert (b, k) (pool_live m)"
    and "(b, k) \<notin> pool_live m"
proof -
  let ?block = "taken k bits f block" and ?m = "put_block m b (taken k bits f block)"
  have lt: "k < n" "k < length (allocations block)" using b(3) k(1) by (auto simp: shape_ok_def)
  have "shape_ok n b ?block" using b(3) lt(1) k(2) by (intro taken_shape) (auto simp: shape_ok_def)
  then have "block_ok n b ?block" using lt(1) k(2) by (auto simp: block_ok_def)
  moreover have "dom (pool_blocks ?m) = dom (pool_blocks m)" using b(1) by (auto simp: put_block_def)
  moreover have "segment ?m prev p bs final q \<longleftrightarrow> segment m prev p bs final q" for prev p bs final q
    using segment_put [OF b(1)] by simp
  ultimately show "blocks_ok n ?m pool"
    using list others b(2) by (auto simp: blocks_ok_def put_block_def)
  show "pool_live ?m = insert (b, k) (pool_live m)" using lt(2) k(2) by (intro pool_live_put [OF b(1)]) simp_all
  show "(b, k) \<notin> pool_live m" using b(1) k(1) by (simp add: pool_live_def)
qed

text \<open>The choice of a block: one of the list, or a new one.\<close>

lemma choose_block:
  fixes m :: "'o pool_memory"
  assumes c: "config_ok n pool" and ok: "blocks_ok n m pool"
  shows "\<exists>b m1 pool1 block. run_bind (find_block_with_free_space (Suc (next_pool_block m)) m (block_list pool)) (\<lambda>found.
      case found of Some b \<Rightarrow> Ret (b, m, pool) | None \<Rightarrow> allocate_new_memory_block m pool) = Ret (b, m1, pool1)
    \<and> pool1 = pool\<lparr>block_list := block_list pool1\<rparr>
    \<and> (\<exists>bs final. segment m1 None (block_list pool1) bs final None \<and> distinct bs \<and> set bs = dom (pool_blocks m1))
    \<and> (\<forall>x block. x \<noteq> b \<longrightarrow> pool_blocks m1 x = Some block \<longrightarrow> x < next_pool_block m1 \<and> block_ok n x block)
    \<and> pool_blocks m1 b = Some block \<and> b < next_pool_block m1 \<and> shape_ok n b block \<and> mask_bits block \<noteq> 0
    \<and> pool_live m1 = pool_live m"
proof -
  obtain bs final where seg: "segment m None (block_list pool) bs final None" "distinct bs" "set bs = dom (pool_blocks m)"
    using ok by (auto simp: blocks_ok_def)
  have "set bs \<subseteq> {..<next_pool_block m}" using ok seg(3) by (auto simp: blocks_ok_def)
  then have "length bs \<le> next_pool_block m" using card_mono [of "{..<next_pool_block m}" "set bs"] distinct_card [OF seg(2)] by simp
  then obtain r where r: "find_block_with_free_space (Suc (next_pool_block m)) m (block_list pool) = Ret r"
    "case r of None \<Rightarrow> True | Some b \<Rightarrow> b \<in> set bs \<and> (\<exists>block. pool_blocks m b = Some block \<and> mask_bits block \<noteq> 0)"
    using find_block_ok [OF seg(1), of "Suc (next_pool_block m)"] by auto
  show ?thesis
  proof (cases r)
    case (Some b)
    then obtain block where b: "pool_blocks m b = Some block" "mask_bits block \<noteq> 0" using r(2) by auto
    then have "b < next_pool_block m" "shape_ok n b block" using ok by (auto simp: blocks_ok_def block_ok_def)
    then show ?thesis using r(1) Some b ok by (auto simp: blocks_ok_def)
  next
    case None
    let ?b = "next_pool_block m"
    obtain m1 block where m1: "allocate_new_memory_block m pool = Ret (?b, m1, pool\<lparr>block_list := Some ?b\<rparr>)"
      "pool_blocks m1 ?b = Some block" "shape_ok n ?b block" "mask_bits block = mask n" "next_pool_block m1 = Suc ?b"
      "\<exists>bs final. segment m1 None (Some ?b) bs final None \<and> distinct bs \<and> set bs = dom (pool_blocks m1)"
      "dom (pool_blocks m1) = insert ?b (dom (pool_blocks m))"
      "\<forall>b. b \<noteq> ?b \<longrightarrow> map_option (\<lambda>y. (mask_bits y, allocations y)) (pool_blocks m1 b)
         = map_option (\<lambda>y. (mask_bits y, allocations y)) (pool_blocks m b)"
      using new_block_ok [OF c ok] by blast
    have old: "\<exists>z. pool_blocks m x = Some z \<and> mask_bits z = mask_bits y \<and> allocations z = allocations y"
      if "x \<noteq> ?b" "pool_blocks m1 x = Some y" for x y
      using m1(8) [rule_format, OF that(1)] that(2) by (cases "pool_blocks m x") auto
    have back': "\<exists>y. pool_blocks m1 x = Some y \<and> mask_bits z = mask_bits y \<and> allocations z = allocations y"
      if "x \<noteq> ?b" "pool_blocks m x = Some z" for x z
      using m1(8) [rule_format, OF that(1)] that(2) by (cases "pool_blocks m1 x") auto
    have "x < next_pool_block m1 \<and> block_ok n x y" if "x \<noteq> ?b" "pool_blocks m1 x = Some y" for x y
      using old [OF that] blocks_okD [OF ok] m1(5) block_ok_cong by (metis less_Suc_eq)
    moreover have "pool_live m1 = pool_live m"
    proof -
      have "\<not> (i < length (allocations block) \<and> \<not> bit (mask_bits block) i)" for i
        using m1(3,4) c by (simp add: shape_ok_def bit_mask_iff config_ok_def LONG_BIT_def)
      moreover have "pool_blocks m ?b = None" using ok by (cases "pool_blocks m ?b") (auto simp: blocks_ok_def)
      ultimately have "(b, i) \<in> pool_live m1 \<longleftrightarrow> (b, i) \<in> pool_live m" for b i
        using m1(2) old [of b] back' [of b] by (cases "b = ?b") (fastforce simp: pool_live_def)+
      then show ?thesis by auto
    qed
    moreover have "mask n \<noteq> (0 :: uint64)" using c by (simp add: config_ok_def mask_eq_0_iff)
    ultimately show ?thesis
      using r(1) None m1 by (intro exI [of _ ?b] exI [of _ m1] exI [of _ "pool\<lparr>block_list := Some ?b\<rparr>"] exI [of _ block]) simp
  qed
qed

lemma allocate_ok:
  assumes "pool_ok (m, pool)"
  shows "\<exists>p m' pool'. amqp__allocate (m, pool) = Ret (p, m', pool') \<and> pool_ok (m', pool') \<and> p \<notin> pool_live m
    \<and> pool_live m' = insert p (pool_live m)"
proof -
  obtain n where c: "config_ok n pool" and ok: "blocks_ok n m pool"
    and st: "stats_outstanding_allocations pool = word_of_nat (card (pool_live m))"
    using assms by (auto simp: pool_ok_def)
  obtain f where f: "initializer_callback pool = Some f" using c by (auto simp: config_ok_def)
  obtain b m1 pool1 block where ch: "run_bind (find_block_with_free_space (Suc (next_pool_block m)) m (block_list pool)) (\<lambda>found.
      case found of Some b \<Rightarrow> Ret (b, m, pool) | None \<Rightarrow> allocate_new_memory_block m pool) = Ret (b, m1, pool1)"
    and p1: "pool1 = pool\<lparr>block_list := block_list pool1\<rparr>"
    and list: "\<exists>bs final. segment m1 None (block_list pool1) bs final None \<and> distinct bs \<and> set bs = dom (pool_blocks m1)"
    and others: "\<forall>x block. x \<noteq> b \<longrightarrow> pool_blocks m1 x = Some block \<longrightarrow> x < next_pool_block m1 \<and> block_ok n x block"
    and b: "pool_blocks m1 b = Some block" "b < next_pool_block m1" "shape_ok n b block" "mask_bits block \<noteq> 0"
    and live: "pool_live m1 = pool_live m"
    using choose_block [OF c ok] by blast
  have eqs: "allocations_per_block pool1 = allocations_per_block pool" "allocations_mask pool1 = allocations_mask pool"
    "initialized pool1 = initialized pool" "initializer_callback pool1 = initializer_callback pool"
    "destroyer_callback pool1 = destroyer_callback pool" "object_size_in_fragments pool1 = object_size_in_fragments pool"
    "stats_outstanding_allocations pool1 = stats_outstanding_allocations pool"
    by (subst p1, simp)+
  have c1: "config_ok n pool1" using c by (simp add: config_ok_def eqs)
  obtain k bits where run: "run_bind (run_bind (get_block m1 b) (\<lambda>block.
       run_bind (find_free_allocation_within_block pool1 block) (\<lambda>(index, block).
       run_bind (allocation_from_index block index) (\<lambda>free_allocation.
       if header_block free_allocation \<noteq> b then Fault Aborted
       else Ret ((b, index), put_block m1 b block, pool1)))))
      (\<lambda>(p, m, pool). run_bind (call_on_object f p m) (\<lambda>m. Ret (p, m, pool)))
     = Ret ((b, k), put_block m1 b (taken k bits f block), pool1)"
    and k: "bit (mask_bits block) k" "\<forall>x. bit bits x \<longleftrightarrow> bit (mask_bits block) x \<and> x \<noteq> k"
    using take_slot [OF c1 b(1,3,4)] by blast
  let ?m = "put_block m1 b (taken k bits f block)"
  let ?pool = "pool1\<lparr>stats_outstanding_allocations := stats_outstanding_allocations pool1 + 1,
       stats_total_allocation_calls := stats_total_allocation_calls pool1 + 1\<rparr>"
  note t = take_blocks_ok(1,2) [OF list others b(1-3) k, where f = f] take_blocks_ok(3) [OF list others b(1-3) k]
  have "amqp__allocate (m, pool) = Ret ((b, k), ?m, ?pool)"
    unfolding allocate_parts [OF c f] ch run_bind.simps prod.case run by simp
  moreover have "blocks_ok n ?m ?pool" using t(1) by (simp add: blocks_ok_def)
  moreover have "config_ok n ?pool" using c1 by (simp add: config_ok_def)
  moreover have "card (pool_live ?m) = Suc (card (pool_live m))"
    using t(2,3) blocks_finite(2) [OF ok] live by simp
  then have "stats_outstanding_allocations ?pool = word_of_nat (card (pool_live ?m))" using st eqs by simp
  ultimately show ?thesis using t(2,3) live by (auto simp: pool_ok_def)
qed

section \<open>Deallocation\<close>

text \<open>What \<open>delete_object\<close> does to the block, before it looks whether the block is empty.\<close>

lemma updates_commute: "mask_bits_update g (allocations_update h block) = allocations_update h (mask_bits_update g block)"
  by (cases block) simp

lemma delete_run:
  fixes m :: "'o pool_memory"
  assumes c: "config_ok n pool" and b: "pool_blocks m b = Some block" "shape_ok n b block" and i: "i < n"
  shows "\<exists>bits. (\<forall>x. bit bits x \<longleftrightarrow> bit (mask_bits block) x \<or> x = i) \<and>
    run_bind (call_on_object f (b, i) m) (\<lambda>m. delete_object m pool (b, i)) =
      (let m = put_block m b (taken i bits f block)
       in if \<forall>x<n. bit bits x then unlink_block m pool b else Ret (m, pool))"
proof -
  have lt: "i div 8 < 8" "i mod 8 < 8" using i c by (auto simp: config_ok_def LONG_BIT_def)
  let ?bits = "set_mask_byte (mask_bits block) (i div 8) (word_byte (mask_bits block) (i div 8) OR push_bit (i mod 8) 1)"
  have bits: "\<forall>x. bit ?bits x \<longleftrightarrow> bit (mask_bits block) x \<or> x = i" using set_mask_bit [OF lt] by simp
  have "NOT ?bits AND mask n = 0 \<longleftrightarrow> (\<forall>x<n. bit ?bits x)"
  proof -
    have "NOT ?bits AND mask n = 0 \<longleftrightarrow> (\<forall>x<64. \<not> (\<not> bit ?bits x \<and> x < n))"
      by (simp add: bit_eq_iff [of _ "0 :: uint64"] bit_simps)
    moreover have "n < 64" using c by (simp add: config_ok_def LONG_BIT_def)
    ultimately show ?thesis using less_trans [of _ n 64] by blast
  qed
  moreover have "header_block (allocations block ! i) = b" "header_index (allocations block ! i) = i"
    "leading_guard (allocations block ! i) = leading_mask" "trailing_guard (allocations block ! i) = trailing_mask"
    "i < length (allocations block)"
    using b(2) i by (auto simp: shape_ok_def)
  ultimately show ?thesis
    using bits b(1) lt c by (intro exI [of _ ?bits])
      (simp add: call_on_object_def delete_object_def get_block_def put_block_def allocation_from_index_def taken_def
        LONG_BIT_def config_ok_def Let_def updates_commute, blast)
qed

lemma pool_live_delete:
  assumes "pool_blocks m b = Some block" and "length (allocations block') = length (allocations block)"
    and "\<And>x. bit (mask_bits block') x \<longleftrightarrow> bit (mask_bits block) x \<or> x = k"
  shows "pool_live (put_block m b block') = pool_live m - {(b, k)}"
  using assms by (auto simp: pool_live_def put_block_def split: if_splits)

lemma unlink_blocks_ok:
  fixes m :: "'o pool_memory"
  assumes list: "segment m None (block_list pool) bs final None" "distinct bs" "set bs = dom (pool_blocks m)"
    and others: "\<forall>x block. x \<noteq> b \<longrightarrow> pool_blocks m x = Some block \<longrightarrow> x < next_pool_block m \<and> block_ok n x block"
    and b: "pool_blocks m b = Some block" "\<forall>x<length (allocations block). bit (mask_bits block) x"
  shows "\<exists>m' pool'. unlink_block m pool b = Ret (m', pool') \<and> pool' = pool\<lparr>block_list := block_list pool'\<rparr>
    \<and> blocks_ok n m' pool' \<and> pool_live m' = pool_live m"
proof -
  have "b \<in> set bs" using b(1) list(3) by auto
  then obtain xs ys where bs: "bs = xs @ b # ys" by (meson split_list)
  obtain m' pool' final' where u: "unlink_block m pool b = Ret (m', pool')"
    "segment m' None (block_list pool') (xs @ ys) final' None" "pool' = pool\<lparr>block_list := block_list pool'\<rparr>"
    "pool_blocks m' b = None" "next_pool_block m' = next_pool_block m"
    and eq: "\<forall>x. x \<noteq> b \<longrightarrow> map_option (\<lambda>y. (mask_bits y, allocations y)) (pool_blocks m' x)
         = map_option (\<lambda>y. (mask_bits y, allocations y)) (pool_blocks m x)"
    using unlink_ok [of m pool xs b ys final] list bs by blast
  have old: "x \<noteq> b \<and> (\<exists>z. pool_blocks m x = Some z \<and> mask_bits z = mask_bits y \<and> allocations z = allocations y)"
    if "pool_blocks m' x = Some y" for x y
    using eq [rule_format, of x] that u(4) by (cases "x = b"; cases "pool_blocks m x") auto
  have kept: "\<exists>y. pool_blocks m' x = Some y \<and> mask_bits z = mask_bits y \<and> allocations z = allocations y"
    if "x \<noteq> b" "pool_blocks m x = Some z" for x z
    using eq [rule_format, of x] that by (cases "pool_blocks m' x") auto
  have good: "x < next_pool_block m' \<and> block_ok n x y" if "pool_blocks m' x = Some y" for x y
    using old [OF that] others u(5) block_ok_cong by metis
  have dom: "set (xs @ ys) = dom (pool_blocks m')"
  proof -
    have "set (xs @ ys) = dom (pool_blocks m) - {b}" using list(2,3) bs by auto
    moreover have "x \<in> dom (pool_blocks m') \<longleftrightarrow> x \<in> dom (pool_blocks m) - {b}" for x
      using old [of x] kept [of x] by auto
    ultimately show ?thesis by blast
  qed
  have dis: "distinct (xs @ ys)" using list(2) bs by auto
  have "(x, k) \<in> pool_live m' \<longleftrightarrow> (x, k) \<in> pool_live m" for x k
    using old [of x] kept [of x] b u(4) by (cases "x = b") (fastforce simp: pool_live_def)+
  then have "pool_live m' = pool_live m" by auto
  moreover have "blocks_ok n m' pool'"
    unfolding blocks_ok_def using good by (intro conjI exI [of _ "xs @ ys"] exI [of _ final'] u(2) dis dom) simp
  ultimately show ?thesis using u(1,3) by blast
qed

lemma deallocate_ok:
  assumes ok: "pool_ok (m, pool)" and p: "p \<in> pool_live m"
  shows "\<exists>m' pool'. amqp_deallocate (m, pool) (Some p) = Ret (m', pool') \<and> pool_ok (m', pool')
    \<and> pool_live m' = pool_live m - {p}"
proof -
  obtain n where c: "config_ok n pool" and bl: "blocks_ok n m pool"
    and st: "stats_outstanding_allocations pool = word_of_nat (card (pool_live m))"
    using ok by (auto simp: pool_ok_def)
  obtain f where f: "destroyer_callback pool = Some f" using c by (auto simp: config_ok_def)
  obtain b i block where bi: "p = (b, i)" "pool_blocks m b = Some block" "i < length (allocations block)"
    using p by (auto simp: pool_live_def)
  then have sh: "shape_ok n b block" "b < next_pool_block m" and i: "i < n"
    using blocks_okD [OF bl bi(2)] by (auto simp: block_ok_def shape_ok_def)
  obtain bits where bits: "\<forall>x. bit bits x \<longleftrightarrow> bit (mask_bits block) x \<or> x = i" and
    run: "run_bind (call_on_object f (b, i) m) (\<lambda>m. delete_object m pool (b, i)) =
      (let m = put_block m b (taken i bits f block)
       in if \<forall>x<n. bit bits x then unlink_block m pool b else Ret (m, pool))"
    using delete_run [OF c bi(2) sh(1) i] by blast
  let ?m = "put_block m b (taken i bits f block)"
  have live: "pool_live ?m = pool_live m - {p}" using bits unfolding bi(1) by (intro pool_live_delete [OF bi(2)]) simp_all
  have sh': "shape_ok n b (taken i bits f block)" using sh(1) i bits by (intro taken_shape) (auto simp: shape_ok_def)
  have seg: "segment ?m prev q bs final r \<longleftrightarrow> segment m prev q bs final r" for prev q bs final r
    using segment_put [OF bi(2)] by simp
  have dom: "dom (pool_blocks ?m) = dom (pool_blocks m)" using bi(2) by (auto simp: put_block_def)
  obtain bs final where list: "segment ?m None (block_list pool) bs final None" "distinct bs" "set bs = dom (pool_blocks ?m)"
    using bl by (auto simp: blocks_ok_def seg dom)
  have others: "\<forall>x y. x \<noteq> b \<longrightarrow> pool_blocks ?m x = Some y \<longrightarrow> x < next_pool_block ?m \<and> block_ok n x y"
    using blocks_okD [OF bl] by (simp add: put_block_def)
  have "\<exists>m' pool'. run_bind (call_on_object f (b, i) m) (\<lambda>m. delete_object m pool (b, i)) = Ret (m', pool')
      \<and> pool' = pool\<lparr>block_list := block_list pool'\<rparr> \<and> blocks_ok n m' pool' \<and> pool_live m' = pool_live ?m"
  proof (cases "\<forall>x<n. bit bits x")
    case True
    then show ?thesis
      using unlink_blocks_ok [OF list others, of "taken i bits f block"] run sh'
      by (simp add: put_block_def shape_ok_def)
  next
    case False
    then have "block_ok n b (taken i bits f block)" using sh' by (simp add: block_ok_def)
    then have "blocks_ok n ?m pool" using list others sh(2) unfolding blocks_ok_def by (auto simp: put_block_def)
    then show ?thesis using run False by simp
  qed
  then obtain m' pool' where r: "run_bind (call_on_object f (b, i) m) (\<lambda>m. delete_object m pool (b, i)) = Ret (m', pool')"
    and p': "pool' = pool\<lparr>block_list := block_list pool'\<rparr>" and bl': "blocks_ok n m' pool'" and live': "pool_live m' = pool_live ?m"
    by blast
  let ?pool = "pool'\<lparr>stats_outstanding_allocations := stats_outstanding_allocations pool' - 1\<rparr>"
  have "amqp_deallocate (m, pool) (Some p) = Ret (m', ?pool)"
    using r f by (simp add: amqp_deallocate_def bi(1) run_bind_assoc [symmetric])
  moreover have "config_ok n ?pool" using c by (subst p') (simp add: config_ok_def)
  moreover have "blocks_ok n m' ?pool" using bl' by (simp add: blocks_ok_def)
  moreover have "card (pool_live m) = Suc (card (pool_live m - {p}))"
    using p blocks_finite(2) [OF bl] by (metis card.remove)
  then have "stats_outstanding_allocations ?pool = word_of_nat (card (pool_live m'))"
    using st live live' by (subst p') simp
  ultimately show ?thesis using live live' by (auto simp: pool_ok_def)
qed

interpretation pool: allocator pool_ok "\<lambda>s. pool_live (fst s)" "\<lambda>_. True" "\<lambda>_::unit. amqp__allocate"
  "\<lambda>s p. amqp_deallocate s (Some p)" "\<lambda>s. stats_outstanding_allocations (snd s)"
proof
  fix s :: "'o pool_memory \<times> 'o amqp_memory_pool_t" and u :: unit
  assume "pool_ok s"
  then show "\<exists>p s'. amqp__allocate s = Ret (p, s') \<and> pool_ok s' \<and> p \<notin> pool_live (fst s)
      \<and> pool_live (fst s') = insert p (pool_live (fst s))"
    using allocate_ok [of "fst s" "snd s"] by fastforce
next
  fix s :: "'o pool_memory \<times> 'o amqp_memory_pool_t" and p
  assume "pool_ok s" and "p \<in> pool_live (fst s)"
  then show "\<exists>s'. amqp_deallocate s (Some p) = Ret s' \<and> pool_ok s' \<and> pool_live (fst s') = pool_live (fst s) - {p}"
    using deallocate_ok [of "fst s" "snd s"] by fastforce
next
  fix s :: "'o pool_memory \<times> 'o amqp_memory_pool_t"
  assume "pool_ok s"
  then show "finite (pool_live (fst s)) \<and> stats_outstanding_allocations (snd s) = word_of_nat (card (pool_live (fst s)))"
    using blocks_finite(2) by (auto simp: pool_ok_def)
qed

section \<open>Initialization\<close>

definition empty_pool_memory :: "'o \<Rightarrow> 'o pool_memory" where
  "empty_pool_memory x = \<lparr>pool_blocks = (\<lambda>_. None), next_pool_block = 0, blank = x\<rparr>"

lemma preferred_adjusted: "adjust_block_size preferred_block_size = Some 2048"
  unfolding adjust_block_size_def preferred_block_size_def LONG_BIT_def
  by (subst adjust_block_size_loop.simps, simp, subst adjust_block_size_loop.simps, simp)

lemma pool_mask:
  assumes "1 \<le> n" and "n < 64"
  shows "(push_bit n 1 AND NOT 1) - 1 = (mask n :: uint64)"
proof -
  have "push_bit n 1 AND NOT 1 = (push_bit n 1 :: uint64)"
    using assms by (intro bit_word_eqI) (auto simp: bit_simps)
  then show ?thesis by (simp add: mask_eq_exp_minus_1 push_bit_of_1)
qed

definition fragments_of :: "nat \<Rightarrow> nat" where
  "fragments_of n = max 2 ((n - 1) div 8 + 1)"

lemma object_fragments:
  assumes "0 < n" and "n \<le> 2 ^ 63"
  shows "byte_count_rounded_to_size_t_array_size n = fragments_of n"
proof -
  have "size_add (size_sub n 1 div SIZE_T_BYTES) 1 = (n - 1) div 8 + 1"
    using rounded(1) [OF assms] by (simp add: byte_count_rounded_def)
  then show ?thesis
    by (simp add: byte_count_rounded_to_size_t_array_size_def MIN_FRAGMENTS_def SIZE_T_BYTES_def fragments_of_def max_def)
qed

lemma fragments_bound: "n \<le> 1992 \<Longrightarrow> fragments_of n \<le> 249"
  using div_le_mono [of "n - 1" 1991 8] by (simp add: fragments_of_def)

lemma fragments_large: "1992 < n \<Longrightarrow> 250 \<le> fragments_of n"
  using div_le_mono [of 1992 "n - 1" 8] by (simp add: fragments_of_def)

lemma sint_small: "n < 2 ^ 31 \<Longrightarrow> sint (word_of_nat n :: uint32) = int n"
  by (simp add: sint_uint unsigned_of_nat signed_take_bit_eq_if_positive take_bit_nat_eq_self bit_take_bit_iff not_bit_length
      signed_take_bit_int_eq_self flip: of_nat_take_bit)

text \<open>What the configuration of a pool for objects of \<open>size\<close> bytes comes to.\<close>

lemma initialize_run:
  fixes name :: string
  assumes "0 < size'" and "size' \<le> 2 ^ 60"
  defines "a \<equiv> 24 + 8 * fragments_of size'"
  shows "amqp_initialize_pool size' name = Some (run_bind (initialize_mask
    \<lparr>block_list = None, allocations_per_block = int (2016 div a), allocations_mask = 0, block_size = 2048,
     offset_to_first_allocation = 32, offset_to_allocation_data = 16, object_size_in_fragments = fragments_of size',
     allocation_size_in_bytes = a, stats_outstanding_allocations = 0, stats_total_allocation_calls = 0,
     initialized = False, initializer_callback = None, destroyer_callback = None, pool_name = []\<rparr>)
    (\<lambda>pool. Ret (pool\<lparr>initializer_callback := Some default_callback, destroyer_callback := Some default_callback,
       pool_name := name, initialized := True\<rparr>)))"
proof -
  have f: "2 \<le> fragments_of size'" "fragments_of size' \<le> 2 ^ 60"
    using assms(2) div_le_dividend [of "size' - 1" 8] by (auto simp: fragments_of_def)
  have "size_add (fragments_of size') 1 = fragments_of size' + 1" "size_mult (fragments_of size' + 1) SIZE_T_BYTES = (fragments_of size' + 1) * 8"
    using f(2) by (simp_all add: SIZE_T_BYTES_def)
  then have al: "size_add 16 (size_mult (size_add (fragments_of size') 1) SIZE_T_BYTES) = a"
    using f(2) by (simp add: a_def)
  have "40 \<le> a" using f(1) by (simp add: a_def)
  then have q: "2016 div a \<le> 50" using div_le_mono2 [of 40 a 2016] by simp
  then have s: "sint (word_of_nat (2016 div a) :: uint32) = int (2016 div a)" by (intro sint_small) simp
  show ?thesis
    unfolding amqp_initialize_pool_def amqp_initialize_pool_suggesting_block_size_def preferred_adjusted option.case
    using object_fragments [of size'] assms(1,2) q s
    by (subst fit_block_loop.simps)
      (simp add: Let_def calculate_allocation_t_size_in_bytes_def calculate_block_offset_to_first_allocation_def
        calculate_offset_to_allocation_data_def fitting_allocations_def al [unfolded One_nat_def] LONG_BIT_def)
qed

lemma pool_initialize_ok:
  assumes "0 < size'" and "size' \<le> 1992"
  shows "\<exists>pool. amqp_initialize_pool size' name = Some (Ret pool) \<and> pool_ok (empty_pool_memory x, pool)
    \<and> pool_live (empty_pool_memory x) = {}"
proof -
  let ?a = "24 + 8 * fragments_of size'"
  let ?n = "2016 div ?a"
  have f: "2 \<le> fragments_of size'" "fragments_of size' \<le> 249" using fragments_bound [OF assms(2)] by (simp_all add: fragments_of_def)
  then have a: "40 \<le> ?a" "?a \<le> 2016" by simp_all
  have n: "1 \<le> ?n" "?n < 64" using div_le_mono2 [of 40 ?a 2016] div_le_mono2 [of ?a 2016 2016] a by simp_all
  show ?thesis
    using initialize_run [of size' name] assms n f(1) pool_mask [OF n]
    by (auto simp: initialize_mask_def LONG_BIT_def pool_ok_def config_ok_def blocks_ok_def empty_pool_memory_def
        pool_live_def intro!: exI [of _ ?n] exI [of _ "[]"])
qed

text \<open>
  An object that does not fit the block leaves no allocation per block, but a mask of ones, and
  the first allocation is outside its block.
\<close>

lemma initialize_too_large:
  fixes x :: 'o
  assumes "1992 < size'" and "size' \<le> 2 ^ 60"
  shows "\<exists>pool. amqp_initialize_pool size' name = Some (Ret pool) \<and> allocations_per_block pool = 0
    \<and> allocations_mask pool = - 1 \<and> amqp__allocate (empty_pool_memory x, pool) = Fault BadMemory"
proof -
  let ?a = "24 + 8 * fragments_of size'"
  have "250 \<le> fragments_of size'" using fragments_large [OF assms(1)] .
  then have n: "2016 div ?a = 0" by simp
  have m: "(push_bit 0 1 AND NOT 1) - 1 = (- 1 :: uint64)" by simp
  have "word_byte (- 1 :: uint64) 0 = - 1" by (rule bit_word_eqI) (simp add: bit_word_byte)
  moreover obtain j where "find_first_free_allocation (- 1) = Ret j" using first_free [of "- 1"] by auto
  moreover obtain pool :: "'o amqp_memory_pool_t" where pool: "amqp_initialize_pool size' name = Some (Ret pool)"
    "block_list pool = None" "allocations_per_block pool = 0" "allocations_mask pool = - 1" "initialized pool"
    "initializer_callback pool = Some default_callback" "object_size_in_fragments pool \<noteq> 0"
    using initialize_run [where 'a = 'o, of size' name] assms n m fragments_of_def [of size']
    by (auto simp: initialize_mask_def LONG_BIT_def)
  ultimately have "amqp__allocate (empty_pool_memory x, pool) = Fault BadMemory"
    by (simp add: amqp__allocate_def allocate_object_def empty_pool_memory_def allocate_new_memory_block_def
        allocate_block_def find_free_allocation_within_block_def get_block_def put_block_def
        allocation_from_index_def All_ONES_MASK_def LONG_BIT_def)
  with pool show ?thesis by blast
qed

end
