(* ===== verification/Variable.thy ===== *)
theory Variable
  imports Types Memory
begin

text \<open>
  Variable width values of the application level (\<^verbatim>\<open>AmqpTypes/AmqpVariable.c\<close> and the types built on it:
  \<^verbatim>\<open>AmqpBinary\<close>, \<^verbatim>\<open>AmqpString\<close>, \<^verbatim>\<open>AmqpSymbol\<close>), with the comparison of memory
  blocks of \<^verbatim>\<open>Buffer/Buffer.c\<close> and the hash function of \<^verbatim>\<open>3rd-party/PaulHsieh\<close>. A value refers to a
  decoded value in a buffer, or has its own copy of the bytes. That the copies and the structures are
  freed by the destructors is not modelled here.
\<close>

section \<open>Hashing\<close>

text \<open>A \<open>size_t\<close> that is stored in an \<open>int\<close>, and back.\<close>

definition int_of_size :: "nat \<Rightarrow> int" where
  "int_of_size n = sint (word_of_nat n :: uint32)"

definition size_of_int :: "int \<Rightarrow> nat" where
  "size_of_int i = nat (i mod 2 ^ 64)"

definition get16bits :: "byte \<Rightarrow> byte \<Rightarrow> uint32" where
  "get16bits a b = push_bit 8 (ucast b) + ucast a"

text \<open>The main loop, and the end cases for the bytes that are left. A \<open>char\<close> is signed.\<close>

fun hash_main :: "byte list \<Rightarrow> uint32 \<Rightarrow> uint32" where
  "hash_main (a # b # c # d # rest) hash =
    (let hash = hash + get16bits a b;
         tmp = push_bit 11 (get16bits c d) XOR hash;
         hash = push_bit 16 hash XOR tmp
     in hash_main rest (hash + drop_bit 11 hash))"
| "hash_main [a, b, c] hash =
    (let hash = hash + get16bits a b;
         hash = hash XOR push_bit 16 hash;
         hash = hash XOR push_bit 18 (scast c)
     in hash + drop_bit 11 hash)"
| "hash_main [a, b] hash =
    (let hash = hash + get16bits a b;
         hash = hash XOR push_bit 11 hash
     in hash + drop_bit 17 hash)"
| "hash_main [a] hash =
    (let hash = hash + scast a;
         hash = hash XOR push_bit 10 hash
     in hash + drop_bit 1 hash)"
| "hash_main [] hash = hash"

definition hash_finish :: "uint32 \<Rightarrow> uint32" where
  "hash_finish hash =
    (let hash = hash XOR push_bit 3 hash;
         hash = hash + drop_bit 5 hash;
         hash = hash XOR push_bit 4 hash;
         hash = hash + drop_bit 17 hash;
         hash = hash XOR push_bit 25 hash
     in hash + drop_bit 6 hash)"

definition SuperFastHash :: "byte list option \<Rightarrow> int \<Rightarrow> uint32" where
  "SuperFastHash data len =
    (if len \<le> 0 then 0
     else case data of None \<Rightarrow> 0
        | Some bytes \<Rightarrow> hash_finish (hash_main (take (nat len) bytes) (word_of_int len)))"

definition amqp_hash :: "byte list option \<Rightarrow> int \<Rightarrow> uint32" where
  "amqp_hash data len = SuperFastHash data len"

section \<open>Values\<close>

record amqp_variable_t =
  variable_type :: "(amqp_buffer_t \<times> amqp_type_t) option"
  variable_size :: nat
  variable_data :: "byte list option"

definition amqp_variable_initialize_from_type :: "amqp_buffer_t \<Rightarrow> amqp_type_t \<Rightarrow> amqp_variable_t" where
  "amqp_variable_initialize_from_type buffer t =
     \<lparr>variable_type = Some (buffer, t), variable_size = position_size (position t), variable_data = None\<rparr>"

definition amqp_variable_initialize :: "byte list option \<Rightarrow> nat \<Rightarrow> amqp_variable_t" where
  "amqp_variable_initialize data n = \<lparr>variable_type = None, variable_size = n, variable_data = data\<rparr>"

definition amqp_variable_initialize_as_null :: amqp_variable_t where
  "amqp_variable_initialize_as_null = \<lparr>variable_type = None, variable_size = 0, variable_data = None\<rparr>"

section \<open>Comparison\<close>

text \<open>The bytes behind the first pointer of a memory block, which is all the comparison looks at.\<close>

definition data_to_block :: "amqp_variable_t \<Rightarrow> byte list run" where
  "data_to_block v =
    (case variable_type v of
       Some (buffer, t) \<Rightarrow>
         run_assert (amqp_type_is_variable t)
           (case fragments buffer 0 of
              None \<Rightarrow> Fault BadMemory
            | Some f \<Rightarrow> Ret (map f [0..<AMQP_BUFFER_FRAGMENT_SIZE]))
     | None \<Rightarrow> Ret (case variable_data v of None \<Rightarrow> [] | Some bytes \<Rightarrow> bytes))"

definition data_offset :: "amqp_variable_t \<Rightarrow> nat" where
  "data_offset v = (case variable_type v of Some (buffer, t) \<Rightarrow> position_index (position t) | None \<Rightarrow> 0)"

text \<open>\<open>memcmp\<close>: the difference of the first two bytes that differ.\<close>

fun memcmp :: "byte list \<Rightarrow> byte list \<Rightarrow> int" where
  "memcmp (x # xs) (y # ys) = (if x = y then memcmp xs ys else uint x - uint y)"
| "memcmp _ _ = 0"

definition amqp_block_compare :: "byte list \<Rightarrow> nat \<Rightarrow> byte list \<Rightarrow> nat \<Rightarrow> nat \<Rightarrow> int run" where
  "amqp_block_compare lhs lhs_offset rhs rhs_offset n =
    (if n = 0 then Ret 0
     else if lhs_offset + n \<le> length lhs \<and> rhs_offset + n \<le> length rhs
     then Ret (memcmp (take n (drop lhs_offset lhs)) (take n (drop rhs_offset rhs)))
     else Fault BadMemory)"

definition compare_blocks :: "amqp_variable_t \<Rightarrow> byte list \<Rightarrow> nat \<Rightarrow> nat \<Rightarrow> int run" where
  "compare_blocks lhs rhs_block rhs_offset rhs_size =
    (let n = int_of_size (variable_size lhs);
         n = (if rhs_size < size_of_int n then int_of_size rhs_size else n)
     in run_bind (data_to_block lhs) (\<lambda>lhs_block.
        run_bind (amqp_block_compare lhs_block (data_offset lhs) rhs_block rhs_offset (size_of_int n)) (\<lambda>rc.
        Ret (if rc \<noteq> 0 then rc else int_of_size (size_sub (variable_size lhs) rhs_size)))))"

definition amqp_variable_compare :: "amqp_variable_t \<Rightarrow> amqp_variable_t \<Rightarrow> int run" where
  "amqp_variable_compare lhs rhs =
     run_bind (data_to_block rhs) (\<lambda>rhs_block. compare_blocks lhs rhs_block (data_offset rhs) (variable_size rhs))"

definition amqp_variable_compare_with_bytes :: "amqp_variable_t \<Rightarrow> byte list \<Rightarrow> nat \<Rightarrow> int run" where
  "amqp_variable_compare_with_bytes lhs rhs rhs_size = compare_blocks lhs rhs 0 rhs_size"

text \<open>A C string is the bytes before the first zero byte.\<close>

definition amqp_variable_compare_with_cstr :: "amqp_variable_t \<Rightarrow> byte list \<Rightarrow> int run" where
  "amqp_variable_compare_with_cstr lhs rhs =
     amqp_variable_compare_with_bytes lhs rhs (length (takeWhile (\<lambda>c. c \<noteq> 0) rhs))"

text \<open>The hash of a decoded value reads from a pointer into one fragment.\<close>

definition amqp_variable_hash :: "amqp_variable_t \<Rightarrow> uint32 run" where
  "amqp_variable_hash v =
    (case variable_type v of
       Some (buffer, t) \<Rightarrow>
         run_bind (if position_size (position t) = 0 then Ret []
           else fragment_slice buffer (drop_bit AMQP_FRAGMENT_INDEX_BITS (position_index (position t)))
             (position_index (position t) AND AMQP_FRAGMENT_INDEX_MASK) (position_size (position t))) (\<lambda>bytes.
         Ret (amqp_hash (Some bytes) (int_of_size (position_size (position t)))))
     | None \<Rightarrow> Ret (amqp_hash (variable_data v) (int_of_size (variable_size v))))"

section \<open>Copies\<close>

text \<open>The number of bytes and the bytes written to the caller's buffer.\<close>

definition amqp_variable_to_bytes :: "amqp_variable_t \<Rightarrow> nat \<Rightarrow> (nat \<times> byte list) run" where
  "amqp_variable_to_bytes v buffer_size =
     run_assert (variable_type v \<noteq> None \<or> variable_data v \<noteq> None)
       (case variable_type v of
          Some (buffer, t) \<Rightarrow> amqp_type_copy_to buffer t buffer_size
        | None \<Rightarrow>
            (case variable_data v of
               None \<Rightarrow> Fault BadMemory
             | Some bytes \<Rightarrow>
                 let n = (if buffer_size \<le> variable_size v then buffer_size else variable_size v)
                 in if n \<le> length bytes then Ret (n, take n bytes) else Fault BadMemory))"

text \<open>The clone has its size rounded up to whole words; the bytes past the copy are zero.\<close>

definition amqp_variable_clone_data :: "amqp_variable_t \<Rightarrow> byte list option run" where
  "amqp_variable_clone_data source =
    (if variable_data source \<noteq> None \<or> variable_type source \<noteq> None
     then run_bind (amqp_variable_to_bytes source (variable_size source)) (\<lambda>(n, bytes).
            Ret (Some (bytes @ replicate (8 * byte_count_rounded (variable_size source) - length bytes) 0)))
     else Ret None)"

section \<open>Binary, string and symbol\<close>

text \<open>How the destructor of a value treats it: not at all, as part of a structure, or as a heap object.\<close>

datatype amqp_fn_table_t = No_dtor | Initialize_dtor | Create_dtor

record amqp_binary_t =
  fn_table :: amqp_fn_table_t
  v :: amqp_variable_t

type_synonym amqp_string_t = amqp_binary_t
type_synonym amqp_symbol_t = amqp_binary_t

definition amqp_binary_initialize_as_null :: amqp_binary_t where
  "amqp_binary_initialize_as_null = \<lparr>fn_table = No_dtor, v = amqp_variable_initialize_as_null\<rparr>"

definition amqp_binary_is_null :: "amqp_binary_t \<Rightarrow> bool" where
  "amqp_binary_is_null x \<longleftrightarrow> variable_type (v x) = None \<and> variable_data (v x) = None"

definition amqp_binary_initialize_from_type :: "amqp_buffer_t \<Rightarrow> amqp_type_t \<Rightarrow> amqp_binary_t run" where
  "amqp_binary_initialize_from_type buffer t =
     run_assert (amqp_type_is_binary t)
       (Ret \<lparr>fn_table = Initialize_dtor, v = amqp_variable_initialize_from_type buffer t\<rparr>)"

definition amqp_binary_create_from_type :: "amqp_buffer_t \<Rightarrow> amqp_type_t \<Rightarrow> amqp_binary_t run" where
  "amqp_binary_create_from_type buffer t =
     run_assert (amqp_type_is_binary t)
       (Ret \<lparr>fn_table = Create_dtor, v = amqp_variable_initialize_from_type buffer t\<rparr>)"

definition amqp_binary_initialize :: "byte list \<Rightarrow> amqp_binary_t" where
  "amqp_binary_initialize data =
     \<lparr>fn_table = Initialize_dtor, v = amqp_variable_initialize (Some data) (length data)\<rparr>"

definition binary_create :: "byte list option \<Rightarrow> nat \<Rightarrow> amqp_binary_t" where
  "binary_create data n = \<lparr>fn_table = Create_dtor, v = amqp_variable_initialize data n\<rparr>"

definition amqp_binary_create :: "byte list \<Rightarrow> amqp_binary_t" where
  "amqp_binary_create data = binary_create (Some data) (length data)"

definition amqp_binary_clone :: "amqp_binary_t \<Rightarrow> amqp_binary_t run" where
  "amqp_binary_clone source =
     run_bind (amqp_variable_clone_data (v source)) (\<lambda>data. Ret (binary_create data (variable_size (v source))))"

definition amqp_binary_to_bytes :: "amqp_binary_t \<Rightarrow> nat \<Rightarrow> (nat \<times> byte list) run" where
  "amqp_binary_to_bytes x n = amqp_variable_to_bytes (v x) n"

definition amqp_binary_compare :: "amqp_binary_t \<Rightarrow> amqp_binary_t \<Rightarrow> int run" where
  "amqp_binary_compare lhs rhs = amqp_variable_compare (v lhs) (v rhs)"

definition amqp_binary_compare_with_bytes :: "amqp_binary_t \<Rightarrow> byte list \<Rightarrow> nat \<Rightarrow> int run" where
  "amqp_binary_compare_with_bytes lhs rhs n = amqp_variable_compare_with_bytes (v lhs) rhs n"

definition amqp_binary_hash :: "amqp_binary_t \<Rightarrow> uint32 run" where
  "amqp_binary_hash x = amqp_variable_hash (v x)"

definition amqp_binary_byte_get_at :: "amqp_binary_t \<Rightarrow> nat \<Rightarrow> byte run" where
  "amqp_binary_byte_get_at x index =
    (case variable_type (v x) of
       None \<Rightarrow> Fault AssertFailed
     | Some (buffer, t) \<Rightarrow> amqp_type_get_byte_at buffer t index)"

text \<open>The search from position \<open>i\<close> on, with \<open>n\<close> bytes left.\<close>

primrec index_of_loop :: "amqp_binary_t \<Rightarrow> int \<Rightarrow> nat \<Rightarrow> nat \<Rightarrow> int run" where
  "index_of_loop x c i 0 = Ret (- 1)"
| "index_of_loop x c i (Suc n) =
     run_bind (amqp_binary_byte_get_at x i) (\<lambda>b.
     if uint b = c then Ret (int i) else index_of_loop x c (Suc i) n)"

definition amqp_binary_index_of :: "amqp_binary_t \<Rightarrow> int \<Rightarrow> nat \<Rightarrow> int run" where
  "amqp_binary_index_of x c starting_position =
     index_of_loop x c starting_position (variable_size (v x) - starting_position)"

primrec sub_sequence_loop :: "amqp_binary_t \<Rightarrow> nat \<Rightarrow> nat \<Rightarrow> byte list run" where
  "sub_sequence_loop x i 0 = Ret []"
| "sub_sequence_loop x i (Suc n) =
     run_bind (amqp_binary_byte_get_at x i) (\<lambda>b. run_bind (sub_sequence_loop x (Suc i) n) (\<lambda>bs. Ret (b # bs)))"

text \<open>The memory past the copy is zero, so the result is terminated.\<close>

definition amqp_binary_sub_sequence :: "amqp_binary_t \<Rightarrow> nat \<Rightarrow> nat \<Rightarrow> byte list run" where
  "amqp_binary_sub_sequence x start n =
     run_bind (sub_sequence_loop x start n) (\<lambda>bs.
     Ret (bs @ replicate (8 * byte_count_rounded (n + 1) - n) 0))"

definition amqp_string_initialize_from_type :: "amqp_buffer_t \<Rightarrow> amqp_type_t \<Rightarrow> amqp_string_t run" where
  "amqp_string_initialize_from_type buffer t =
     run_assert (amqp_type_is_string t)
       (Ret \<lparr>fn_table = Initialize_dtor, v = amqp_variable_initialize_from_type buffer t\<rparr>)"

definition amqp_string_create_from_type :: "amqp_buffer_t \<Rightarrow> amqp_type_t \<Rightarrow> amqp_string_t run" where
  "amqp_string_create_from_type buffer t =
     run_assert (amqp_type_is_string t)
       (Ret \<lparr>fn_table = Create_dtor, v = amqp_variable_initialize_from_type buffer t\<rparr>)"

definition amqp_string_create :: "byte list \<Rightarrow> amqp_string_t" where
  "amqp_string_create data = \<lparr>fn_table = Create_dtor, v = amqp_variable_initialize (Some data) (length data)\<rparr>"

definition amqp_string_clone :: "amqp_string_t \<Rightarrow> amqp_string_t run" where
  "amqp_string_clone source =
     run_bind (amqp_variable_clone_data (v source)) (\<lambda>data.
     Ret \<lparr>fn_table = Create_dtor, v = amqp_variable_initialize data (variable_size (v source))\<rparr>)"

definition amqp_string_compare :: "amqp_string_t \<Rightarrow> amqp_string_t \<Rightarrow> int run" where
  "amqp_string_compare lhs rhs = amqp_variable_compare (v lhs) (v rhs)"

definition amqp_string_compare_with_cstr :: "amqp_string_t \<Rightarrow> byte list \<Rightarrow> int run" where
  "amqp_string_compare_with_cstr lhs rhs = amqp_variable_compare_with_cstr (v lhs) rhs"

definition amqp_string_hash :: "amqp_string_t \<Rightarrow> uint32 run" where
  "amqp_string_hash x = amqp_variable_hash (v x)"

definition amqp_string_to_cstr :: "amqp_string_t \<Rightarrow> byte list option run" where
  "amqp_string_to_cstr x =
    (if \<not> (variable_type (v x) = None \<and> variable_data (v x) = None) then amqp_variable_clone_data (v x) else Ret None)"

definition amqp_symbol_initialize_from_type :: "amqp_buffer_t \<Rightarrow> amqp_type_t \<Rightarrow> amqp_symbol_t run" where
  "amqp_symbol_initialize_from_type buffer t =
     run_assert (amqp_type_is_symbol t)
       (Ret \<lparr>fn_table = Initialize_dtor, v = amqp_variable_initialize_from_type buffer t\<rparr>)"

definition amqp_symbol_create_from_type :: "amqp_buffer_t \<Rightarrow> amqp_type_t \<Rightarrow> amqp_symbol_t run" where
  "amqp_symbol_create_from_type buffer t =
     run_assert (amqp_type_is_symbol t)
       (Ret \<lparr>fn_table = Create_dtor, v = amqp_variable_initialize_from_type buffer t\<rparr>)"

definition amqp_symbol_create :: "byte list \<Rightarrow> amqp_symbol_t" where
  "amqp_symbol_create data = \<lparr>fn_table = Create_dtor, v = amqp_variable_initialize (Some data) (length data)\<rparr>"

definition amqp_symbol_clone :: "amqp_symbol_t \<Rightarrow> amqp_symbol_t run" where
  "amqp_symbol_clone source =
     run_bind (amqp_variable_clone_data (v source)) (\<lambda>data.
     Ret \<lparr>fn_table = Create_dtor, v = amqp_variable_initialize data (variable_size (v source))\<rparr>)"

definition amqp_symbol_compare :: "amqp_symbol_t \<Rightarrow> amqp_symbol_t \<Rightarrow> int run" where
  "amqp_symbol_compare lhs rhs = amqp_variable_compare (v lhs) (v rhs)"

definition amqp_symbol_compare_with_cstr :: "amqp_symbol_t \<Rightarrow> byte list \<Rightarrow> int run" where
  "amqp_symbol_compare_with_cstr lhs rhs = amqp_variable_compare_with_cstr (v lhs) rhs"

definition amqp_symbol_hash :: "amqp_symbol_t \<Rightarrow> uint32 run" where
  "amqp_symbol_hash x = amqp_variable_hash (v x)"

section \<open>The bytes of a value\<close>

definition variable_value :: "amqp_variable_t \<Rightarrow> byte list" where
  "variable_value x =
    (case variable_type x of
       Some (buffer, t) \<Rightarrow>
         map (byte_at buffer) [position_index (position t)..<position_index (position t) + position_size (position t)]
     | None \<Rightarrow> take (variable_size x) (case variable_data x of None \<Rightarrow> [] | Some bytes \<Rightarrow> bytes))"

text \<open>A value that can be compared: a copy, or a decoded value in the first fragment of its buffer.\<close>

definition comparable :: "amqp_variable_t \<Rightarrow> bool" where
  "comparable x \<longleftrightarrow> variable_size x < 2 ^ 31 \<and>
    (case variable_type x of
       Some (buffer, t) \<Rightarrow> buffer_ok buffer \<and> amqp_type_is_variable t \<and> variable_size x = position_size (position t)
         \<and> position_index (position t) + position_size (position t) \<le> AMQP_BUFFER_FRAGMENT_SIZE
     | None \<Rightarrow> \<exists>bytes. variable_data x = Some bytes \<and> variable_size x \<le> length bytes)"

lemma length_variable_value: "comparable x \<Longrightarrow> length (variable_value x) = variable_size x"
  by (auto simp: comparable_def variable_value_def split: option.splits)

lemma first_fragment:
  assumes "buffer_ok b"
  shows "\<exists>f. fragments b 0 = Some f \<and> map f [0..<AMQP_BUFFER_FRAGMENT_SIZE] = map (byte_at b) [0..<AMQP_BUFFER_FRAGMENT_SIZE]"
proof -
  have "0 < capacity b" using assms by (auto simp: buffer_ok_def Let_def)
  then obtain f where "fragments b 0 = Some f" using owned_fragment [OF assms, of 0] by auto
  then show ?thesis by (auto simp: byte_at_def)
qed

lemma comparable_block:
  assumes "comparable x"
  shows "\<exists>block. data_to_block x = Ret block \<and> data_offset x + variable_size x \<le> length block
    \<and> take (variable_size x) (drop (data_offset x) block) = variable_value x"
proof (cases "variable_type x")
  case None
  then show ?thesis using assms by (auto simp: comparable_def data_to_block_def data_offset_def variable_value_def)
next
  case (Some bt)
  obtain b t where bt: "bt = (b, t)" by (cases bt)
  let ?i = "position_index (position t)" and ?n = "position_size (position t)"
  have c: "buffer_ok b" "amqp_type_is_variable t" "variable_size x = ?n" "?i + ?n \<le> AMQP_BUFFER_FRAGMENT_SIZE"
    using assms Some bt by (auto simp: comparable_def)
  obtain f where f: "fragments b 0 = Some f"
    "map f [0..<AMQP_BUFFER_FRAGMENT_SIZE] = map (byte_at b) [0..<AMQP_BUFFER_FRAGMENT_SIZE]"
    using first_fragment [OF c(1)] by blast
  have "take ?n (drop ?i (map (byte_at b) [0..<AMQP_BUFFER_FRAGMENT_SIZE])) = map (byte_at b) [?i..<?i + ?n]"
    using c(4) by (simp add: drop_map take_map)
  then show ?thesis using Some bt c by (simp add: data_to_block_def data_offset_def variable_value_def f)
qed

section \<open>The comparison is the lexicographic order of the bytes\<close>

lemma memcmp_lexord:
  "ord_class.lexordp xs ys \<longleftrightarrow> memcmp xs ys < 0 \<or> memcmp xs ys = 0 \<and> length xs < length ys"
  "xs = ys \<longleftrightarrow> memcmp xs ys = 0 \<and> length xs = length ys"
  by (induction xs ys rule: memcmp.induct) (auto simp: word_less_def word_uint_eq_iff)

lemma memcmp_prefix: "memcmp (take (min (length xs) (length ys)) xs) (take (min (length xs) (length ys)) ys) = memcmp xs ys"
  by (induction xs ys rule: memcmp.induct) auto

lemma int_of_size_small: "n < 2 ^ 31 \<Longrightarrow> int_of_size n = int n"
  unfolding int_of_size_def
  by (subst of_int_of_nat_eq [symmetric], subst signed_of_int) (simp add: signed_take_bit_int_eq_self)

lemma int_of_size_diff:
  assumes "a < 2 ^ 31" and "b < 2 ^ 31"
  shows "int_of_size (size_sub a b) = int a - int b"
proof -
  have "(word_of_nat (x mod 2 ^ 64) :: uint32) = word_of_nat x" for x
    by (simp only: word_of_nat_eq_iff take_bit_eq_mod) (simp add: mod_mod_cancel)
  then have "(word_of_nat (size_sub a b) :: uint32) = word_of_nat (a + (2 ^ 64 - b))" unfolding size_sub_def .
  also have "\<dots> = word_of_int (int a - int b)"
  proof -
    have "int (a + (2 ^ 64 - b)) = int a - int b + 2 ^ 64" using assms by simp
    then have "(word_of_nat (a + (2 ^ 64 - b)) :: uint32) = word_of_int (int a - int b + 2 ^ 64)"
      by (metis of_int_of_nat_eq)
    then show ?thesis by simp
  qed
  finally have "int_of_size (size_sub a b) = sint (word_of_int (int a - int b) :: uint32)"
    unfolding int_of_size_def by (rule arg_cong)
  also have "\<dots> = int a - int b"
  proof -
    have "signed_take_bit (LENGTH(32) - Suc 0) (int a - int b) = int a - int b"
      using assms by (intro signed_take_bit_int_eq_self) simp_all
    then show ?thesis unfolding signed_of_int by simp
  qed
  finally show ?thesis .
qed

lemma compare_ok:
  assumes x: "comparable x" and b: "off + n \<le> length block" "n < 2 ^ 31"
  shows "\<exists>r. compare_blocks x block off n = Ret r \<and> (r = 0 \<longleftrightarrow> variable_value x = take n (drop off block))
    \<and> (r < 0 \<longleftrightarrow> ord_class.lexordp (variable_value x) (take n (drop off block)))"
proof -
  let ?m = "variable_size x" and ?xs = "variable_value x" and ?ys = "take n (drop off block)"
  let ?k = "min ?m n"
  obtain xb where xb: "data_to_block x = Ret xb" "data_offset x + ?m \<le> length xb" "take ?m (drop (data_offset x) xb) = ?xs"
    using comparable_block [OF x] by blast
  have len: "length ?xs = ?m" "length ?ys = n" "?m < 2 ^ 31" using length_variable_value [OF x] b x by (simp_all add: comparable_def)
  have k: "size_of_int (if n < size_of_int (int_of_size ?m) then int_of_size n else int_of_size ?m) = ?k"
    using len(3) b(2) by (simp add: int_of_size_small size_of_int_def)
  have t: "take ?k (drop (data_offset x) xb) = take ?k ?xs" "take ?k (drop off block) = take ?k ?ys"
    unfolding xb(3) [symmetric] by simp_all
  have "amqp_block_compare xb (data_offset x) block off ?k = Ret (memcmp ?xs ?ys)"
  proof (cases "?k = 0")
    case True
    then have "memcmp ?xs ?ys = 0" using memcmp_prefix [of ?xs ?ys] unfolding len(1,2) by simp
    then show ?thesis using True by (simp add: amqp_block_compare_def)
  next
    case False
    have "data_offset x + ?k \<le> length xb \<and> off + ?k \<le> length block" using xb(2) b(1) by linarith
    then show ?thesis
      using memcmp_prefix [of ?xs ?ys] unfolding len(1,2) amqp_block_compare_def t if_not_P [OF False] by simp
  qed
  then have "compare_blocks x block off n =
      Ret (if memcmp ?xs ?ys \<noteq> 0 then memcmp ?xs ?ys else int ?m - int n)"
    using xb(1) k len(3) b(2) by (simp add: compare_blocks_def Let_def int_of_size_diff)
  then show ?thesis using memcmp_lexord [of ?xs ?ys] len by auto
qed

lemma variable_compare_ok:
  assumes "comparable x" and "comparable y"
  shows "\<exists>r. amqp_variable_compare x y = Ret r \<and> (r = 0 \<longleftrightarrow> variable_value x = variable_value y)
    \<and> (r < 0 \<longleftrightarrow> ord_class.lexordp (variable_value x) (variable_value y))"
proof -
  obtain block where "data_to_block y = Ret block" "data_offset y + variable_size y \<le> length block"
    "take (variable_size y) (drop (data_offset y) block) = variable_value y"
    using comparable_block [OF assms(2)] by blast
  then show ?thesis
    using compare_ok [OF assms(1), of "data_offset y" "variable_size y" block] assms(2)
    by (auto simp: amqp_variable_compare_def comparable_def)
qed

text \<open>A decoded value past the first fragment is compared with memory that does not belong to it.\<close>

lemma variable_compare_past_fragment:
  assumes "buffer_ok b" and "amqp_type_is_variable t" and "variable_size y < 2 ^ 31" and "comparable y"
    and "0 < position_size (position t)" "position_size (position t) < 2 ^ 31" "0 < variable_size y"
    and "AMQP_BUFFER_FRAGMENT_SIZE < position_index (position t) + min (position_size (position t)) (variable_size y)"
  shows "amqp_variable_compare (amqp_variable_initialize_from_type b t) y = Fault BadMemory"
proof -
  let ?x = "amqp_variable_initialize_from_type b t"
  obtain block where y: "data_to_block y = Ret block" using comparable_block [OF assms(4)] by blast
  obtain f where f: "fragments b 0 = Some f" using first_fragment [OF assms(1)] by blast
  have k: "size_of_int (if variable_size y < size_of_int (int_of_size (position_size (position t)))
      then int_of_size (variable_size y) else int_of_size (position_size (position t))) = min (position_size (position t)) (variable_size y)"
    using assms(3,6) by (simp add: int_of_size_small size_of_int_def)
  show ?thesis
    using y f assms(2,5,7,8) k
    by (simp add: amqp_variable_compare_def compare_blocks_def amqp_variable_initialize_from_type_def data_to_block_def
        data_offset_def amqp_block_compare_def Let_def)
qed

section \<open>Hashes agree with the bytes\<close>

lemma variable_hash_ok:
  assumes "comparable x"
  shows "amqp_variable_hash x = Ret (amqp_hash (Some (variable_value x)) (int (variable_size x)))"
proof (cases "variable_type x")
  case None
  then obtain bytes where b: "variable_data x = Some bytes" "variable_size x \<le> length bytes" "variable_size x < 2 ^ 31"
    using assms by (auto simp: comparable_def)
  then show ?thesis
    using None by (simp add: amqp_variable_hash_def variable_value_def amqp_hash_def SuperFastHash_def int_of_size_small)
next
  case (Some bt)
  obtain b t where bt: "bt = (b, t)" by (cases bt)
  let ?i = "position_index (position t)" and ?n = "position_size (position t)"
  have c: "buffer_ok b" "variable_size x = ?n" "?i + ?n \<le> AMQP_BUFFER_FRAGMENT_SIZE" "?n < 2 ^ 31"
    using assms Some bt by (auto simp: comparable_def)
  have pos: "0 < capacity b" using c(1) by (auto simp: buffer_ok_def Let_def)
  have "fragment_slice b (?i div AMQP_BUFFER_FRAGMENT_SIZE) (?i mod AMQP_BUFFER_FRAGMENT_SIZE) ?n
      = Ret (map (byte_at b) [?i..<?i + ?n])" if "?i < AMQP_BUFFER_FRAGMENT_SIZE"
    using fragment_slice_ok [OF c(1), of 0 ?i ?n] c(3) pos that by simp
  then show ?thesis
    using Some bt c by (cases "?i < AMQP_BUFFER_FRAGMENT_SIZE")
      (simp_all add: amqp_variable_hash_def variable_value_def int_of_size_small buffer_simps)
qed

section \<open>Copies have the same bytes\<close>

lemma to_bytes_ok:
  assumes "comparable x" and "variable_size x = 0 \<longrightarrow> variable_type x = None"
  shows "amqp_variable_to_bytes x (variable_size x) = Ret (variable_size x, variable_value x)"
proof (cases "variable_type x")
  case None
  then show ?thesis using assms by (auto simp: comparable_def amqp_variable_to_bytes_def variable_value_def Let_def)
next
  case (Some bt)
  obtain b t where bt: "bt = (b, t)" by (cases bt)
  let ?i = "position_index (position t)" and ?n = "position_size (position t)"
  have c: "buffer_ok b" "amqp_type_is_variable t" "variable_size x = ?n" "?i + ?n \<le> AMQP_BUFFER_FRAGMENT_SIZE"
    using assms(1) Some bt by (auto simp: comparable_def)
  have n: "?i < AMQP_BUFFER_FRAGMENT_SIZE" using assms(2) Some c(3,4) by simp
  have "1 \<le> capacity b div AMQP_BUFFER_FRAGMENT_SIZE" "capacity b = capacity b div AMQP_BUFFER_FRAGMENT_SIZE * AMQP_BUFFER_FRAGMENT_SIZE"
    using c(1) by (auto simp: buffer_ok_def Let_def)
  then have "AMQP_BUFFER_FRAGMENT_SIZE \<le> capacity b" by linarith
  then have "amqp_buffer_block_copy b ?i ?n = Ret (map (byte_at b) [?i..<?i + ?n])"
    using c(4) n by (intro block_copy_one_fragment [OF c(1)]) simp_all
  then show ?thesis
    using Some bt c by (simp add: amqp_variable_to_bytes_def amqp_type_copy_to_def variable_value_def Let_def)
qed

lemma clone_data_ok:
  assumes "comparable x" and "variable_size x = 0 \<longrightarrow> variable_type x = None"
  shows "\<exists>k. amqp_variable_clone_data x = Ret (Some (variable_value x @ replicate k 0))"
  using to_bytes_ok [OF assms] assms(1)
  by (auto simp: amqp_variable_clone_data_def comparable_def split: option.splits)

lemma symbol_clone_ok:
  assumes "comparable (v x)" and "variable_size (v x) = 0 \<longrightarrow> variable_type (v x) = None"
  shows "\<exists>y. amqp_symbol_clone x = Ret y \<and> comparable (v y) \<and> variable_value (v y) = variable_value (v x)
    \<and> variable_type (v y) = None"
proof -
  obtain k where k: "amqp_variable_clone_data (v x) = Ret (Some (variable_value (v x) @ replicate k 0))"
    using clone_data_ok [OF assms] by blast
  have "length (variable_value (v x)) = variable_size (v x)" by (rule length_variable_value [OF assms(1)])
  then show ?thesis
    using k assms(1) by (auto simp: amqp_symbol_clone_def amqp_variable_initialize_def comparable_def variable_value_def)
qed

lemma create_comparable:
  "length bs < 2 ^ 31 \<Longrightarrow> comparable (v (amqp_symbol_create bs))" "variable_value (v (amqp_symbol_create bs)) = bs"
  by (simp_all add: amqp_symbol_create_def amqp_variable_initialize_def comparable_def variable_value_def)

text \<open>
  The C string of a value whose size is a multiple of 8 has no terminator: the memory is as large
  as the value.
\<close>

lemma to_cstr_unterminated:
  assumes "bs \<noteq> []" and "length bs < 2 ^ 31" and "length bs mod 8 = 0"
  shows "amqp_string_to_cstr (amqp_string_create bs) = Ret (Some bs)"
proof -
  let ?x = "v (amqp_string_create bs)"
  have x: "comparable ?x" "variable_value ?x = bs" "variable_type ?x = None" "variable_size ?x = length bs"
    "variable_data ?x = Some bs"
    using assms(2) by (simp_all add: amqp_string_create_def amqp_variable_initialize_def comparable_def variable_value_def)
  have "byte_count_rounded (length bs) = (length bs - 1) div 8 + 1" using assms(1,2) by (intro rounded(1)) simp_all
  moreover obtain q where q: "length bs = 8 * q" using assms(3) by auto
  moreover have "(8 * q - 1) div 8 = q - 1" using assms(1) q by (cases q) simp_all
  ultimately have "8 * byte_count_rounded (length bs) = length bs" using assms(1) by (cases q) simp_all
  then show ?thesis
    using to_bytes_ok [of ?x] x assms(1) by (simp add: amqp_string_to_cstr_def amqp_variable_clone_data_def)
qed

section \<open>Searching a binary\<close>

text \<open>The first position from \<open>i\<close> on with the byte \<open>c\<close>, as the library function \<open>List.find\<close> gives it.\<close>

lemma index_of_loop_ok:
  assumes "\<And>k. i \<le> k \<Longrightarrow> k < i + n \<Longrightarrow> amqp_binary_byte_get_at x k = Ret (f k)"
  shows "index_of_loop x c i n =
    Ret (case List.find (\<lambda>k. uint (f k) = c) [i..<i + n] of None \<Rightarrow> - 1 | Some k \<Rightarrow> int k)"
  using assms
proof (induction n arbitrary: i)
  case (Suc n)
  have "[i..<i + Suc n] = i # [Suc i..<Suc i + n]" by (simp add: upt_conv_Cons)
  then show ?case using Suc.prems [of i] Suc.IH [of "Suc i"] Suc.prems by simp
qed simp

end
