(* ===== verification/Hash_Table.thy ===== *)
theory Hash_Table
  imports Variable Misc "HOL-Library.Multiset"
begin

text \<open>
  The hash table of \<^verbatim>\<open>AmqpTypes/AmqpHashTable.c\<close>: an array of collision chains and a list of all
  entries. A chain, and the list of entries, is a list of pairs of a key and its data, the newest first.
  The hash and the comparison of keys are function pointers of the table, which may fault on a key
  they cannot read.
\<close>

section \<open>Operations\<close>

record ('k, 'd) amqp_hash_table_t =
  table_capacity :: nat
  table_count :: nat
  buckets :: "('k \<times> 'd) list list"
  entry_list :: "('k \<times> 'd) list"
  hash_fn :: "'k \<Rightarrow> uint32 run"
  compare_fn :: "'k \<Rightarrow> 'k \<Rightarrow> int run"
  on_heap :: bool

definition amqp_hash_table_initialize ::
  "int \<Rightarrow> ('k \<Rightarrow> uint32 run) \<Rightarrow> ('k \<Rightarrow> 'k \<Rightarrow> int run) \<Rightarrow> ('k, 'd) amqp_hash_table_t run" where
  "amqp_hash_table_initialize initial_capacity hash compare =
    (let capacity = unat (amqp_next_power_two_64 (word_of_int initial_capacity))
     in run_assert (0 < capacity)
          (Ret \<lparr>table_capacity = capacity, table_count = 0, buckets = replicate capacity [], entry_list = [],
                hash_fn = hash, compare_fn = compare, on_heap = False\<rparr>))"

definition amqp_hash_table_create ::
  "int \<Rightarrow> ('k \<Rightarrow> uint32 run) \<Rightarrow> ('k \<Rightarrow> 'k \<Rightarrow> int run) \<Rightarrow> ('k, 'd) amqp_hash_table_t run" where
  "amqp_hash_table_create initial_capacity hash compare =
     run_bind (amqp_hash_table_initialize initial_capacity hash compare) (\<lambda>t. Ret (t\<lparr>on_heap := True\<rparr>))"

text \<open>
  The callback is called on every entry, the newest first; \<open>s\<close> is the state it works on. The
  result is \<open>None\<close> when the table itself was on the heap.
\<close>

definition amqp_hash_table_cleanup ::
  "('k, 'd) amqp_hash_table_t option \<Rightarrow> ('k \<Rightarrow> 'd \<Rightarrow> 's \<Rightarrow> 's) option \<Rightarrow> 's \<Rightarrow> 's \<times> ('k, 'd) amqp_hash_table_t option" where
  "amqp_hash_table_cleanup table callback s =
    (case table of
       None \<Rightarrow> (s, None)
     | Some t \<Rightarrow>
         (case callback of None \<Rightarrow> s | Some f \<Rightarrow> fold (\<lambda>(k, d). f k d) (entry_list t) s,
          if on_heap t then None else Some (t\<lparr>buckets := [], entry_list := []\<rparr>)))"

definition add_entry :: "('k, 'd) amqp_hash_table_t \<Rightarrow> nat \<Rightarrow> 'k \<Rightarrow> 'd \<Rightarrow> ('k, 'd) amqp_hash_table_t" where
  "add_entry t index key data =
     t\<lparr>buckets := (buckets t)[index := (key, data) # buckets t ! index],
       entry_list := (key, data) # entry_list t, table_count := table_count t + 1\<rparr>"

primrec search_chain :: "('k, 'd) amqp_hash_table_t \<Rightarrow> ('k \<times> 'd) list \<Rightarrow> 'k \<Rightarrow> ('k \<times> 'd) option run" where
  "search_chain t [] key = Ret None"
| "search_chain t (entry # chain) key =
     run_bind (compare_fn t (fst entry) key) (\<lambda>rc.
     if rc \<noteq> 0 then search_chain t chain key else Ret (Some entry))"

text \<open>The index is an \<open>int\<close>.\<close>

definition calculate_index :: "('k, 'd) amqp_hash_table_t \<Rightarrow> 'k \<Rightarrow> int run" where
  "calculate_index t key =
     run_bind (hash_fn t key) (\<lambda>hash.
     let msk = word_of_nat (size_sub (table_capacity t) 1) in Ret (sint (hash AND msk)))"

definition bucket :: "('k, 'd) amqp_hash_table_t \<Rightarrow> int \<Rightarrow> ('k \<times> 'd) list run" where
  "bucket t index =
    (if 0 \<le> index \<and> nat index < length (buckets t) then Ret (buckets t ! nat index) else Fault BadMemory)"

definition amqp_hash_table_put :: "('k, 'd) amqp_hash_table_t \<Rightarrow> 'k \<Rightarrow> 'd \<Rightarrow> (bool \<times> ('k, 'd) amqp_hash_table_t) run" where
  "amqp_hash_table_put t key data =
     run_bind (calculate_index t key) (\<lambda>index.
     run_bind (bucket t index) (\<lambda>chain.
     run_bind (if chain \<noteq> [] then search_chain t chain key else Ret None) (\<lambda>found.
     if found \<noteq> None then Ret (False, t) else Ret (True, add_entry t (nat index) key data))))"

definition amqp_hash_table_get :: "('k, 'd) amqp_hash_table_t \<Rightarrow> 'k \<Rightarrow> 'd option run" where
  "amqp_hash_table_get t key =
     run_bind (calculate_index t key) (\<lambda>index.
     run_bind (bucket t index) (\<lambda>chain.
     run_bind (search_chain t chain key) (\<lambda>found. Ret (map_option snd found))))"

definition amqp_hash_table_capacity :: "('k, 'd) amqp_hash_table_t \<Rightarrow> nat" where
  "amqp_hash_table_capacity t = table_capacity t"

definition amqp_hash_table_count :: "('k, 'd) amqp_hash_table_t \<Rightarrow> nat" where
  "amqp_hash_table_count t = table_count t"

text \<open>Entering a list of entries, as the loops of the clients do.\<close>

primrec put_all :: "('k, 'd) amqp_hash_table_t \<Rightarrow> ('k \<times> 'd) list \<Rightarrow> ('k, 'd) amqp_hash_table_t run" where
  "put_all t [] = Ret t"
| "put_all t (e # es) = run_bind (amqp_hash_table_put t (fst e) (snd e)) (\<lambda>(ok, t). put_all t es)"

lemma chain_insert:
  "i < length xs \<Longrightarrow> sum_list (map mset (xs[i := e # xs ! i])) = add_mset e (sum_list (map mset xs))"
  by (induction xs arbitrary: i) (auto simp: nth_Cons split: nat.splits)

section \<open>The contract of the keys, and the table as a map\<close>

locale hash_key =
  fixes good :: "'k \<Rightarrow> bool" and key_of :: "'k \<Rightarrow> 'v" and hash :: "'k \<Rightarrow> uint32 run"
    and compare :: "'k \<Rightarrow> 'k \<Rightarrow> int run" and hash_of :: "'v \<Rightarrow> uint32"
  assumes hash_ok: "good x \<Longrightarrow> hash x = Ret (hash_of (key_of x))"
    and compare_ok: "good x \<Longrightarrow> good y \<Longrightarrow> \<exists>r. compare x y = Ret r \<and> (r = 0 \<longleftrightarrow> key_of x = key_of y)"
begin

definition entries_map :: "('k \<times> 'd) list \<Rightarrow> 'v \<Rightarrow> 'd option" where
  "entries_map es = map_of (map (\<lambda>e. (key_of (fst e), snd e)) es)"

definition index_of_key :: "('k, 'd) amqp_hash_table_t \<Rightarrow> 'v \<Rightarrow> nat" where
  "index_of_key t x = unat (hash_of x AND word_of_nat (table_capacity t - 1))"

definition table_ok :: "('k, 'd) amqp_hash_table_t \<Rightarrow> bool" where
  "table_ok t \<longleftrightarrow> (\<exists>e\<le>31. table_capacity t = 2 ^ e) \<and> length (buckets t) = table_capacity t
     \<and> hash_fn t = hash \<and> compare_fn t = compare \<and> table_count t = length (entry_list t)
     \<and> mset (entry_list t) = sum_list (map mset (buckets t))
     \<and> (\<forall>i<length (buckets t). \<forall>(k, d) \<in> set (buckets t ! i). good k \<and> index_of_key t (key_of k) = i)
     \<and> distinct (map (key_of \<circ> fst) (entry_list t))"

lemma index_bound:
  assumes "table_ok t"
  shows "index_of_key t x < length (buckets t)" and "index_of_key t x < 2 ^ 31"
    and "good k \<Longrightarrow> calculate_index t k = Ret (int (index_of_key t (key_of k)))"
proof -
  obtain e where e: "e \<le> 31" "table_capacity t = 2 ^ e" "length (buckets t) = 2 ^ e"
    using assms by (auto simp: table_ok_def)
  let ?w = "hash_of x AND word_of_nat (table_capacity t - 1)"
  have m: "(word_of_nat (2 ^ e - Suc 0) :: uint32) = mask e"
    by (simp add: mask_eq_exp_minus_1 of_nat_diff)
  have "x AND mask e < 2 ^ e" for x :: uint32 using e(1) by (intro and_mask_less') simp
  then have "unat (x AND mask e) < unat (2 ^ e :: uint32)" for x :: uint32 by (simp add: word_less_nat_alt)
  then have lt: "unat (x AND mask e) < 2 ^ e" for x :: uint32 using unat_2_power [of e, where 'a = 32] e(1) by simp
  show "index_of_key t x < length (buckets t)" using lt by (simp add: index_of_key_def e m)
  have "(2 :: nat) ^ e \<le> 2 ^ 31" using e(1) by (intro power_increasing) simp_all
  then have b: "unat (x AND mask e) < 2 ^ 31" for x :: uint32 using lt less_le_trans by blast
  then show "index_of_key t x < 2 ^ 31" by (simp add: index_of_key_def e(2) m)
  assume g: "good k"
  have s: "size_sub (2 ^ e) (Suc 0) = 2 ^ e - Suc 0" using e(1) power_increasing [of e 31 "2 :: nat"] by (intro size_sub_small) simp_all
  have "sint (hash_of (key_of k) AND mask e) = int (unat (hash_of (key_of k) AND mask e))"
    using int_of_size_small [OF b [of "hash_of (key_of k)"]] by (simp add: int_of_size_def)
  then show "calculate_index t k = Ret (int (index_of_key t (key_of k)))"
    using assms g by (simp add: calculate_index_def table_ok_def hash_ok e(2) s m index_of_key_def Let_def)
qed

lemma table_okD:
  assumes "table_ok t"
  shows "hash_fn t = hash" and "compare_fn t = compare" and "length (buckets t) = table_capacity t"
    and "i < length (buckets t) \<Longrightarrow> (k, d) \<in> set (buckets t ! i) \<Longrightarrow> good k \<and> index_of_key t (key_of k) = i"
    and "mset (entry_list t) = sum_list (map mset (buckets t))"
    and "distinct (map (key_of \<circ> fst) (entry_list t))" and "table_count t = length (entry_list t)"
  using assms by (auto simp: table_ok_def)

lemma table_ok_heap: "table_ok (t\<lparr>on_heap := h\<rparr>) \<longleftrightarrow> table_ok t"
  by (simp add: table_ok_def index_of_key_def del: of_nat_diff)

lemma search_chain_ok:
  "compare_fn t = compare \<Longrightarrow> good key \<Longrightarrow> \<forall>(k, d) \<in> set chain. good k \<Longrightarrow>
   \<exists>r. search_chain t chain key = Ret r \<and> map_option snd r = entries_map chain (key_of key)"
proof (induction chain)
  case (Cons e chain)
  obtain k d where e: "e = (k, d)" by (cases e)
  have g: "good k" using Cons.prems(3) e by simp
  obtain r where r: "compare k key = Ret r" "r = 0 \<longleftrightarrow> key_of k = key_of key"
    using compare_ok [OF g Cons.prems(2)] by blast
  then show ?case using Cons e by (cases "r = 0") (auto simp: entries_map_def)
qed (simp add: entries_map_def)

lemma entries_map_mem: "entries_map es x = Some d \<Longrightarrow> \<exists>k. (k, d) \<in> set es \<and> key_of k = x"
  unfolding entries_map_def by (drule map_of_SomeD) auto

lemma entries_map_dom: "(k, d) \<in> set es \<Longrightarrow> entries_map es (key_of k) \<noteq> None"
  by (induction es) (auto simp: entries_map_def)

lemma entries_map_unique:
  assumes "distinct (map (key_of \<circ> fst) es)" and "(k, d) \<in> set es"
  shows "entries_map es (key_of k) = Some d"
proof -
  have "map fst (map (\<lambda>e. (key_of (fst e), snd e)) es) = map (key_of \<circ> fst) es" by simp
  then have "distinct (map fst (map (\<lambda>e. (key_of (fst e), snd e)) es))" using assms(1) by (simp only:)
  moreover have "(key_of k, d) \<in> set (map (\<lambda>e. (key_of (fst e), snd e)) es)" using assms(2) by force
  ultimately show ?thesis unfolding entries_map_def by (rule map_of_is_SomeI)
qed

lemma in_entries: "table_ok t \<Longrightarrow> e \<in> set (entry_list t) \<longleftrightarrow> (\<exists>i<length (buckets t). e \<in> set (buckets t ! i))"
proof -
  assume "table_ok t"
  then have "set_mset (mset (entry_list t)) = set_mset (sum_list (map mset (buckets t)))" by (simp add: table_okD(5))
  also have "\<dots> = (\<Union>b \<in> set (buckets t). set b)" by (simp add: set_mset_sum_list image_image)
  finally have "e \<in> set (entry_list t) \<longleftrightarrow> (\<exists>b \<in> set (buckets t). e \<in> set b)" by simp
  then show ?thesis by (metis in_set_conv_nth)
qed

text \<open>A chain holds all the entries for its keys.\<close>

lemma chain_map:
  assumes t: "table_ok t"
  shows "entries_map (buckets t ! index_of_key t x) x = entries_map (entry_list t) x"
proof (cases "entries_map (entry_list t) x")
  case None
  show ?thesis
  proof (cases "entries_map (buckets t ! index_of_key t x) x")
    case (Some d)
    obtain k where "(k, d) \<in> set (buckets t ! index_of_key t x)" "key_of k = x" using entries_map_mem [OF Some] by blast
    then have "(k, d) \<in> set (entry_list t)"
      unfolding in_entries [OF t] using index_bound(1) [OF t, of x] by (intro exI [of _ "index_of_key t x"] conjI)
    then show ?thesis using entries_map_unique [OF table_okD(6) [OF t], of k d] \<open>key_of k = x\<close> None by simp
  qed (simp add: None)
next
  case (Some d)
  obtain k where k: "(k, d) \<in> set (entry_list t)" "key_of k = x" using entries_map_mem [OF Some] by blast
  then obtain i where i: "i < length (buckets t)" "(k, d) \<in> set (buckets t ! i)" using in_entries [OF t, of "(k, d)"] by blast
  then have ix: "i = index_of_key t x" using table_okD(4) [OF t i] k(2) by simp
  have "entries_map (buckets t ! i) x \<noteq> None"
    using entries_map_dom [OF i(2)] k(2) by simp
  then obtain d' where d': "entries_map (buckets t ! i) x = Some d'" by auto
  obtain k' where "(k', d') \<in> set (buckets t ! i)" "key_of k' = x" using entries_map_mem [OF d'] by blast
  then have "(k', d') \<in> set (entry_list t)" using in_entries [OF t, of "(k', d')"] i(1) by blast
  then have "entries_map (entry_list t) x = Some d'"
    using entries_map_unique [OF table_okD(6) [OF t], of k' d'] \<open>key_of k' = x\<close> by simp
  then show ?thesis using d' ix by simp
qed

lemma get_ok:
  assumes "table_ok t" and "good key"
  shows "amqp_hash_table_get t key = Ret (entries_map (entry_list t) (key_of key))"
proof -
  let ?i = "index_of_key t (key_of key)"
  have i: "?i < length (buckets t)" "calculate_index t key = Ret (int ?i)" using index_bound [OF assms(1)] assms(2) by simp_all
  have "\<forall>(k, d) \<in> set (buckets t ! ?i). good k" using table_okD(4) [OF assms(1) i(1)] by auto
  then obtain r where "search_chain t (buckets t ! ?i) key = Ret r"
    "map_option snd r = entries_map (buckets t ! ?i) (key_of key)"
    using search_chain_ok [OF table_okD(2) [OF assms(1)] assms(2)] by blast
  then show ?thesis using i chain_map [OF assms(1)] by (simp add: amqp_hash_table_get_def bucket_def)
qed

lemma put_ok:
  assumes t: "table_ok t" and g: "good key"
  shows "\<exists>t'. amqp_hash_table_put t key d = Ret (entries_map (entry_list t) (key_of key) = None, t') \<and> table_ok t'
    \<and> entry_list t' = (if entries_map (entry_list t) (key_of key) = None then (key, d) # entry_list t else entry_list t)"
proof -
  let ?i = "index_of_key t (key_of key)"
  have i: "?i < length (buckets t)" "calculate_index t key = Ret (int ?i)" using index_bound [OF t] g by simp_all
  have "\<forall>(k, d) \<in> set (buckets t ! ?i). good k" using table_okD(4) [OF t i(1)] by auto
  then obtain r where r: "search_chain t (buckets t ! ?i) key = Ret r"
    "map_option snd r = entries_map (entry_list t) (key_of key)"
    using search_chain_ok [OF table_okD(2) [OF t] g] chain_map [OF t] by metis
  then have run: "amqp_hash_table_put t key d = (if r \<noteq> None then Ret (False, t) else Ret (True, add_entry t ?i key d))"
    using i by (auto simp: amqp_hash_table_put_def bucket_def)
  show ?thesis
  proof (cases r)
    case None
    let ?t = "add_entry t ?i key d"
    have new: "key_of key \<notin> set (map (key_of \<circ> fst) (entry_list t))"
    proof
      assume "key_of key \<in> set (map (key_of \<circ> fst) (entry_list t))"
      then obtain k d' where "(k, d') \<in> set (entry_list t)" "key_of key = key_of k" by auto
      then show False using entries_map_unique [OF table_okD(6) [OF t], of k d'] r(2) None by simp
    qed
    have "mset (entry_list ?t) = sum_list (map mset (buckets ?t))"
      using chain_insert [OF i(1)] table_okD(5) [OF t] by (simp add: add_entry_def del: map_update)
    moreover have "good k \<and> index_of_key ?t (key_of k) = j" if "j < length (buckets ?t)" "(k, d') \<in> set (buckets ?t ! j)" for j k d'
      using that table_okD(4) [OF t, of j k d'] g i(1)
      by (auto simp: add_entry_def index_of_key_def nth_list_update split: if_splits)
    ultimately have "table_ok ?t"
      using t new unfolding table_ok_def by (auto simp: add_entry_def)
    then show ?thesis using None run r(2) by (simp add: add_entry_def)
  next
    case (Some e)
    then have "entries_map (entry_list t) (key_of key) = Some (snd e)" using r(2) by simp
    then show ?thesis using run Some t by simp
  qed
qed

text \<open>Lookup after an insertion, and the insertion of a list of entries with different keys.\<close>

lemma entries_map_Cons: "entries_map ((k, d) # es) = (entries_map es)(key_of k \<mapsto> d)"
  by (simp add: entries_map_def)

lemma put_all_ok:
  "table_ok t \<Longrightarrow> \<forall>(k, d) \<in> set es. good k \<Longrightarrow> distinct (map (key_of \<circ> fst) es) \<Longrightarrow>
   \<forall>(k, d) \<in> set es. entries_map (entry_list t) (key_of k) = None \<Longrightarrow>
   \<exists>t'. put_all t es = Ret t' \<and> table_ok t' \<and> entry_list t' = rev es @ entry_list t"
proof (induction es arbitrary: t)
  case (Cons e es)
  obtain k d where e: "e = (k, d)" by (cases e)
  obtain t1 where t1: "amqp_hash_table_put t k d = Ret (True, t1)" "table_ok t1" "entry_list t1 = (k, d) # entry_list t"
    using put_ok [OF Cons.prems(1), of k d] Cons.prems(2,4) e by auto
  have "key_of k' \<noteq> key_of k" if "(k', d') \<in> set es" for k' d' using Cons.prems(3) e that by force
  then have "\<forall>(k', d') \<in> set es. entries_map (entry_list t1) (key_of k') = None"
    using Cons.prems(4) t1(3) by (fastforce simp: entries_map_Cons)
  then obtain t' where "put_all t1 es = Ret t'" "table_ok t'" "entry_list t' = rev es @ entry_list t1"
    using Cons.IH [OF t1(2)] Cons.prems(2,3) by auto
  then show ?case using t1 e by simp
qed simp

lemma initialize_ok:
  assumes "0 < n" and "n \<le> 2 ^ 30"
  shows "\<exists>t. amqp_hash_table_initialize n hash compare = Ret t \<and> table_ok t \<and> entry_list t = [] \<and> nat n \<le> table_capacity t"
proof -
  let ?w = "word_of_int n :: uint64" and ?c = "unat (amqp_next_power_two_64 (word_of_int n))"
  have u: "unat ?w = nat n" using assms by (simp add: unsigned_of_int take_bit_int_eq_self nat_eq_iff)
  then have "?w \<noteq> 0" "unat ?w \<le> 2 ^ 63" using assms by (auto simp: nat_le_iff)
  from next_power_two_64_ok [OF this] obtain e where e: "?c = 2 ^ e" "nat n \<le> ?c" "\<forall>k. nat n \<le> 2 ^ k \<longrightarrow> ?c \<le> 2 ^ k"
    unfolding least_power_of_two_ge_def u by blast
  have "?c \<le> 2 ^ 30" using e(3) [rule_format, of 30] assms(2) by simp
  then have "e \<le> 30" unfolding e(1) by (simp add: power_increasing_iff del: power_numeral)
  moreover have "sum_list (replicate k {#}) = {#}" for k by (induction k) simp_all
  ultimately show ?thesis
    using e(1,2) by (auto simp: amqp_hash_table_initialize_def Let_def table_ok_def intro: exI [of _ e])
qed

end

end
