(* ===== verification/Descriptor.thy ===== *)
theory Descriptor
  imports Hash_Table
begin

text \<open>
  The symbolic descriptors of \<^verbatim>\<open>AmqpTypes/AmqpDescriptor.c\<close>: the table of the composite types of the
  protocol, its hash table by symbol, and the lookup in both directions.
\<close>

section \<open>Symbols as keys\<close>

interpretation symbols: hash_key "\<lambda>s. comparable (v s)" "\<lambda>s. variable_value (v s)" amqp_symbol_hash amqp_symbol_compare
  "\<lambda>bytes. amqp_hash (Some bytes) (int (length bytes))"
proof
  fix x y :: amqp_symbol_t
  assume x: "comparable (v x)"
  then show "amqp_symbol_hash x = Ret (amqp_hash (Some (variable_value (v x))) (int (length (variable_value (v x)))))"
    by (simp add: amqp_symbol_hash_def variable_hash_ok length_variable_value)
  assume "comparable (v y)"
  with x show "\<exists>r. amqp_symbol_compare x y = Ret r \<and> (r = 0 \<longleftrightarrow> variable_value (v x) = variable_value (v y))"
    using variable_compare_ok [of "v x" "v y"] by (auto simp: amqp_symbol_compare_def)
qed

definition amqp_symbol_hash_table_initialize :: "int \<Rightarrow> (amqp_symbol_t, 'd) amqp_hash_table_t run" where
  "amqp_symbol_hash_table_initialize initial_capacity =
     amqp_hash_table_initialize initial_capacity amqp_symbol_hash amqp_symbol_compare"

definition amqp_symbol_hash_table_create :: "int \<Rightarrow> (amqp_symbol_t, 'd) amqp_hash_table_t run" where
  "amqp_symbol_hash_table_create initial_capacity =
     amqp_hash_table_create initial_capacity amqp_symbol_hash amqp_symbol_compare"

definition amqp_symbol_hash_table_put ::
  "(amqp_symbol_t, 'd) amqp_hash_table_t \<Rightarrow> amqp_symbol_t \<Rightarrow> 'd \<Rightarrow> (bool \<times> (amqp_symbol_t, 'd) amqp_hash_table_t) run" where
  "amqp_symbol_hash_table_put t key data = amqp_hash_table_put t key data"

definition amqp_symbol_hash_table_get :: "(amqp_symbol_t, 'd) amqp_hash_table_t \<Rightarrow> amqp_symbol_t \<Rightarrow> 'd option run" where
  "amqp_symbol_hash_table_get t key = amqp_hash_table_get t key"

section \<open>The table of descriptors\<close>

abbreviation AMQP_DESCRIPTOR_DOMAIN :: uint32 where "AMQP_DESCRIPTOR_DOMAIN \<equiv> 0"

abbreviation amqp_open_list_descriptor :: uint32 where "amqp_open_list_descriptor \<equiv> 0x00000010"
abbreviation amqp_begin_list_descriptor :: uint32 where "amqp_begin_list_descriptor \<equiv> 0x00000011"
abbreviation amqp_attach_list_descriptor :: uint32 where "amqp_attach_list_descriptor \<equiv> 0x00000012"
abbreviation amqp_flow_list_descriptor :: uint32 where "amqp_flow_list_descriptor \<equiv> 0x00000013"
abbreviation amqp_transfer_list_descriptor :: uint32 where "amqp_transfer_list_descriptor \<equiv> 0x00000014"
abbreviation amqp_disposition_list_descriptor :: uint32 where "amqp_disposition_list_descriptor \<equiv> 0x00000015"
abbreviation amqp_detach_list_descriptor :: uint32 where "amqp_detach_list_descriptor \<equiv> 0x00000016"
abbreviation amqp_end_list_descriptor :: uint32 where "amqp_end_list_descriptor \<equiv> 0x00000017"
abbreviation amqp_close_list_descriptor :: uint32 where "amqp_close_list_descriptor \<equiv> 0x00000018"
abbreviation amqp_error_list_descriptor :: uint32 where "amqp_error_list_descriptor \<equiv> 0x0000001d"
abbreviation amqp_received_list_descriptor :: uint32 where "amqp_received_list_descriptor \<equiv> 0x00000023"
abbreviation amqp_accepted_list_descriptor :: uint32 where "amqp_accepted_list_descriptor \<equiv> 0x00000024"
abbreviation amqp_rejected_list_descriptor :: uint32 where "amqp_rejected_list_descriptor \<equiv> 0x00000025"
abbreviation amqp_released_list_descriptor :: uint32 where "amqp_released_list_descriptor \<equiv> 0x00000026"
abbreviation amqp_modified_list_descriptor :: uint32 where "amqp_modified_list_descriptor \<equiv> 0x00000027"
abbreviation amqp_source_list_descriptor :: uint32 where "amqp_source_list_descriptor \<equiv> 0x00000028"
abbreviation amqp_target_list_descriptor :: uint32 where "amqp_target_list_descriptor \<equiv> 0x00000029"
abbreviation amqp_delete_on_close_list_descriptor :: uint32 where "amqp_delete_on_close_list_descriptor \<equiv> 0x0000002b"
abbreviation amqp_delete_on_no_links_list_descriptor :: uint32 where "amqp_delete_on_no_links_list_descriptor \<equiv> 0x0000002c"
abbreviation amqp_delete_on_no_messages_list_descriptor :: uint32 where "amqp_delete_on_no_messages_list_descriptor \<equiv> 0x0000002d"
abbreviation amqp_delete_on_no_links_or_messages_list_descriptor :: uint32 where "amqp_delete_on_no_links_or_messages_list_descriptor \<equiv> 0x0000002e"
abbreviation amqp_coordinator_list_descriptor :: uint32 where "amqp_coordinator_list_descriptor \<equiv> 0x00000030"
abbreviation amqp_declare_list_descriptor :: uint32 where "amqp_declare_list_descriptor \<equiv> 0x00000031"
abbreviation amqp_discharge_list_descriptor :: uint32 where "amqp_discharge_list_descriptor \<equiv> 0x00000032"
abbreviation amqp_declared_list_descriptor :: uint32 where "amqp_declared_list_descriptor \<equiv> 0x00000033"
abbreviation amqp_transactional_state_list_descriptor :: uint32 where "amqp_transactional_state_list_descriptor \<equiv> 0x00000034"
abbreviation amqp_sasl_mechanisms_list_descriptor :: uint32 where "amqp_sasl_mechanisms_list_descriptor \<equiv> 0x00000040"
abbreviation amqp_sasl_init_list_descriptor :: uint32 where "amqp_sasl_init_list_descriptor \<equiv> 0x00000041"
abbreviation amqp_sasl_challenge_list_descriptor :: uint32 where "amqp_sasl_challenge_list_descriptor \<equiv> 0x00000042"
abbreviation amqp_sasl_response_list_descriptor :: uint32 where "amqp_sasl_response_list_descriptor \<equiv> 0x00000043"
abbreviation amqp_sasl_outcome_list_descriptor :: uint32 where "amqp_sasl_outcome_list_descriptor \<equiv> 0x00000044"
abbreviation amqp_header_list_descriptor :: uint32 where "amqp_header_list_descriptor \<equiv> 0x00000070"
abbreviation amqp_delivery_annotations_map_descriptor :: uint32 where "amqp_delivery_annotations_map_descriptor \<equiv> 0x00000071"
abbreviation amqp_message_annotations_map_descriptor :: uint32 where "amqp_message_annotations_map_descriptor \<equiv> 0x00000072"
abbreviation amqp_properties_list_descriptor :: uint32 where "amqp_properties_list_descriptor \<equiv> 0x00000073"
abbreviation amqp_application_properties_map_descriptor :: uint32 where "amqp_application_properties_map_descriptor \<equiv> 0x00000074"
abbreviation amqp_data_binary_descriptor :: uint32 where "amqp_data_binary_descriptor \<equiv> 0x00000075"
abbreviation amqp_amqp_sequence_list_descriptor :: uint32 where "amqp_amqp_sequence_list_descriptor \<equiv> 0x00000076"
abbreviation amqp_amqp_value_wildcard_descriptor :: uint32 where "amqp_amqp_value_wildcard_descriptor \<equiv> 0x00000077"
abbreviation amqp_footer_map_descriptor :: uint32 where "amqp_footer_map_descriptor \<equiv> 0x00000078"

datatype amqp_descriptor_kind_t =
    amqp_empty_frame
  | amqp_unsupported_descriptor
  | amqp_transport_descriptor_space
  | amqp_sasl_descriptor_space
  | amqp_addressing_descriptor_space
  | amqp_definition_descriptor_space
  | amqp_delivery_state_descriptor_space
  | amqp_message_format_descriptor_space
  | amqp_transactions_descriptor_space

record amqp_descriptor_t =
  domain :: uint32
  id :: uint32
  kind :: amqp_descriptor_kind_t

definition described :: "string \<Rightarrow> uint32 \<Rightarrow> amqp_descriptor_kind_t \<Rightarrow> string \<times> amqp_descriptor_t" where
  "described symbolic i k = (symbolic, \<lparr>domain = AMQP_DESCRIPTOR_DOMAIN, id = i, kind = k\<rparr>)"

definition descriptors :: "(string \<times> amqp_descriptor_t) list" where
  "descriptors =
   [described ''amqp:open:list'' amqp_open_list_descriptor amqp_transport_descriptor_space,
    described ''amqp:begin:list'' amqp_begin_list_descriptor amqp_transport_descriptor_space,
    described ''amqp:attach:list'' amqp_attach_list_descriptor amqp_transport_descriptor_space,
    described ''amqp:flow:list'' amqp_flow_list_descriptor amqp_transport_descriptor_space,
    described ''amqp:transfer:list'' amqp_transfer_list_descriptor amqp_transport_descriptor_space,
    described ''amqp:disposition:list'' amqp_disposition_list_descriptor amqp_transport_descriptor_space,
    described ''amqp:detach:list'' amqp_detach_list_descriptor amqp_transport_descriptor_space,
    described ''amqp:end:list'' amqp_end_list_descriptor amqp_transport_descriptor_space,
    described ''amqp:close:list'' amqp_close_list_descriptor amqp_transport_descriptor_space,
    described ''amqp:error:list'' amqp_error_list_descriptor amqp_definition_descriptor_space,
    described ''amqp:received:list'' amqp_received_list_descriptor amqp_delivery_state_descriptor_space,
    described ''amqp:accepted:list'' amqp_accepted_list_descriptor amqp_delivery_state_descriptor_space,
    described ''amqp:rejected:list'' amqp_rejected_list_descriptor amqp_delivery_state_descriptor_space,
    described ''amqp:released:list'' amqp_released_list_descriptor amqp_delivery_state_descriptor_space,
    described ''amqp:modified:list'' amqp_modified_list_descriptor amqp_delivery_state_descriptor_space,
    described ''amqp:source:list'' amqp_source_list_descriptor amqp_addressing_descriptor_space,
    described ''amqp:target:list'' amqp_target_list_descriptor amqp_addressing_descriptor_space,
    described ''amqp:delete-on-close:list'' amqp_delete_on_close_list_descriptor amqp_addressing_descriptor_space,
    described ''amqp:delete-on-no-links:list'' amqp_delete_on_no_links_list_descriptor amqp_addressing_descriptor_space,
    described ''amqp:delete-on-no-messages:list'' amqp_delete_on_no_messages_list_descriptor amqp_addressing_descriptor_space,
    described ''amqp:delete-on-no-links-or-messages:list'' amqp_delete_on_no_links_or_messages_list_descriptor amqp_addressing_descriptor_space,
    described ''amqp:coordinator:list'' amqp_coordinator_list_descriptor amqp_transactions_descriptor_space,
    described ''amqp:declare:list'' amqp_declare_list_descriptor amqp_transactions_descriptor_space,
    described ''amqp:discharge:list'' amqp_discharge_list_descriptor amqp_transactions_descriptor_space,
    described ''amqp:declared:list'' amqp_declared_list_descriptor amqp_transactions_descriptor_space,
    described ''amqp:transactional-state:list'' amqp_transactional_state_list_descriptor amqp_transactions_descriptor_space,
    described ''amqp:sasl-mechanisms:list'' amqp_sasl_mechanisms_list_descriptor amqp_sasl_descriptor_space,
    described ''amqp:sasl-init:list'' amqp_sasl_init_list_descriptor amqp_sasl_descriptor_space,
    described ''amqp:sasl-challenge:list'' amqp_sasl_challenge_list_descriptor amqp_sasl_descriptor_space,
    described ''amqp:sasl-response:list'' amqp_sasl_response_list_descriptor amqp_sasl_descriptor_space,
    described ''amqp:sasl-outcome:list'' amqp_sasl_outcome_list_descriptor amqp_sasl_descriptor_space,
    described ''amqp:header:list'' amqp_header_list_descriptor amqp_message_format_descriptor_space,
    described ''amqp:delivery-annotations:map'' amqp_delivery_annotations_map_descriptor amqp_message_format_descriptor_space,
    described ''amqp:message-annotations:map'' amqp_message_annotations_map_descriptor amqp_message_format_descriptor_space,
    described ''amqp:properties:list'' amqp_properties_list_descriptor amqp_message_format_descriptor_space,
    described ''amqp:application-properties:map'' amqp_application_properties_map_descriptor amqp_message_format_descriptor_space,
    described ''amqp:data:binary'' amqp_data_binary_descriptor amqp_message_format_descriptor_space,
    described ''amqp:amqp-sequence:list'' amqp_amqp_sequence_list_descriptor amqp_message_format_descriptor_space,
    described ''amqp:amqp-value:wildcard'' amqp_amqp_value_wildcard_descriptor amqp_message_format_descriptor_space,
    described ''amqp:footer:map'' amqp_footer_map_descriptor amqp_message_format_descriptor_space]"

text \<open>The array ends with an empty element.\<close>

definition map_size :: int where
  "map_size = (let n = (int (length descriptors) + 1) div 3 * 4 in if n < 16 then 16 else n)"

definition cstr_bytes :: "string \<Rightarrow> byte list" where
  "cstr_bytes s = map of_char s"

definition amqp_load_descriptors :: "(amqp_symbol_t, amqp_descriptor_t) amqp_hash_table_t run" where
  "amqp_load_descriptors =
     run_bind (amqp_symbol_hash_table_create map_size) (\<lambda>result.
     put_all result (map (\<lambda>(symbolic, descriptor). (amqp_symbol_create (cstr_bytes symbolic), descriptor)) descriptors))"

definition amqp_descriptor_lookup ::
  "(amqp_symbol_t, amqp_descriptor_t) amqp_hash_table_t \<Rightarrow> amqp_symbol_t \<Rightarrow> amqp_descriptor_t option run" where
  "amqp_descriptor_lookup table symbol = amqp_symbol_hash_table_get table symbol"

definition amqp_descriptor_id_to_cstr :: "uint32 \<Rightarrow> string" where
  "amqp_descriptor_id_to_cstr i =
    (case List.find (\<lambda>(symbolic, descriptor). id descriptor = i) descriptors of
       Some (symbolic, descriptor) \<Rightarrow> symbolic
     | None \<Rightarrow> ''unknown'')"

section \<open>Lookup\<close>

lemma distinct_symbols: "distinct (map fst descriptors)"
  by (simp add: descriptors_def described_def)

lemma distinct_ids: "distinct (map (id \<circ> snd) descriptors)"
  by (simp add: descriptors_def described_def)

lemma cstr_bytes_inj: "cstr_bytes s = cstr_bytes t \<longleftrightarrow> s = t"
proof -
  have "inj (of_char :: char \<Rightarrow> byte)"
  proof (rule injI)
    fix c d assume "(of_char c :: byte) = of_char d"
    then have "(word_of_nat (of_char c) :: byte) = word_of_nat (of_char d)" by (simp only: of_nat_of_char)
    then have "unat (word_of_nat (of_char c) :: byte) = unat (word_of_nat (of_char d) :: byte)" by simp
    then have "(of_char c :: nat) = of_char d"
      using nat_of_char_less_256 [of c] nat_of_char_less_256 [of d]
      by (simp only: unat_of_nat) simp
    then show "c = d" by simp
  qed
  then show ?thesis unfolding cstr_bytes_def by (simp add: inj_map_eq_map)
qed

lemma symbol_length: "s \<in> set (map fst descriptors) \<Longrightarrow> length s < 64"
  by (auto simp: descriptors_def described_def)

text \<open>The hash table, once loaded, is the table of descriptors.\<close>

definition descriptor_entries :: "(amqp_symbol_t \<times> amqp_descriptor_t) list" where
  "descriptor_entries = map (\<lambda>(symbolic, descriptor). (amqp_symbol_create (cstr_bytes symbolic), descriptor)) descriptors"

lemma descriptor_entries_keys:
  "map ((\<lambda>s. variable_value (v s)) \<circ> fst) descriptor_entries = map (cstr_bytes \<circ> fst) descriptors"
  by (auto simp: descriptor_entries_def create_comparable)

lemma descriptor_entries_map:
  "symbols.entries_map descriptor_entries (cstr_bytes s) = map_of descriptors s"
proof -
  have "symbols.entries_map (map (\<lambda>(symbolic, descriptor). (amqp_symbol_create (cstr_bytes symbolic), descriptor)) ds)
      (cstr_bytes s) = map_of ds s" for ds :: "(string \<times> amqp_descriptor_t) list"
    by (induction ds) (auto simp: symbols.entries_map_def create_comparable cstr_bytes_inj)
  then show ?thesis by (simp add: descriptor_entries_def)
qed

lemma load_ok:
  "\<exists>t. amqp_load_descriptors = Ret t \<and> symbols.table_ok t \<and> entry_list t = rev descriptor_entries
     \<and> amqp_hash_table_count t = length descriptors"
proof -
  have sz: "map_size = 52" by (simp add: map_size_def descriptors_def described_def)
  obtain t :: "(amqp_symbol_t, amqp_descriptor_t) amqp_hash_table_t" where t: "amqp_hash_table_initialize map_size amqp_symbol_hash amqp_symbol_compare = Ret t"
    "symbols.table_ok t" "entry_list t = []"
    using symbols.initialize_ok [of map_size] sz by auto
  let ?t = "t\<lparr>on_heap := True\<rparr>"
  have ok: "symbols.table_ok ?t" using t(2) by (simp add: symbols.table_ok_heap)
  have "\<forall>(k, d) \<in> set descriptor_entries. comparable (v k)"
    using symbol_length by (force simp: descriptor_entries_def cstr_bytes_def intro!: create_comparable(1))
  moreover have "distinct (map ((\<lambda>s. variable_value (v s)) \<circ> fst) descriptor_entries)"
    unfolding descriptor_entries_keys using distinct_symbols
    by (simp add: distinct_map comp_inj_on_iff inj_on_def cstr_bytes_inj)
  moreover have "\<forall>(k, d) \<in> set descriptor_entries. symbols.entries_map (entry_list ?t) (variable_value (v k)) = None"
    using t(3) by (simp add: symbols.entries_map_def split_def)
  ultimately obtain t' where t': "put_all ?t descriptor_entries = Ret t'" "symbols.table_ok t'"
    "entry_list t' = rev descriptor_entries @ entry_list ?t"
    using symbols.put_all_ok [OF ok] by blast
  have "amqp_load_descriptors = Ret t'"
    using t(1) t'(1) by (simp add: amqp_load_descriptors_def amqp_symbol_hash_table_create_def amqp_hash_table_create_def
        descriptor_entries_def)
  moreover have "amqp_hash_table_count t' = length descriptors"
    using symbols.table_okD(7) [OF t'(2)] t'(3) t(3) by (simp add: amqp_hash_table_count_def descriptor_entries_def)
  ultimately show ?thesis using t'(2,3) t(3) by auto
qed

lemma entries_map_rev:
  assumes "distinct (map ((\<lambda>s. variable_value (v s)) \<circ> fst) es)"
  shows "symbols.entries_map (rev es) = symbols.entries_map es"
proof -
  have "map fst (map (\<lambda>e. (variable_value (v (fst e)), snd e)) es) = map ((\<lambda>s. variable_value (v s)) \<circ> fst) es" by simp
  then have "distinct (map fst (map (\<lambda>e. (variable_value (v (fst e)), snd e)) es))" using assms by (simp only:)
  then show ?thesis unfolding symbols.entries_map_def rev_map [symmetric] 
    by (intro iffD2 [OF map_of_inject_set]) (simp_all only: rev_map [symmetric] distinct_rev set_rev)
qed

lemma lookup_ok:
  assumes "comparable (v s)" and "variable_value (v s) = cstr_bytes name"
  shows "\<exists>t. amqp_load_descriptors = Ret t \<and> amqp_descriptor_lookup t s = Ret (map_of descriptors name)"
proof -
  obtain t where t: "amqp_load_descriptors = Ret t" "symbols.table_ok t" "entry_list t = rev descriptor_entries"
    using load_ok by blast
  have "symbols.entries_map (entry_list t) (cstr_bytes name) = map_of descriptors name"
    unfolding t(3) using entries_map_rev [of descriptor_entries] descriptor_entries_map [of name]
      distinct_symbols unfolding descriptor_entries_keys
    by (simp add: distinct_map comp_inj_on_iff inj_on_def cstr_bytes_inj)
  then show ?thesis
    using t(1) symbols.get_ok [OF t(2) assms(1)] assms(2)
    by (auto simp: amqp_descriptor_lookup_def amqp_symbol_hash_table_get_def)
qed

lemma find_by_id:
  "distinct (map (id \<circ> snd) ds) \<Longrightarrow> (s, d) \<in> set ds \<Longrightarrow> List.find (\<lambda>(symbolic, e). id e = id d) ds = Some (s, d)"
proof (induction ds)
  case (Cons e ds)
  show ?case
  proof (cases "e = (s, d)")
    case False
    then have "(s, d) \<in> set ds" using Cons.prems(2) by simp
    then have "id (snd e) \<noteq> id d" using Cons.prems(1) by force
    then show ?thesis using Cons \<open>(s, d) \<in> set ds\<close> by (auto simp: split_def)
  qed simp
qed simp

lemma id_to_cstr_ok: "(s, d) \<in> set descriptors \<Longrightarrow> amqp_descriptor_id_to_cstr (id d) = s"
  using find_by_id [OF distinct_ids, of s d] by (simp add: amqp_descriptor_id_to_cstr_def)

end
