(* ===== verification/Samples.thy ===== *)
theory Samples
  imports Codec Pool Descriptor
begin

text \<open>
  Concrete states at which the properties of the development are applied: a buffer that holds given
  bytes, a context with an empty pool of values, and memory with nothing allocated.
\<close>

definition sample_buffer :: "byte list \<Rightarrow> amqp_buffer_t" where
  "sample_buffer bs = \<lparr>capacity = AMQP_BUFFER_FRAGMENT_SIZE, fragment_size = AMQP_BUFFER_FRAGMENT_SIZE,
     n_fragments = AMQP_BUFFER_FRAGMENTS, fragments = [0 \<mapsto> (\<lambda>i. if i < length bs then bs ! i else 0)],
     limit_index = 0, limit_size = length bs, reference_count = 0\<rparr>"

definition sample_type :: amqp_type_t where
  "sample_type = \<lparr>invalid_cause = 0,
     constructor = \<lparr>meta_data = None, typedef_flags = 0, constructor_format_code = 0, extension_type_code = 0\<rparr>,
     position = \<lparr>position_index = 0, position_size = 0\<rparr>,
     value_of = \<lparr>value_b8 = 0, value_uuid = replicate 16 0, value_count = 0, value_elements = None,
       value_array_constructor = None\<rparr>,
     saved_container = None\<rparr>"

definition sample_context :: amqp_context_t where
  "sample_context = \<lparr>types = (\<lambda>_. sample_type), live = (\<lambda>_. False), next_type = 0, arrays = (\<lambda>_. None),
     next_array = 0, encode_container = None, continue_on_usage_error = False\<rparr>"

lemma sample_fields [simp]:
  "capacity (sample_buffer bs) = AMQP_BUFFER_FRAGMENT_SIZE" "limit_size (sample_buffer bs) = length bs"
  "limit_index (sample_buffer bs) = 0"
  by (simp_all add: sample_buffer_def)

lemma sample_byte_at [simp]: "i < length bs \<Longrightarrow> length bs \<le> AMQP_BUFFER_FRAGMENT_SIZE \<Longrightarrow> byte_at (sample_buffer bs) i = bs ! i"
  by (simp add: sample_buffer_def byte_at_def)

lemma sample_buffer_ok [simp]: "length bs \<le> AMQP_BUFFER_FRAGMENT_SIZE \<Longrightarrow> buffer_ok (sample_buffer bs)"
  by (auto simp: sample_buffer_def buffer_ok_def)

lemma sample_readable [simp]: "length bs \<le> AMQP_BUFFER_FRAGMENT_SIZE \<Longrightarrow> readable (sample_buffer bs)"
  by (simp add: readable_def)

lemma sample_at_input [simp]: "length bs \<le> AMQP_BUFFER_FRAGMENT_SIZE \<Longrightarrow> at_input (sample_buffer bs) 0 bs"
  by (auto simp: at_input_def intro!: nth_equalityI)

lemma sample_context_ok [simp]: "encode_ready sample_context" "zeroed sample_context"
  by (auto simp: sample_context_def sample_type_def encode_ready_def clean_def zeroed_def)

definition sample_memory :: amqp_memory_t where
  "sample_memory = \<lparr>memory_blocks = (\<lambda>_. None), next_address = 0, uninitialized = (\<lambda>_. 0), outstanding_allocations = 0,
     total_allocation_calls = 0\<rparr>"

lemma sample_memory_ok [simp]: "memory_ok sample_memory"
  by (simp add: sample_memory_def memory_ok_def)

text \<open>One block of 16 bytes is allocated at address 0.\<close>

definition sample_block :: amqp__memory_block_t where
  "sample_block = zero_block 2"

definition sample_memory_1 :: amqp_memory_t where
  "sample_memory_1 = \<lparr>memory_blocks = [0 \<mapsto> sample_block], next_address = 1, uninitialized = (\<lambda>_. 0), outstanding_allocations = 1,
     total_allocation_calls = 1\<rparr>"

lemma sample_block_intact [simp]: "intact sample_block"
  by (simp add: sample_block_def zero_block_intact)

lemma sample_memory_1_ok [simp]: "memory_ok sample_memory_1"
  by (auto simp: sample_memory_1_def memory_ok_def split: if_splits)

text \<open>A string that was decoded to the bytes from \<open>i\<close> to \<open>i + n\<close> of a buffer.\<close>

definition sample_string :: "nat \<Rightarrow> nat \<Rightarrow> amqp_type_t" where
  "sample_string i n = sample_type\<lparr>constructor := (constructor sample_type)\<lparr>typedef_flags := amqp_is_string\<rparr>,
     position := \<lparr>position_index = i, position_size = n\<rparr>\<rparr>"

end
