(* ===== verification/Negotiator.thy ===== *)
theory Negotiator
  imports Buffer
begin

text \<open>
  The protocol header of \<^verbatim>\<open>Transport/Connection/Negotiator.c\<close>: the four letters AMQP followed by the
  protocol id and the version, packed by the library into one 32-bit word.
\<close>

definition amqp_version_protocol_id :: "uint32 \<Rightarrow> uint32" where
  "amqp_version_protocol_id version = drop_bit 24 version AND 0xff"

definition amqp_version_major :: "uint32 \<Rightarrow> uint32" where
  "amqp_version_major version = drop_bit 16 version AND 0xff"

definition amqp_version_minor :: "uint32 \<Rightarrow> uint32" where
  "amqp_version_minor version = drop_bit 8 version AND 0xff"

definition amqp_version_release :: "uint32 \<Rightarrow> uint32" where
  "amqp_version_release version = version AND 0xff"

definition amqp_negotiator_encode_version :: "uint32 \<Rightarrow> amqp_buffer_t \<Rightarrow> amqp_buffer_t run" where
  "amqp_negotiator_encode_version version buffer =
    run_assert (amqp_buffer_size buffer = 0) (
    run_assert (amqp_buffer_check_free_space buffer 8) (
    run_bind (amqp_unchecked_putc buffer 65) (\<lambda>buffer.
    run_bind (amqp_unchecked_putc buffer 77) (\<lambda>buffer.
    run_bind (amqp_unchecked_putc buffer 81) (\<lambda>buffer.
    run_bind (amqp_unchecked_putc buffer 80) (\<lambda>buffer.
    run_bind (amqp_unchecked_putc buffer (ucast (amqp_version_protocol_id version))) (\<lambda>buffer.
    run_bind (amqp_unchecked_putc buffer (ucast (amqp_version_major version))) (\<lambda>buffer.
    run_bind (amqp_unchecked_putc buffer (ucast (amqp_version_minor version))) (\<lambda>buffer.
    amqp_unchecked_putc buffer (ucast (amqp_version_release version)))))))))))"

text \<open>
  The conjunction that looks for the letters stops at the first that differs. At the end of the
  data \<open>amqp_buffer_getc\<close> gives -1, which sets all bits of the result.
\<close>

primrec expect_chars :: "int list \<Rightarrow> amqp_buffer_t \<Rightarrow> (bool \<times> amqp_buffer_t) run" where
  "expect_chars [] buffer = Ret (True, buffer)"
| "expect_chars (c # cs) buffer =
     run_bind (amqp_buffer_getc buffer) (\<lambda>(x, buffer). if x = c then expect_chars cs buffer else Ret (False, buffer))"

primrec shift_in_chars :: "nat \<Rightarrow> uint32 \<Rightarrow> amqp_buffer_t \<Rightarrow> (uint32 \<times> amqp_buffer_t) run" where
  "shift_in_chars 0 result buffer = Ret (result, buffer)"
| "shift_in_chars (Suc n) result buffer =
     run_bind (amqp_buffer_getc buffer) (\<lambda>(x, buffer). shift_in_chars n (push_bit 8 result OR word_of_int x) buffer)"

definition amqp_negotiator_decode_version :: "amqp_buffer_t \<Rightarrow> (uint32 \<times> amqp_buffer_t) run" where
  "amqp_negotiator_decode_version buffer =
    run_bind (expect_chars [65, 77, 81, 80] buffer) (\<lambda>(ok, buffer).
    if ok then shift_in_chars 4 0 buffer else Ret (0, buffer))"

section \<open>Reading what was written\<close>

definition version_header :: "uint32 \<Rightarrow> byte list" where
  "version_header version = [65, 77, 81, 80] @ be_bytes 4 version"

lemma encode_version_put_list:
  assumes "amqp_buffer_size buffer = 0" and "amqp_buffer_check_free_space buffer 8"
  shows "amqp_negotiator_encode_version version buffer = put_list amqp_unchecked_putc buffer (version_header version)"
proof -
  have ff: "(0xff :: uint32) = mask 8" by (simp add: mask_eq_exp_minus_1)
  have "ucast (amqp_version_protocol_id version) = word_byte version 3" "ucast (amqp_version_major version) = word_byte version 2"
    "ucast (amqp_version_minor version) = word_byte version 1" "ucast (amqp_version_release version) = word_byte version 0"
    by (rule bit_word_eqI; auto simp: amqp_version_protocol_id_def amqp_version_major_def amqp_version_minor_def
        amqp_version_release_def ff bit_simps word_byte_def)+
  then show ?thesis using assms
    by (simp add: amqp_negotiator_encode_version_def version_header_def be_bytes_4 run_assert_def)
qed

lemma encode_version_ok:
  assumes "buffer_ok b" and "limit_size b = 0"
  obtains b' where "amqp_negotiator_encode_version version b = Ret b'" and "appended b (version_header version) b'"
proof -
  have cap: "8 \<le> capacity b" using buffer_ok_bounds(3) [OF assms(1)] by simp
  have "amqp_buffer_size b = 0" "amqp_buffer_check_free_space b 8"
    using assms(2) cap by (simp_all add: amqp_buffer_size_def amqp_buffer_check_free_space_def)
  moreover obtain b' where "put_list amqp_unchecked_putc b (version_header version) = Ret b'" "appended b (version_header version) b'"
    by (rule put_list_appended [OF assms(1), of "version_header version"]) (use assms(2) cap in \<open>simp_all add: version_header_def\<close>)
  ultimately show ?thesis using that encode_version_put_list by simp
qed

text \<open>The header in front of the read position: the letters and a version, or anything else.\<close>

definition header_at :: "amqp_buffer_t \<Rightarrow> byte list \<Rightarrow> bool" where
  "header_at b bs \<longleftrightarrow> buffer_ok b \<and> limit_index b + 8 \<le> limit_size b \<and> length bs = 8
     \<and> map (byte_at b) [limit_index b..<limit_index b + 8] = bs"

lemma header_getc:
  assumes "header_at b bs" and "k < 8"
  shows "amqp_buffer_getc (b\<lparr>limit_index := limit_index b + k\<rparr>)
    = Ret (uint (bs ! k), b\<lparr>limit_index := limit_index b + Suc k\<rparr>)"
proof -
  have "byte_at b (limit_index b + k) = bs ! k" using assms by (auto simp: header_at_def)
  then show ?thesis
    using assms getc_ok [of "b\<lparr>limit_index := limit_index b + k\<rparr>"] by (simp add: header_at_def)
qed

lemma expect_chars_at:
  assumes "header_at b bs"
  shows "k + length cs \<le> 8 \<Longrightarrow> \<exists>n. expect_chars (map uint cs) (b\<lparr>limit_index := limit_index b + k\<rparr>)
    = Ret (take (length cs) (drop k bs) = cs, b\<lparr>limit_index := limit_index b + n\<rparr>)
    \<and> (take (length cs) (drop k bs) = cs \<longrightarrow> n = k + length cs)"
proof (induction cs arbitrary: k)
  case Nil
  then show ?case by (intro exI [of _ k]) simp
next
  case (Cons c cs)
  have k: "k < 8" "k < length bs" using Cons.prems assms by (simp_all add: header_at_def)
  have d: "drop k bs = bs ! k # drop (Suc k) bs" using k(2) by (simp add: Cons_nth_drop_Suc)
  show ?case
  proof (cases "bs ! k = c")
    case True
    then show ?thesis using Cons.IH [of "Suc k"] Cons.prems header_getc [OF assms k(1)] d by auto
  next
    case False
    then have "uint (bs ! k) \<noteq> uint c" by (simp add: word_uint_eq_iff)
    then show ?thesis using header_getc [OF assms k(1)] False d by (intro exI [of _ "Suc k"]) auto
  qed
qed

lemma shift_in_chars_at:
  assumes "header_at b bs"
  shows "k + n \<le> 8 \<Longrightarrow> shift_in_chars n r (b\<lparr>limit_index := limit_index b + k\<rparr>)
    = Ret (fold (\<lambda>x r. push_bit 8 r OR ucast x) (take n (drop k bs)) r, b\<lparr>limit_index := limit_index b + (k + n)\<rparr>)"
proof (induction n arbitrary: k r)
  case (Suc n)
  have k: "k < 8" "k < length bs" using Suc.prems assms by (simp_all add: header_at_def)
  have d: "drop k bs = bs ! k # drop (Suc k) bs" using k(2) by (simp add: Cons_nth_drop_Suc)
  have "(word_of_int (uint (bs ! k)) :: uint32) = ucast (bs ! k)" by (simp add: unsigned_ucast_eq)
  then show ?case using Suc.IH [of "Suc k"] Suc.prems header_getc [OF assms k(1)] d by simp
qed simp

lemma shift_in_be_bytes: "fold (\<lambda>x r. push_bit 8 r OR ucast x) (be_bytes 4 w) 0 = (w :: uint32)"
proof (rule bit_word_eqI)
  fix n assume "n < LENGTH(32)"
  then consider "n < 8" | "8 \<le> n" "n < 16" | "16 \<le> n" "n < 24" | "24 \<le> n" "n < 32" by fastforce
  then show "bit (fold (\<lambda>x r. push_bit 8 r OR ucast x) (be_bytes 4 w) (0 :: uint32)) n = bit w n"
    by cases (auto simp: be_bytes_4 bit_simps bit_word_byte)
qed

lemma length_version_header [simp]: "length (version_header w) = 8"
  by (simp add: version_header_def)

lemma expect_letters:
  assumes "header_at b bs"
  shows "\<exists>n. expect_chars [65, 77, 81, 80] b = Ret (take 4 bs = [65, 77, 81, 80], b\<lparr>limit_index := limit_index b + n\<rparr>)
    \<and> (take 4 bs = [65, 77, 81, 80] \<longrightarrow> n = 4)"
proof -
  have "map uint [65, 77, 81, 80 :: byte] = [65, 77, 81, 80]" "length [65, 77, 81, 80 :: byte] = 4" by simp_all
  then show ?thesis using expect_chars_at [OF assms, of 0 "[65, 77, 81, 80]"]
    by (simp del: expect_chars.simps list.map list.size)
qed

lemma decode_version_ok:
  assumes "header_at b (version_header version)"
  shows "amqp_negotiator_decode_version b = Ret (version, b\<lparr>limit_index := limit_index b + 8\<rparr>)"
proof -
  have t: "take 4 (version_header version) = [65, 77, 81, 80]" "take 4 (drop 4 (version_header version)) = be_bytes 4 version"
    by (simp_all add: version_header_def)
  then show ?thesis
    using expect_letters [OF assms] shift_in_chars_at [OF assms, of 4 4 0]
    by (auto simp: amqp_negotiator_decode_version_def shift_in_be_bytes)
qed

lemma decode_version_bad:
  assumes "header_at b bs" and "take 4 bs \<noteq> [65, 77, 81, 80]"
  shows "\<exists>n. amqp_negotiator_decode_version b = Ret (0, b\<lparr>limit_index := limit_index b + n\<rparr>)"
  using expect_letters [OF assms(1)] assms(2) by (auto simp: amqp_negotiator_decode_version_def)

end
