(* ===== verification/Connection.thy ===== *)
theory Connection
  imports Negotiator
begin

text \<open>
  The data of a connection (\<^verbatim>\<open>Transport/Connection/ConnectionState.h\<close>, \<^verbatim>\<open>Connection.h\<close>, \<^verbatim>\<open>libamqp.h\<close>), shared by
  its eleven state machines: the connection itself, the socket, the reader, the writer, the
  negotiator of protocol versions, the three tunnels (TLS, SASL, AMQP), the frame reader and the AMQP
  protocol.

  Each machine of the source is a table of function pointers, which a transition fills with
  defaults and then with the handlers of the new state. Here a machine is the name of its state, and
  an action is a function that selects the handler by the name. The entries that another machine
  overwrites or that a transition does not reset (\<open>shutdown\<close>, \<open>timeout\<close>, \<open>reject\<close> and \<open>read_done\<close> of
  the connection) are fields of their own.

  The handlers call one another through these tables, up to the application and back. A handler is a
  function from the connection to the connection and the list of calls it makes, in order; what a
  handler does after a call returned is a call of its own (constructors named after the place). The
  calls that are still to be done are a stack, see theory \<open>Machine\<close>.
\<close>

section \<open>Constants\<close>

abbreviation AMQP_FRAME_HEADER_SIZE :: nat where "AMQP_FRAME_HEADER_SIZE \<equiv> 8"
abbreviation AMQP_PROTOCOL_ID :: uint32 where "AMQP_PROTOCOL_ID \<equiv> 0"
abbreviation AMQP_TLS_PROTOCOL_ID :: uint32 where "AMQP_TLS_PROTOCOL_ID \<equiv> 2"
abbreviation AMQP_SASL_PROTOCOL_ID :: uint32 where "AMQP_SASL_PROTOCOL_ID \<equiv> 3"
abbreviation AMQP_PREFERRED_VERSION :: uint32 where "AMQP_PREFERRED_VERSION \<equiv> 0x00010000"
abbreviation AMQP_TLS_PREFERRED_VERSION :: uint32 where "AMQP_TLS_PREFERRED_VERSION \<equiv> 0x02010000"
abbreviation AMQP_SASL_PREFERRED_VERSION :: uint32 where "AMQP_SASL_PREFERRED_VERSION \<equiv> 0x03010000"

abbreviation AMQP_PROTOCOL_AMQP :: uint32 where "AMQP_PROTOCOL_AMQP \<equiv> 0x01"
abbreviation AMQP_PROTOCOL_SASL :: uint32 where "AMQP_PROTOCOL_SASL \<equiv> 0x02"
abbreviation AMQP_PROTOCOL_TLS :: uint32 where "AMQP_PROTOCOL_TLS \<equiv> 0x04"

abbreviation AMQP_CONNECTION_RUNNING :: uint32 where "AMQP_CONNECTION_RUNNING \<equiv> 0x01"
abbreviation AMQP_CONNECTION_SOCKET_CONNECTED :: uint32 where "AMQP_CONNECTION_SOCKET_CONNECTED \<equiv> 0x02"
abbreviation AMQP_CONNECTION_SOCKET_ACCEPTED :: uint32 where "AMQP_CONNECTION_SOCKET_ACCEPTED \<equiv> 0x04"
abbreviation AMQP_CONNECTION_TLS_CONNECTED :: uint32 where "AMQP_CONNECTION_TLS_CONNECTED \<equiv> 0x08"
abbreviation AMQP_CONNECTION_SASL_CONNECTED :: uint32 where "AMQP_CONNECTION_SASL_CONNECTED \<equiv> 0x10"
abbreviation AMQP_CONNECTION_AMQP_CONNECTED :: uint32 where "AMQP_CONNECTION_AMQP_CONNECTED \<equiv> 0x20"
abbreviation AMQP_CONNECTION_IS_CLIENT :: uint32 where "AMQP_CONNECTION_IS_CLIENT \<equiv> 0x40"
abbreviation AMQP_CONNECTION_IS_OPEN :: uint32 where "AMQP_CONNECTION_IS_OPEN \<equiv> 0x80"
abbreviation AMQP_CONNECTION_IS_CLOSING :: uint32 where "AMQP_CONNECTION_IS_CLOSING \<equiv> 0x100"

abbreviation AMQP_CONNECTION_SOCKET_CONNECT_FAILED :: uint32 where "AMQP_CONNECTION_SOCKET_CONNECT_FAILED \<equiv> 0x02"
abbreviation AMQP_CONNECTION_TLS_NEGOTIATION_REJECTED :: uint32 where "AMQP_CONNECTION_TLS_NEGOTIATION_REJECTED \<equiv> 0x04"
abbreviation AMQP_CONNECTION_SASL_NEGOTIATION_REJECTED :: uint32 where "AMQP_CONNECTION_SASL_NEGOTIATION_REJECTED \<equiv> 0x08"
abbreviation AMQP_CONNECTION_AMQP_NEGOTIATION_REJECTED :: uint32 where "AMQP_CONNECTION_AMQP_NEGOTIATION_REJECTED \<equiv> 0x10"
abbreviation AMQP_CONNECTION_READ_ERROR :: uint32 where "AMQP_CONNECTION_READ_ERROR \<equiv> 0x20"
abbreviation AMQP_CONNECTION_WRITE_ERROR :: uint32 where "AMQP_CONNECTION_WRITE_ERROR \<equiv> 0x40"
abbreviation AMQP_CONNECTION_READ_EOF :: uint32 where "AMQP_CONNECTION_READ_EOF \<equiv> 0x80"
abbreviation AMQP_CONNECTION_SASL_ERROR :: uint32 where "AMQP_CONNECTION_SASL_ERROR \<equiv> 0x0200"
abbreviation AMQP_CONNECTION_AMQP_ERROR :: uint32 where "AMQP_CONNECTION_AMQP_ERROR \<equiv> 0x0400"
abbreviation AMQP_CONNECTION_SASL_FRAME_DECODE_ERROR :: uint32 where "AMQP_CONNECTION_SASL_FRAME_DECODE_ERROR \<equiv> 0x0800"
abbreviation AMQP_CONNECTION_AMQP_FRAME_DECODE_ERROR :: uint32 where "AMQP_CONNECTION_AMQP_FRAME_DECODE_ERROR \<equiv> 0x1000"
abbreviation AMQP_CONNECTION_FRAME_SEQUENCE_ERROR :: uint32 where "AMQP_CONNECTION_FRAME_SEQUENCE_ERROR \<equiv> 0x2000"

section \<open>States of the machines\<close>

datatype connection_state =
    Initialized | Connecting_socket | Connecting_tls | Connecting_sasl | Connecting_amqp | Amqp_tunnel_established
  | Waiting_on_client_negotiation_request | Accepting_tls | Waiting_on_tls_tunnelled_request | Accepting_sasl
  | Waiting_on_amqp_negotiation_request | Accepting_amqp | Tunnel_accepted | Sending_error_message
  | Stopping_output | Draining_input | Stopping | Stopped | Failed | Timeout_stopping_output | Timeout_draining_input

datatype socket_state =
    Socket_initialized | Socket_resolving | Socket_aborting_lookup | Socket_connecting | Socket_connected
  | Socket_stopped | Socket_failed | Socket_accepted

datatype reader_state =
    Reader_initialized | Reader_enabled | Reader_reading | Reader_failed | Reader_eof | Reader_eof_alerted | Reader_stopped

datatype writer_state =
    Writer_initialized | Writer_enabled | Writer_writing | Writer_stopping | Writer_stopped | Writer_failed

datatype negotiator_state =
    Negotiator_initialized | Negotiator_negotiated | Negotiator_failed | Negotiator_rejected
  | Negotiator_waiting_for_broker_response | Negotiator_waiting_on_client_request
  | Negotiator_waiting_to_send_server_response

datatype sasl_state =
    Sasl_initialized | Sasl_failed | Sasl_waiting_on_sasl_mechanisms | Sasl_sending_header_response | Sasl_negotiated
  | Sasl_waiting_on_sasl_challenge_or_outcome | Sasl_waiting_on_sasl_initial_response_frame
  | Sasl_waiting_on_sasl_challenge_response_frame

datatype amqp_tunnel_state = Tunnel_initialized | Tunnel_failed | Tunnel_sending_header_response | Tunnel_negotiated

datatype amqp_state =
    Amqp_initialized | Amqp_open_sent | Amqp_opened | Amqp_waiting_for_open_frame | Amqp_close_sent | Amqp_closed

datatype frame_state = Frame_initialized | Frame_enabled | Frame_reading_frame_header | Frame_reading_frame_body | Frame_stopped

section \<open>Function pointers that are stored\<close>

datatype shutdown_action = Default_shutdown | Do_nothing | Application_close_while_opened | Shutdown_while_in_progress

datatype timeout_action =
    Default_timeout | Timeout_while_stopping_output | Timeout_while_draining_input
  | Timeout_expired_while_opened | Timeout_expiry_while_close_sent | Timeout_expiry_while_closed

datatype reject_action = Default_reject | Reject_while_accepting_tls | Reject_while_accepting_sasl | Reject_while_accepting_amqp

datatype read_callback = Negotiator_read_complete | Frame_read_complete | Connection_read_complete

datatype confirm_callback =
    Tls_version_accepted | Sasl_version_accepted_callback | Amqp_version_accepted
  | Connection_done_callback | Sasl_broker_version_sent_callback | Amqp_done_callback

datatype reject_callback = Tls_version_rejected | Sasl_version_rejected_callback | Amqp_version_rejected

datatype frame_available_callback = Sasl_frame_available | Amqp_frame_available | Discard_frame_after_close_received

section \<open>Frames and the environment\<close>

text \<open>
  What the decoder of frames hands to the state machines: the performative, with the fields that
  they use. An open frame has the limits of the peer; a flag tells whether it names a host.
\<close>

record open_frame =
  hostname_is_null :: bool
  open_max_frame_size :: uint32
  open_channel_max :: uint16
  open_idle_time_out :: uint32

datatype amqp_frame =
    Frame_sasl_mechanisms | Frame_sasl_init | Frame_sasl_challenge | Frame_sasl_response | Frame_sasl_outcome
  | Frame_open open_frame | Frame_begin | Frame_attach | Frame_flow | Frame_transfer | Frame_disposition
  | Frame_detach | Frame_end | Frame_close bool | Frame_empty

datatype plugin_result =
    Amqp_sasl_frame_process_error | Amqp_plugin_handler_failed | Amqp_plugin_handler_challenge
  | Amqp_plugin_handler_outcome_accepted | Amqp_plugin_handler_outcome_rejected

text \<open>
  The outcomes of system calls. An attempt to connect to one address: \<open>socket\<close> fails, \<open>connect\<close> succeeds,
  is in progress, or fails. A call of \<open>readv\<close>: bytes arrive (when more than asked for, the rest stays for
  the next call), the peer has closed, or an error. A call of \<open>sendmsg\<close>: the number of bytes the
  system takes, or an error. When a list is used up the socket would block.
\<close>

datatype attempt = Socket_error int | Connect_succeeds | Connect_in_progress | Connect_error int

datatype read_result = Received "byte list" | End_of_file | Connection_reset | Read_would_block | Read_error int

datatype send_result = Sent nat | Write_would_block | Write_error int

text \<open>
  The parts of the program outside these machines that they call: host lookup, the codec of frames and
  the SASL plugins.
\<close>

record environment =
  amqp_lookup_host_address :: "int + attempt list"
  sasl_frame_decoder :: "amqp_buffer_t \<Rightarrow> amqp_frame option"
  amqp_frame_decoder :: "amqp_buffer_t \<Rightarrow> amqp_frame option"
  amqp_context_sasl_plugin_count :: nat
  encoded_sasl_mechanisms :: amqp_buffer_t
  encoded_sasl_init :: amqp_buffer_t
  encoded_sasl_outcome :: amqp_buffer_t
  encoded_open :: amqp_buffer_t
  encoded_close :: amqp_buffer_t
  encoded_empty :: amqp_buffer_t
  amqp_sasl_select_mechanism :: bool
  amqp_context_lookup_sasl_plugin :: bool
  amqp_sasl_plugin_initial_response_handle :: plugin_result
  amqp_sasl_plugin_handle_outcome :: bool

section \<open>The connection\<close>

text \<open>
  A watcher is absent, or present and stopped or started. Times are in quarters of a millisecond; the
  timer has its repeat period while it runs. \<open>data_word\<close> is the first word of the union \<open>data\<close>:
  \<open>handshake.protocols\<close> and \<open>shutdown.mode\<close> lie in the same place. \<open>halts\<close> counts the calls of
  \<open>connection_halt\<close>, and \<open>destroyed\<close> says that the memory of the connection has been given back.
\<close>

record amqp_connection_t =
  flags :: uint32
  failure_flags :: uint32
  protocols :: uint32
  required_tls :: uint32
  required_sasl :: uint32
  required_amqp :: uint32
  supported_sasl :: uint32
  supported_amqp :: uint32
  connection_name :: connection_state
  shutdown_pointer :: shutdown_action
  timeout_pointer :: timeout_action
  reject_pointer :: "reject_action option"
  read_done_pointer :: bool
  socket_name :: socket_state
  reader_name :: reader_state
  writer_name :: writer_state
  negotiator_name :: negotiator_state
  sasl_name :: sasl_state
  amqp_tunnel_name :: amqp_tunnel_state
  amqp_name :: amqp_state
  frame_name :: frame_state
  data_word :: uint32
  preferred_version :: uint32
  confirm_pointer :: "confirm_callback option"
  handshake_reject_pointer :: "reject_callback option"
  request_pointer :: bool
  buffer_read :: amqp_buffer_t
  write_watcher :: "bool option"
  buffer_queue :: "amqp_buffer_t option list"
  queue_start :: nat
  queue_end :: nat
  stopped_callback :: bool
  last_write_time :: int
  read_callback_pointer :: "read_callback option"
  read_is_queued :: bool
  n_required :: nat
  satisfied :: nat
  read_watcher :: "bool option"
  last_read_time :: int
  frame_available_pointer :: "frame_available_callback option"
  io_frame_size :: uint32
  fd :: int
  socket_hostname :: "string option"
  errno_error_code :: int
  lookup_iterator :: "attempt list"
  addrinfo :: bool
  connect_watcher :: "bool option"
  timer :: "int option"
  sasl_plugin :: bool
  max_frame_size :: uint32
  channel_max :: uint16
  idle_time_out :: uint32
  remote_max_frame_size :: uint32
  remote_channel_max :: uint16
  remote_idle_time_out :: uint32
  timeout_local :: int
  timeout_remote :: int
  accept_handler_arguments :: bool
  halts :: nat
  destroyed :: bool
  now :: int
  incoming :: "read_result list"
  write_results :: "send_result list"
  outgoing :: "byte list"

section \<open>Calls\<close>

datatype call =
    Connection_done | Connection_fail | Connection_shutdown | Connection_drain | Connection_close | Connection_timeout
  | Connection_connect string | Connection_begin uint32 | Connection_reject uint32 | Connection_read_done nat
  | Connection_halt | Call_stopped_hook | State_cleanup | Client_io_enabled | Not_implemented
  | Socket_connect string | Socket_shutdown | Socket_fail int | Socket_done | Socket_try_connect | Connect_event int
  | Reader_enable | Reader_commence_read nat read_callback | Reader_continue_read | Reader_reset | Reader_stop
  | Reader_fail int | Reader_delayed_read | Reader_delayed_loop | Reader_callback read_callback nat
  | Writer_enable | Writer_write amqp_buffer_t | Writer_continue_write | Writer_stop | Writer_fail int | Writer_abort
  | Writer_write_complete
  | Negotiator_start uint32 confirm_callback reject_callback | Negotiator_started | Negotiator_wait
  | Negotiator_send uint32 confirm_callback | Negotiator_sent | Negotiator_read_done nat | Negotiator_reset
  | Confirm confirm_callback | Handshake_reject reject_callback uint32 | Request uint32
  | Tls_connect | Tls_accept uint32
  | Sasl_connect | Sasl_done | Sasl_accept uint32 | Sasl_frame amqp_frame | Sasl_mechanisms_sent
  | Sasl_init_sent | Sasl_outcome_sent | Unsupported_mechanism_reported
  | Amqp_tunnel_connect | Amqp_tunnel_done | Amqp_tunnel_accept uint32
  | Amqp_send_open | Amqp_open_frame_sent | Amqp_wait_on_open | Amqp_frame amqp_frame | Amqp_server_open_sent
  | Amqp_close_frame_sent
  | Frame_enable | Frame_read frame_available_callback | Frame_read_done nat | Frame_stop
  | Frame_available frame_available_callback | Frame_size_error_dumped

type_synonym outcome = "(amqp_connection_t \<times> call list) run"

definition illegal_state :: outcome where
  "illegal_state = Fault Aborted"

definition amqp_connection_flag_set :: "uint32 \<Rightarrow> amqp_connection_t \<Rightarrow> amqp_connection_t" where
  "amqp_connection_flag_set f c = c\<lparr>flags := flags c OR f\<rparr>"

definition amqp_connection_flag_clear :: "uint32 \<Rightarrow> amqp_connection_t \<Rightarrow> amqp_connection_t" where
  "amqp_connection_flag_clear f c = c\<lparr>flags := flags c AND NOT f\<rparr>"

definition amqp_connection_failure_flag_set :: "uint32 \<Rightarrow> amqp_connection_t \<Rightarrow> amqp_connection_t" where
  "amqp_connection_failure_flag_set f c = c\<lparr>failure_flags := failure_flags c OR f\<rparr>"

definition amqp_connection_is :: "amqp_connection_t \<Rightarrow> uint32 \<Rightarrow> bool" where
  "amqp_connection_is c f \<longleftrightarrow> flags c AND f \<noteq> 0"

definition amqp_connection_is_client :: "amqp_connection_t \<Rightarrow> bool" where
  "amqp_connection_is_client c \<longleftrightarrow> amqp_connection_is c AMQP_CONNECTION_IS_CLIENT"

text \<open>\<open>amqp_connection_failed\<close>: report, flag, fail.\<close>

definition amqp_connection_failed :: "uint32 \<Rightarrow> amqp_connection_t \<Rightarrow> outcome" where
  "amqp_connection_failed f c = Ret (amqp_connection_failure_flag_set f c, [Connection_fail])"

text \<open>\<open>ev_timer_again\<close> with a repeat period of 0 stops the timer.\<close>

definition amqp_timer_start :: "int \<Rightarrow> amqp_connection_t \<Rightarrow> amqp_connection_t" where
  "amqp_timer_start delay c = c\<lparr>timer := (if delay = 0 then None else Some delay)\<rparr>"

definition amqp_timer_stop :: "amqp_connection_t \<Rightarrow> amqp_connection_t" where
  "amqp_timer_stop c = c\<lparr>timer := None\<rparr>"

text \<open>Starting or stopping a watcher asserts that there is one.\<close>

definition amqp_io_event_watcher_set :: "bool \<Rightarrow> bool option \<Rightarrow> (bool option \<Rightarrow> outcome) \<Rightarrow> outcome" where
  "amqp_io_event_watcher_set active watcher k = run_assert (watcher \<noteq> None) (k (Some active))"

text \<open>A call on a buffer that may be missing.\<close>

definition amqp_connection_write_buffer :: "amqp_buffer_t option \<Rightarrow> call list" where
  "amqp_connection_write_buffer buffer = (case buffer of None \<Rightarrow> [] | Some b \<Rightarrow> [Writer_write b])"

text \<open>\<open>amqp_allocate_buffer\<close> gives an empty buffer of one fragment.\<close>

definition new_buffer :: amqp_buffer_t where
  "new_buffer = amqp_initialize_amqp_buffer_t
     \<lparr>capacity = 0, fragment_size = 0, n_fragments = 0, fragments = Map.empty, limit_index = 0, limit_size = 0, reference_count = 0\<rparr>"

end
