(* ===== verification/Connection_Read.thy ===== *)
theory Connection_Read
  imports Connection
begin

text \<open>
  The reader of \<^verbatim>\<open>Transport/Connection/IO/ConnectionRead.c\<close>: it collects the number of bytes that was asked
  for, over as many calls of \<open>readv\<close> as that takes, and then calls back; the end of the input is
  reported as 0 bytes.

  All reads of the library go to the buffer \<open>buffer.read\<close> of the connection, so the field \<open>io.read.buffer\<close> is
  the flag whether a read is queued.
\<close>

definition reader_cleanup_reader :: "amqp_connection_t \<Rightarrow> amqp_connection_t" where
  "reader_cleanup_reader c = c\<lparr>read_watcher := None\<rparr>"

text \<open>A null pointer that is called is a fault.\<close>

definition reader_call_read_callback :: "amqp_connection_t \<Rightarrow> outcome" where
  "reader_call_read_callback c =
    (case read_callback_pointer c of
       None \<Rightarrow> Fault BadMemory
     | Some callback \<Rightarrow>
         Ret (c\<lparr>read_callback_pointer := None, read_is_queued := False, satisfied := 0, last_read_time := now c\<rparr>,
              [Reader_callback callback (satisfied c)]))"

definition reader_is_partial_read :: "amqp_connection_t \<Rightarrow> bool" where
  "reader_is_partial_read c \<longleftrightarrow> 0 < satisfied c \<and> satisfied c < n_required c"

definition reader_read_eof :: "amqp_connection_t \<Rightarrow> outcome" where
  "reader_read_eof c =
    (let c = amqp_connection_failure_flag_set AMQP_CONNECTION_READ_EOF c
     in if reader_is_partial_read c then
          amqp_io_event_watcher_set False (read_watcher c) (\<lambda>_.
          let c = (reader_cleanup_reader c)\<lparr>reader_name := Reader_failed\<rparr>
          in amqp_connection_failed AMQP_CONNECTION_READ_ERROR c)
        else reader_call_read_callback (c\<lparr>reader_name := Reader_eof\<rparr>))"

text \<open>\<open>readv\<close> stores the bytes at the places of the vector.\<close>

definition readv_store :: "amqp_buffer_t \<Rightarrow> iovec list \<Rightarrow> byte list \<Rightarrow> amqp_buffer_t run" where
  "readv_store buffer vs bs =
     foldl (\<lambda>r (i, x). run_bind r (\<lambda>b. amqp_unchecked_putc_at b x i)) (Ret buffer) (zip (iov_positions vs) bs)"

text \<open>
  The loop of \<open>read_what_is_buffered\<close>, one turn per call of \<open>readv\<close>. The first result tells whether the
  read is complete, which is the case in which the callers go on with \<open>delayed_read\<close>.
\<close>

function reader_read_loop :: "read_result list \<Rightarrow> amqp_connection_t \<Rightarrow> (bool \<times> amqp_connection_t \<times> call list) run" where
  "reader_read_loop input c =
    (if n_required c \<le> satisfied c then
       run_bind (reader_call_read_callback (c\<lparr>incoming := input\<rparr>)) (\<lambda>(c, cs). Ret (True, c, cs))
     else
       run_bind (amqp_buffer_write_io_vec (buffer_read c) (n_required c - satisfied c)) (\<lambda>vs.
       case input of
         [] \<Rightarrow>
           run_bind (amqp_io_event_watcher_set True (read_watcher c) (\<lambda>w. Ret (c\<lparr>incoming := [], read_watcher := w\<rparr>, [])))
             (\<lambda>(c, cs). Ret (False, c, cs))
       | Read_would_block # rest \<Rightarrow>
           run_bind (amqp_io_event_watcher_set True (read_watcher c) (\<lambda>w. Ret (c\<lparr>incoming := rest, read_watcher := w\<rparr>, [])))
             (\<lambda>(c, cs). Ret (False, c, cs))
       | Received bs # rest \<Rightarrow>
           let needed = n_required c - satisfied c; n = min needed (length bs)
           in if n = 0 then run_bind (reader_read_eof (c\<lparr>incoming := rest\<rparr>)) (\<lambda>(c, cs). Ret (False, c, cs))
              else
                run_bind (readv_store (buffer_read c) vs (take needed bs)) (\<lambda>b.
                reader_read_loop (if needed < length bs then Received (drop needed bs) # rest else rest)
                  (c\<lparr>buffer_read := amqp_buffer_advance_write_point b n, satisfied := satisfied c + n\<rparr>))
       | End_of_file # rest \<Rightarrow> run_bind (reader_read_eof (c\<lparr>incoming := rest\<rparr>)) (\<lambda>(c, cs). Ret (False, c, cs))
       | Connection_reset # rest \<Rightarrow> run_bind (reader_read_eof (c\<lparr>incoming := rest\<rparr>)) (\<lambda>(c, cs). Ret (False, c, cs))
       | Read_error e # rest \<Rightarrow> Ret (False, c\<lparr>incoming := rest\<rparr>, [Reader_fail e])))"
  by pat_completeness auto
termination
  by (relation "measure (\<lambda>(_, c). n_required c - satisfied c)") (auto simp: neq_Nil_conv min_def)

declare reader_read_loop.simps [simp del]

definition reader_read_what_is_buffered :: "amqp_connection_t \<Rightarrow> (bool \<times> amqp_connection_t \<times> call list) run" where
  "reader_read_what_is_buffered c =
     run_assert (satisfied c < n_required c) (reader_read_loop (incoming c) c)"

text \<open>A read, and what its caller does when it was complete.\<close>

definition reader_continue_read_operation :: "call \<Rightarrow> amqp_connection_t \<Rightarrow> outcome" where
  "reader_continue_read_operation next_call c =
     run_bind (reader_read_what_is_buffered c) (\<lambda>(complete, c, cs).
     Ret (c, cs @ (if complete then [next_call] else [])))"

definition reader_queue_read_operation :: "nat \<Rightarrow> read_callback \<Rightarrow> amqp_connection_t \<Rightarrow> amqp_connection_t" where
  "reader_queue_read_operation required callback c =
     c\<lparr>read_callback_pointer := Some callback, read_is_queued := True, n_required := required, satisfied := 0\<rparr>"

definition reader_reader_stop :: "amqp_connection_t \<Rightarrow> outcome" where
  "reader_reader_stop c =
     amqp_io_event_watcher_set False (read_watcher c) (\<lambda>_. Ret ((reader_cleanup_reader c)\<lparr>reader_name := Reader_stopped\<rparr>, []))"

definition reader_reader_fail :: "int \<Rightarrow> amqp_connection_t \<Rightarrow> outcome" where
  "reader_reader_fail error_code c =
     amqp_io_event_watcher_set False (read_watcher c) (\<lambda>_.
     amqp_connection_failed AMQP_CONNECTION_READ_ERROR
       ((reader_cleanup_reader c)\<lparr>reader_name := Reader_failed, errno_error_code := error_code\<rparr>))"

definition reader_enable_while_initialized :: "amqp_connection_t \<Rightarrow> outcome" where
  "reader_enable_while_initialized c =
     run_assert (read_watcher c = None) (Ret (c\<lparr>read_watcher := Some False, reader_name := Reader_enabled\<rparr>, []))"

definition reader_stop_while_initialized :: "amqp_connection_t \<Rightarrow> outcome" where
  "reader_stop_while_initialized c = Ret (c\<lparr>reader_name := Reader_stopped\<rparr>, [])"

definition reader_reset_while_initialized :: "amqp_connection_t \<Rightarrow> outcome" where
  "reader_reset_while_initialized c = reader_enable_while_initialized c"

definition reader_commence_read_while_enabled :: "nat \<Rightarrow> read_callback \<Rightarrow> amqp_connection_t \<Rightarrow> outcome" where
  "reader_commence_read_while_enabled required callback c =
     reader_continue_read_operation Reader_delayed_read (reader_queue_read_operation required callback (c\<lparr>reader_name := Reader_reading\<rparr>))"

definition reader_next_read_while_enabled :: "amqp_connection_t \<Rightarrow> outcome" where
  "reader_next_read_while_enabled c =
     amqp_io_event_watcher_set False (read_watcher c) (\<lambda>w. Ret (c\<lparr>read_watcher := w\<rparr>, []))"

definition reader_commence_read_while_reading :: "nat \<Rightarrow> read_callback \<Rightarrow> amqp_connection_t \<Rightarrow> outcome" where
  "reader_commence_read_while_reading required callback c =
     run_assert (read_callback_pointer c = None \<and> \<not> read_is_queued c)
       (Ret (reader_queue_read_operation required callback c, []))"

definition reader_next_read_while_reading :: "amqp_connection_t \<Rightarrow> outcome" where
  "reader_next_read_while_reading c =
     amqp_io_event_watcher_set False (read_watcher c) (\<lambda>w. reader_continue_read_operation Reader_delayed_read (c\<lparr>read_watcher := w\<rparr>))"

definition reader_reset_while_reading :: "amqp_connection_t \<Rightarrow> outcome" where
  "reader_reset_while_reading c =
     amqp_io_event_watcher_set False (read_watcher c) (\<lambda>w. Ret (c\<lparr>read_watcher := w, reader_name := Reader_enabled\<rparr>, []))"

text \<open>
  The loop of \<open>delayed_read_while_reading\<close>: one turn, and the next turn when that read was complete. The
  next turn does not look at the state again, so a callback that stopped the reader is followed by
  the transition to \<open>enabled\<close>.
\<close>

definition reader_delayed_read_while_reading :: "amqp_connection_t \<Rightarrow> outcome" where
  "reader_delayed_read_while_reading c =
    (if read_is_queued c
     then reader_continue_read_operation Reader_delayed_loop (c\<lparr>reader_name := Reader_reading\<rparr>)
     else Ret (c\<lparr>reader_name := Reader_enabled\<rparr>, []))"

definition reader_commence_read_while_eof :: "nat \<Rightarrow> read_callback \<Rightarrow> amqp_connection_t \<Rightarrow> outcome" where
  "reader_commence_read_while_eof required callback c =
     reader_call_read_callback
       (c\<lparr>reader_name := Reader_eof_alerted, satisfied := 0, read_callback_pointer := Some callback\<rparr>)"

definition reader_reset_while_eof_alerted :: "amqp_connection_t \<Rightarrow> outcome" where
  "reader_reset_while_eof_alerted c = Ret (c\<lparr>reader_name := Reader_eof\<rparr>, [])"

section \<open>The actions\<close>

definition reader_enable :: "amqp_connection_t \<Rightarrow> outcome" where
  "reader_enable c = (case reader_name c of Reader_initialized \<Rightarrow> reader_enable_while_initialized c | _ \<Rightarrow> illegal_state)"

definition reader_commence_read :: "nat \<Rightarrow> read_callback \<Rightarrow> amqp_connection_t \<Rightarrow> outcome" where
  "reader_commence_read required callback c =
    (case reader_name c of
       Reader_enabled \<Rightarrow> reader_commence_read_while_enabled required callback c
     | Reader_reading \<Rightarrow> reader_commence_read_while_reading required callback c
     | Reader_eof \<Rightarrow> reader_commence_read_while_eof required callback c
     | _ \<Rightarrow> illegal_state)"

definition reader_continue_read :: "amqp_connection_t \<Rightarrow> outcome" where
  "reader_continue_read c =
    (case reader_name c of
       Reader_enabled \<Rightarrow> reader_next_read_while_enabled c
     | Reader_reading \<Rightarrow> reader_next_read_while_reading c
     | _ \<Rightarrow> illegal_state)"

definition reader_reset :: "amqp_connection_t \<Rightarrow> outcome" where
  "reader_reset c =
    (case reader_name c of
       Reader_initialized \<Rightarrow> reader_reset_while_initialized c
     | Reader_reading \<Rightarrow> reader_reset_while_reading c
     | Reader_eof_alerted \<Rightarrow> reader_reset_while_eof_alerted c
     | _ \<Rightarrow> Ret (c, []))"

definition reader_stop :: "amqp_connection_t \<Rightarrow> outcome" where
  "reader_stop c =
    (case reader_name c of
       Reader_initialized \<Rightarrow> reader_stop_while_initialized c
     | Reader_enabled \<Rightarrow> reader_reader_stop c
     | Reader_reading \<Rightarrow> reader_reader_stop c
     | _ \<Rightarrow> Ret (c, []))"

definition reader_fail :: "int \<Rightarrow> amqp_connection_t \<Rightarrow> outcome" where
  "reader_fail error_code c =
    (case reader_name c of
       Reader_enabled \<Rightarrow> reader_reader_fail error_code c
     | Reader_reading \<Rightarrow> reader_reader_fail error_code c
     | _ \<Rightarrow> illegal_state)"

definition reader_delayed_read :: "amqp_connection_t \<Rightarrow> outcome" where
  "reader_delayed_read c = (case reader_name c of Reader_reading \<Rightarrow> reader_delayed_read_while_reading c | _ \<Rightarrow> Ret (c, []))"

end
