(* ===== verification/Connection_Write.thy ===== *)
theory Connection_Write
  imports Connection
begin

text \<open>
  The writer of \<^verbatim>\<open>Transport/Connection/IO/ConnectionWrite.c\<close>: a circular queue of three buffers, of which the one
  at \<open>start\<close> is being sent. The only callback that is ever given to \<open>stop\<close> is the one that tells the
  connection that the writer is done.
\<close>

abbreviation AMQP_WRITE_QUEUE_SIZE :: nat where "AMQP_WRITE_QUEUE_SIZE \<equiv> 3"

definition writer_cleanup_write_watcher :: "amqp_connection_t \<Rightarrow> amqp_connection_t" where
  "writer_cleanup_write_watcher c = c\<lparr>write_watcher := None\<rparr>"

definition writer_deallocate_buffer_queue_element :: "nat \<Rightarrow> amqp_connection_t \<Rightarrow> amqp_connection_t" where
  "writer_deallocate_buffer_queue_element n c = c\<lparr>buffer_queue := (buffer_queue c)[n := None]\<rparr>"

definition writer_clear_buffer_queue :: "amqp_connection_t \<Rightarrow> amqp_connection_t" where
  "writer_clear_buffer_queue c = foldl (\<lambda>c i. writer_deallocate_buffer_queue_element i c) c [0..<AMQP_WRITE_QUEUE_SIZE]"

definition writer_cleanup_resources :: "amqp_connection_t \<Rightarrow> (amqp_connection_t \<Rightarrow> outcome) \<Rightarrow> outcome" where
  "writer_cleanup_resources c k =
     amqp_io_event_watcher_set False (write_watcher c) (\<lambda>_. k (writer_clear_buffer_queue (writer_cleanup_write_watcher c)))"

definition writer_call_done_callback :: "amqp_connection_t \<Rightarrow> outcome" where
  "writer_call_done_callback c =
     run_assert (stopped_callback c) (Ret (c\<lparr>stopped_callback := False\<rparr>, [Connection_done]))"

definition writer_at_queue_end :: "amqp_connection_t \<Rightarrow> bool" where
  "writer_at_queue_end c \<longleftrightarrow> queue_start c = queue_end c"

definition writer_increment_queue_index :: "nat \<Rightarrow> nat" where
  "writer_increment_queue_index index = (index + 1) mod AMQP_WRITE_QUEUE_SIZE"

text \<open>\<open>sendmsg\<close> takes the first \<open>n\<close> bytes at the places of the vector.\<close>

definition sendmsg_bytes :: "amqp_buffer_t \<Rightarrow> iovec list \<Rightarrow> nat \<Rightarrow> byte list run" where
  "sendmsg_bytes buffer vs n =
     foldr (\<lambda>i r. run_bind (amqp_unchecked_getc_at buffer i) (\<lambda>x. run_bind r (\<lambda>xs. Ret (x # xs)))) (take n (iov_positions vs)) (Ret [])"

text \<open>
  The loop of \<open>continue_write_operation\<close>, one turn per call of \<open>sendmsg\<close>: the buffer, the bytes sent and the
  results that are left; then why it ended, \<open>None\<close> when everything was sent.
\<close>

fun writer_write_loop ::
  "send_result list \<Rightarrow> amqp_buffer_t \<Rightarrow> byte list \<Rightarrow> (amqp_buffer_t \<times> byte list \<times> send_result list \<times> send_result option) run" where
  "writer_write_loop results buffer sent =
    (if amqp_buffer_available buffer \<le> 0 then Ret (buffer, sent, results, None)
     else
       run_bind (amqp_buffer_read_io_vec buffer) (\<lambda>vs.
       case results of
         [] \<Rightarrow> Ret (buffer, sent, [], Some Write_would_block)
       | Sent k # rest \<Rightarrow>
           let n = min k (nat (amqp_buffer_available buffer))
           in run_bind (sendmsg_bytes buffer vs n) (\<lambda>bs.
              writer_write_loop rest (amqp_buffer_advance_read_index buffer n) (sent @ bs))
       | error # rest \<Rightarrow> Ret (buffer, sent, rest, Some error)))"

declare writer_write_loop.simps [simp del]

definition writer_continue_write_operation :: "amqp_connection_t \<Rightarrow> outcome" where
  "writer_continue_write_operation c =
    (let start = queue_start c
     in case buffer_queue c ! start of
          None \<Rightarrow> Fault BadMemory
        | Some buffer \<Rightarrow>
            run_bind (writer_write_loop (write_results c) buffer []) (\<lambda>(buffer, sent, rest, why).
            let c = c\<lparr>buffer_queue := (buffer_queue c)[start := Some buffer], outgoing := outgoing c @ sent, write_results := rest\<rparr>
            in case why of
                 Some (Write_error e) \<Rightarrow> Ret (c, [Writer_fail e])
               | Some _ \<Rightarrow> amqp_io_event_watcher_set True (write_watcher c) (\<lambda>w. Ret (c\<lparr>write_watcher := w\<rparr>, []))
               | None \<Rightarrow>
                   let c = writer_deallocate_buffer_queue_element start (c\<lparr>last_write_time := now c\<rparr>)
                   in Ret (c\<lparr>queue_start := writer_increment_queue_index start\<rparr>, [Writer_write_complete])))"

definition writer_commence_write_operation :: "amqp_buffer_t \<Rightarrow> amqp_connection_t \<Rightarrow> outcome" where
  "writer_commence_write_operation buffer c =
    (let e = queue_end c
     in writer_continue_write_operation
          (c\<lparr>queue_end := writer_increment_queue_index e, buffer_queue := (buffer_queue c)[e := Some buffer]\<rparr>))"

definition writer_writer_fail :: "int \<Rightarrow> amqp_connection_t \<Rightarrow> outcome" where
  "writer_writer_fail error_code c =
     writer_cleanup_resources (c\<lparr>writer_name := Writer_failed\<rparr>) (\<lambda>c.
     amqp_connection_failed AMQP_CONNECTION_WRITE_ERROR (c\<lparr>errno_error_code := error_code\<rparr>))"

definition writer_writer_cleanup :: "amqp_connection_t \<Rightarrow> (amqp_connection_t \<Rightarrow> outcome) \<Rightarrow> outcome" where
  "writer_writer_cleanup c k = writer_cleanup_resources (c\<lparr>writer_name := Writer_stopped\<rparr>) k"

definition writer_writer_stop :: "bool \<Rightarrow> amqp_connection_t \<Rightarrow> outcome" where
  "writer_writer_stop callback c = writer_writer_cleanup (c\<lparr>stopped_callback := callback\<rparr>) writer_call_done_callback"

definition writer_enable_while_initialized :: "amqp_connection_t \<Rightarrow> outcome" where
  "writer_enable_while_initialized c =
     run_assert (write_watcher c = None) (Ret (c\<lparr>write_watcher := Some False, writer_name := Writer_enabled\<rparr>, []))"

definition writer_stop_while_initialized :: "amqp_connection_t \<Rightarrow> outcome" where
  "writer_stop_while_initialized c = writer_call_done_callback (c\<lparr>stopped_callback := True, writer_name := Writer_stopped\<rparr>)"

definition writer_abort_while_initialized :: "amqp_connection_t \<Rightarrow> outcome" where
  "writer_abort_while_initialized c = Ret (c\<lparr>writer_name := Writer_stopped\<rparr>, [])"

definition writer_commence_write_while_enabled :: "amqp_buffer_t \<Rightarrow> amqp_connection_t \<Rightarrow> outcome" where
  "writer_commence_write_while_enabled buffer c = writer_commence_write_operation buffer (c\<lparr>writer_name := Writer_writing\<rparr>)"

definition writer_next_write_while_enabled :: "amqp_connection_t \<Rightarrow> outcome" where
  "writer_next_write_while_enabled c =
     amqp_io_event_watcher_set False (write_watcher c) (\<lambda>w. Ret (c\<lparr>write_watcher := w\<rparr>, []))"

definition writer_commence_write_while_writing :: "amqp_buffer_t \<Rightarrow> amqp_connection_t \<Rightarrow> outcome" where
  "writer_commence_write_while_writing buffer c = Fault NotImplemented"

definition writer_next_write_while_writing :: "amqp_connection_t \<Rightarrow> outcome" where
  "writer_next_write_while_writing c =
     amqp_io_event_watcher_set False (write_watcher c) (\<lambda>w. writer_continue_write_operation (c\<lparr>write_watcher := w\<rparr>))"

definition writer_stop_while_writing :: "amqp_connection_t \<Rightarrow> outcome" where
  "writer_stop_while_writing c = Ret (c\<lparr>stopped_callback := True, writer_name := Writer_stopping\<rparr>, [])"

definition writer_write_complete_while_writing :: "amqp_connection_t \<Rightarrow> outcome" where
  "writer_write_complete_while_writing c =
    (if writer_at_queue_end c then Ret (c\<lparr>writer_name := Writer_enabled\<rparr>, []) else Ret (c, []))"

definition writer_next_write_while_stopping :: "amqp_connection_t \<Rightarrow> outcome" where
  "writer_next_write_while_stopping c =
     amqp_io_event_watcher_set False (write_watcher c) (\<lambda>w. writer_continue_write_operation (c\<lparr>write_watcher := w\<rparr>))"

definition writer_write_complete_while_stopping :: "amqp_connection_t \<Rightarrow> outcome" where
  "writer_write_complete_while_stopping c =
    (if writer_at_queue_end c then writer_writer_stop (stopped_callback c) c else Ret (c, []))"

definition writer_default_write_abort :: "amqp_connection_t \<Rightarrow> outcome" where
  "writer_default_write_abort c = writer_writer_cleanup c (\<lambda>c. Ret (c, []))"

section \<open>The actions\<close>

definition writer_enable :: "amqp_connection_t \<Rightarrow> outcome" where
  "writer_enable c = (case writer_name c of Writer_initialized \<Rightarrow> writer_enable_while_initialized c | _ \<Rightarrow> illegal_state)"

definition writer_write :: "amqp_buffer_t \<Rightarrow> amqp_connection_t \<Rightarrow> outcome" where
  "writer_write buffer c =
    (case writer_name c of
       Writer_enabled \<Rightarrow> writer_commence_write_while_enabled buffer c
     | Writer_writing \<Rightarrow> writer_commence_write_while_writing buffer c
     | _ \<Rightarrow> illegal_state)"

definition writer_continue_write :: "amqp_connection_t \<Rightarrow> outcome" where
  "writer_continue_write c =
    (case writer_name c of
       Writer_enabled \<Rightarrow> writer_next_write_while_enabled c
     | Writer_writing \<Rightarrow> writer_next_write_while_writing c
     | Writer_stopping \<Rightarrow> writer_next_write_while_stopping c
     | _ \<Rightarrow> illegal_state)"

definition writer_stop :: "amqp_connection_t \<Rightarrow> outcome" where
  "writer_stop c =
    (case writer_name c of
       Writer_initialized \<Rightarrow> writer_stop_while_initialized c
     | Writer_enabled \<Rightarrow> writer_writer_stop True c
     | Writer_writing \<Rightarrow> writer_stop_while_writing c
     | _ \<Rightarrow> Ret (c, [Connection_done]))"

definition writer_fail :: "int \<Rightarrow> amqp_connection_t \<Rightarrow> outcome" where
  "writer_fail error_code c =
    (case writer_name c of
       Writer_enabled \<Rightarrow> writer_writer_fail error_code c
     | Writer_writing \<Rightarrow> writer_writer_fail error_code c
     | Writer_stopping \<Rightarrow> writer_writer_fail error_code c
     | _ \<Rightarrow> illegal_state)"

definition writer_abort :: "amqp_connection_t \<Rightarrow> outcome" where
  "writer_abort c =
    (case writer_name c of
       Writer_initialized \<Rightarrow> writer_abort_while_initialized c
     | Writer_stopped \<Rightarrow> Ret (c, [])
     | Writer_failed \<Rightarrow> Ret (c, [])
     | _ \<Rightarrow> writer_default_write_abort c)"

definition writer_write_complete :: "amqp_connection_t \<Rightarrow> outcome" where
  "writer_write_complete c =
    (case writer_name c of
       Writer_writing \<Rightarrow> writer_write_complete_while_writing c
     | Writer_stopping \<Rightarrow> writer_write_complete_while_stopping c
     | _ \<Rightarrow> illegal_state)"

end
