(* ===== verification/Connection_Negotiation.thy ===== *)
theory Connection_Negotiation
  imports Connection
begin

text \<open>
  The negotiation of protocol versions (\<^verbatim>\<open>Transport/Connection/ConnectionNegotiation.c\<close>) and the two tunnels that
  consist of little else, TLS (\<^verbatim>\<open>ConnectionTls.c\<close>, mostly unimplemented in the source) and AMQP
  (\<^verbatim>\<open>ConnectionAmqpTunnel.c\<close>).
\<close>

section \<open>Negotiator\<close>

text \<open>\<open>write_version\<close> leaves the write to the writer.\<close>

definition negotiator_write_version :: "uint32 \<Rightarrow> call list run" where
  "negotiator_write_version version =
     run_bind (amqp_negotiator_encode_version version new_buffer) (\<lambda>buffer. Ret (amqp_connection_write_buffer (Some buffer)))"

definition negotiator_start_while_initialized ::
  "uint32 \<Rightarrow> confirm_callback \<Rightarrow> reject_callback \<Rightarrow> amqp_connection_t \<Rightarrow> outcome" where
  "negotiator_start_while_initialized version confirm reject c =
     run_bind (negotiator_write_version version) (\<lambda>write.
     Ret (c\<lparr>preferred_version := version, confirm_pointer := Some confirm, handshake_reject_pointer := Some reject,
            request_pointer := False\<rparr>, write @ [Negotiator_started]))"

text \<open>The rest of \<open>start_while_initialized\<close>, after the write returned.\<close>

definition negotiator_started :: "amqp_connection_t \<Rightarrow> outcome" where
  "negotiator_started c =
     Ret (c\<lparr>negotiator_name := Negotiator_waiting_for_broker_response, buffer_read := amqp_buffer_reset (buffer_read c)\<rparr>,
          [Reader_commence_read AMQP_FRAME_HEADER_SIZE Negotiator_read_complete])"

definition negotiator_wait_while_initialized :: "amqp_connection_t \<Rightarrow> outcome" where
  "negotiator_wait_while_initialized c =
     Ret (c\<lparr>negotiator_name := Negotiator_waiting_on_client_request, preferred_version := 0, confirm_pointer := None,
            handshake_reject_pointer := None, request_pointer := True\<rparr>,
          [Reader_commence_read AMQP_FRAME_HEADER_SIZE Negotiator_read_complete])"

definition negotiator_read_done_while_waiting_for_broker_response :: "nat \<Rightarrow> amqp_connection_t \<Rightarrow> outcome" where
  "negotiator_read_done_while_waiting_for_broker_response amount c =
    (if amount = 0 then Ret (c\<lparr>negotiator_name := Negotiator_failed\<rparr>, [Connection_shutdown])
     else
       run_bind (amqp_negotiator_decode_version (buffer_read c)) (\<lambda>(broker_version, b).
       let c = c\<lparr>buffer_read := b\<rparr>
       in if broker_version = preferred_version c then
            (case confirm_pointer c of
               None \<Rightarrow> Fault BadMemory
             | Some confirm \<Rightarrow> Ret (c\<lparr>negotiator_name := Negotiator_negotiated\<rparr>, [Confirm confirm]))
          else
            (case handshake_reject_pointer c of
               None \<Rightarrow> Fault BadMemory
             | Some reject \<Rightarrow> Ret (c\<lparr>negotiator_name := Negotiator_rejected\<rparr>, [Handshake_reject reject broker_version]))))"

definition negotiator_read_done_while_waiting_on_client_request :: "nat \<Rightarrow> amqp_connection_t \<Rightarrow> outcome" where
  "negotiator_read_done_while_waiting_on_client_request amount c =
    (if amount = 0 then Ret (c\<lparr>negotiator_name := Negotiator_failed\<rparr>, [Connection_shutdown])
     else
       run_bind (amqp_negotiator_decode_version (buffer_read c)) (\<lambda>(version, b).
       if request_pointer c
       then Ret (c\<lparr>buffer_read := b, negotiator_name := Negotiator_waiting_to_send_server_response\<rparr>, [Request version])
       else Fault BadMemory))"

definition negotiator_send_while_waiting_to_send_server_response ::
  "uint32 \<Rightarrow> confirm_callback \<Rightarrow> amqp_connection_t \<Rightarrow> outcome" where
  "negotiator_send_while_waiting_to_send_server_response version confirm c =
     run_bind (negotiator_write_version version) (\<lambda>write.
     Ret (c\<lparr>preferred_version := version, confirm_pointer := Some confirm, handshake_reject_pointer := None,
            request_pointer := False\<rparr>, write @ [Negotiator_sent]))"

text \<open>The rest of it, after the write returned; the callback is read from the connection again.\<close>

definition negotiator_sent :: "amqp_connection_t \<Rightarrow> outcome" where
  "negotiator_sent c =
    (case confirm_pointer c of
       None \<Rightarrow> Fault BadMemory
     | Some confirm \<Rightarrow> Ret (c\<lparr>negotiator_name := Negotiator_negotiated\<rparr>, [Confirm confirm]))"

definition negotiator_reset_while_negotiated :: "amqp_connection_t \<Rightarrow> outcome" where
  "negotiator_reset_while_negotiated c = Ret (c\<lparr>negotiator_name := Negotiator_initialized\<rparr>, [])"

definition negotiator_start :: "uint32 \<Rightarrow> confirm_callback \<Rightarrow> reject_callback \<Rightarrow> amqp_connection_t \<Rightarrow> outcome" where
  "negotiator_start version confirm reject c =
    (case negotiator_name c of
       Negotiator_initialized \<Rightarrow> negotiator_start_while_initialized version confirm reject c
     | _ \<Rightarrow> illegal_state)"

definition negotiator_wait :: "amqp_connection_t \<Rightarrow> outcome" where
  "negotiator_wait c =
    (case negotiator_name c of Negotiator_initialized \<Rightarrow> negotiator_wait_while_initialized c | _ \<Rightarrow> illegal_state)"

definition negotiator_send :: "uint32 \<Rightarrow> confirm_callback \<Rightarrow> amqp_connection_t \<Rightarrow> outcome" where
  "negotiator_send version confirm c =
    (case negotiator_name c of
       Negotiator_waiting_to_send_server_response \<Rightarrow> negotiator_send_while_waiting_to_send_server_response version confirm c
     | _ \<Rightarrow> illegal_state)"

definition negotiator_read_done :: "nat \<Rightarrow> amqp_connection_t \<Rightarrow> outcome" where
  "negotiator_read_done amount c =
    (case negotiator_name c of
       Negotiator_waiting_for_broker_response \<Rightarrow> negotiator_read_done_while_waiting_for_broker_response amount c
     | Negotiator_waiting_on_client_request \<Rightarrow> negotiator_read_done_while_waiting_on_client_request amount c
     | _ \<Rightarrow> illegal_state)"

definition negotiator_reset :: "amqp_connection_t \<Rightarrow> outcome" where
  "negotiator_reset c =
    (case negotiator_name c of
       Negotiator_initialized \<Rightarrow> Ret (c, [])
     | Negotiator_negotiated \<Rightarrow> negotiator_reset_while_negotiated c
     | _ \<Rightarrow> illegal_state)"

section \<open>TLS\<close>

definition tls_start_while_initialized :: "amqp_connection_t \<Rightarrow> outcome" where
  "tls_start_while_initialized c =
     Ret (c, [Negotiator_start (required_tls c) Tls_version_accepted Tls_version_rejected])"

definition tls_tunnel_accept_while_initialized :: "uint32 \<Rightarrow> amqp_connection_t \<Rightarrow> outcome" where
  "tls_tunnel_accept_while_initialized requested_version c = Fault NotImplemented"

section \<open>AMQP tunnel\<close>

definition tunnel_amqp_version_accepted :: "amqp_connection_t \<Rightarrow> outcome" where
  "tunnel_amqp_version_accepted c =
     Ret (c\<lparr>amqp_tunnel_name := Tunnel_negotiated, supported_amqp := required_amqp c\<rparr>, [Connection_done])"

definition tunnel_amqp_version_rejected :: "uint32 \<Rightarrow> amqp_connection_t \<Rightarrow> outcome" where
  "tunnel_amqp_version_rejected version c =
     Ret (c\<lparr>amqp_tunnel_name := Tunnel_failed, supported_amqp := version\<rparr>, [Connection_fail])"

definition tunnel_amqp_connect_while_initialized :: "amqp_connection_t \<Rightarrow> outcome" where
  "tunnel_amqp_connect_while_initialized c =
     Ret (c, [Negotiator_reset, Negotiator_start (required_amqp c) Amqp_version_accepted Amqp_version_rejected])"

definition amqp_negotiator_choose_amqp_protocol_version :: "amqp_connection_t \<Rightarrow> uint32" where
  "amqp_negotiator_choose_amqp_protocol_version c = required_amqp c"

text \<open>\<open>call_action\<close> reports a null pointer instead of calling it.\<close>

definition call_reject :: "uint32 \<Rightarrow> amqp_connection_t \<Rightarrow> call list" where
  "call_reject version c = (case reject_pointer c of None \<Rightarrow> [] | Some _ \<Rightarrow> [Connection_reject version])"

definition tunnel_tunnel_accept_while_initialized :: "uint32 \<Rightarrow> amqp_connection_t \<Rightarrow> outcome" where
  "tunnel_tunnel_accept_while_initialized requested_version c =
     run_assert (amqp_version_protocol_id requested_version = AMQP_PROTOCOL_ID)
      (let supported_version = amqp_negotiator_choose_amqp_protocol_version c
       in if requested_version \<noteq> supported_version
          then Ret (c\<lparr>amqp_tunnel_name := Tunnel_failed\<rparr>, call_reject supported_version c)
          else Ret (c\<lparr>amqp_tunnel_name := Tunnel_sending_header_response\<rparr>, [Negotiator_send supported_version Amqp_done_callback]))"

definition tunnel_done_while_sending_header_response :: "amqp_connection_t \<Rightarrow> outcome" where
  "tunnel_done_while_sending_header_response c = Ret (c\<lparr>amqp_tunnel_name := Tunnel_negotiated\<rparr>, [Connection_done])"

definition amqp_tunnel_connect :: "amqp_connection_t \<Rightarrow> outcome" where
  "amqp_tunnel_connect c =
    (case amqp_tunnel_name c of Tunnel_initialized \<Rightarrow> tunnel_amqp_connect_while_initialized c | _ \<Rightarrow> illegal_state)"

definition amqp_tunnel_done :: "amqp_connection_t \<Rightarrow> outcome" where
  "amqp_tunnel_done c =
    (case amqp_tunnel_name c of
       Tunnel_sending_header_response \<Rightarrow> tunnel_done_while_sending_header_response c
     | _ \<Rightarrow> illegal_state)"

definition amqp_tunnel_accept :: "uint32 \<Rightarrow> amqp_connection_t \<Rightarrow> outcome" where
  "amqp_tunnel_accept version c =
    (case amqp_tunnel_name c of Tunnel_initialized \<Rightarrow> tunnel_tunnel_accept_while_initialized version c | _ \<Rightarrow> illegal_state)"

end
