(* ===== verification/Connection_Frames.thy ===== *)
theory Connection_Frames
  imports Connection_Negotiation
begin

text \<open>
  The machines that work with frames: the frame reader (\<^verbatim>\<open>Transport/Connection/ConnectionFrameReader.c\<close>), the
  SASL tunnel (\<^verbatim>\<open>ConnectionSasl.c\<close>, with the processing of SASL frames from \<^verbatim>\<open>Transport/Sasl\<close>), the AMQP
  protocol (\<^verbatim>\<open>ConnectionAmqp.c\<close>, with \<^verbatim>\<open>Transport/Amqp/AmqpFrames.c\<close>) and the dispatch between them
  (\<^verbatim>\<open>FrameDisplatch.c\<close>).
\<close>

section \<open>Frame reader\<close>

abbreviation amqp_protocol_header :: uint32 where "amqp_protocol_header \<equiv> 0x414d5150"

definition frame_enable_while_initialized :: "amqp_connection_t \<Rightarrow> outcome" where
  "frame_enable_while_initialized c = Ret (c\<lparr>frame_name := Frame_enabled\<rparr>, [])"

definition frame_read_while_enabled :: "frame_available_callback \<Rightarrow> amqp_connection_t \<Rightarrow> outcome" where
  "frame_read_while_enabled callback c =
     Ret (c\<lparr>buffer_read := amqp_buffer_reset (buffer_read c), frame_name := Frame_reading_frame_header,
            frame_available_pointer := Some callback\<rparr>,
          [Reader_commence_read AMQP_FRAME_HEADER_SIZE Frame_read_complete])"

definition frame_call_available :: "amqp_connection_t \<Rightarrow> outcome" where
  "frame_call_available c =
    (case frame_available_pointer c of
       None \<Rightarrow> Fault BadMemory
     | Some callback \<Rightarrow> Ret (c\<lparr>frame_name := Frame_enabled\<rparr>, [Frame_available callback]))"

text \<open>
  The test of the size that the header announces: it must be smaller than the limit of the
  connection, not smaller than the header, and not the start of a protocol header.
\<close>

definition frame_size_invalid :: "uint32 \<Rightarrow> amqp_connection_t \<Rightarrow> bool" where
  "frame_size_invalid fsize c \<longleftrightarrow> max_frame_size c \<le> fsize \<or> fsize < 8 \<or> fsize = amqp_protocol_header"

definition frame_read_done_while_reading_frame_header :: "nat \<Rightarrow> amqp_connection_t \<Rightarrow> outcome" where
  "frame_read_done_while_reading_frame_header amount c =
    (if amount = 0 then Ret (c, [Connection_shutdown])
     else if amount \<noteq> AMQP_FRAME_HEADER_SIZE then amqp_connection_failed AMQP_CONNECTION_READ_ERROR c
     else
       run_bind (amqp_buffer_read_uint32 (buffer_read c) 0) (\<lambda>fsize.
       let c = c\<lparr>io_frame_size := fsize\<rparr>
       in if frame_size_invalid fsize c then
            Ret (amqp_connection_failure_flag_set AMQP_CONNECTION_READ_ERROR c, [Connection_fail, Frame_size_error_dumped])
          else if fsize = 8 then frame_call_available c
          else Ret (c\<lparr>frame_name := Frame_reading_frame_body\<rparr>,
                    [Reader_commence_read (unat (fsize - 8)) Frame_read_complete])))"

definition frame_read_done_while_reading_frame_body :: "nat \<Rightarrow> amqp_connection_t \<Rightarrow> outcome" where
  "frame_read_done_while_reading_frame_body amount c =
    (if amount \<noteq> unat (io_frame_size c - 8) then amqp_connection_failed AMQP_CONNECTION_READ_ERROR c
     else frame_call_available c)"

definition frame_enable :: "amqp_connection_t \<Rightarrow> outcome" where
  "frame_enable c = (case frame_name c of Frame_initialized \<Rightarrow> frame_enable_while_initialized c | _ \<Rightarrow> Ret (c, []))"

definition frame_read :: "frame_available_callback \<Rightarrow> amqp_connection_t \<Rightarrow> outcome" where
  "frame_read callback c =
    (case frame_name c of
       Frame_enabled \<Rightarrow> frame_read_while_enabled callback c
     | Frame_reading_frame_header \<Rightarrow> Ret (c, [])
     | Frame_reading_frame_body \<Rightarrow> Ret (c, [])
     | _ \<Rightarrow> illegal_state)"

definition frame_read_done :: "nat \<Rightarrow> amqp_connection_t \<Rightarrow> outcome" where
  "frame_read_done amount c =
    (case frame_name c of
       Frame_reading_frame_header \<Rightarrow> frame_read_done_while_reading_frame_header amount c
     | Frame_reading_frame_body \<Rightarrow> frame_read_done_while_reading_frame_body amount c
     | Frame_stopped \<Rightarrow> Ret (c, [])
     | _ \<Rightarrow> illegal_state)"

definition frame_stop :: "amqp_connection_t \<Rightarrow> outcome" where
  "frame_stop c = Ret (c\<lparr>frame_name := Frame_stopped\<rparr>, [])"

section \<open>Dispatch of decoded frames\<close>

text \<open>The dispatch function that the decoder stored in the frame.\<close>

definition dispatch_frame :: "amqp_frame \<Rightarrow> call" where
  "dispatch_frame frame =
    (case frame of
       Frame_sasl_mechanisms \<Rightarrow> Sasl_frame frame | Frame_sasl_init \<Rightarrow> Sasl_frame frame
     | Frame_sasl_challenge \<Rightarrow> Sasl_frame frame | Frame_sasl_response \<Rightarrow> Sasl_frame frame
     | Frame_sasl_outcome \<Rightarrow> Sasl_frame frame
     | _ \<Rightarrow> Amqp_frame frame)"

section \<open>SASL tunnel\<close>

definition sasl_received_out_of_sequence_sasl_frame :: "amqp_connection_t \<Rightarrow> outcome" where
  "sasl_received_out_of_sequence_sasl_frame c =
     Ret (amqp_connection_failure_flag_set (AMQP_CONNECTION_SASL_ERROR OR AMQP_CONNECTION_FRAME_SEQUENCE_ERROR) c, [Connection_fail])"

definition sasl_frame_available_callback :: "environment \<Rightarrow> amqp_connection_t \<Rightarrow> outcome" where
  "sasl_frame_available_callback env c =
    (case sasl_frame_decoder env (buffer_read c) of
       None \<Rightarrow> amqp_connection_failed AMQP_CONNECTION_SASL_FRAME_DECODE_ERROR c
     | Some frame \<Rightarrow> Ret (c, [dispatch_frame frame]))"

definition sasl_sasl_version_accepted_callback :: "amqp_connection_t \<Rightarrow> outcome" where
  "sasl_sasl_version_accepted_callback c =
     Ret (c\<lparr>supported_sasl := required_sasl c, sasl_name := Sasl_waiting_on_sasl_mechanisms\<rparr>,
          [Frame_enable, Frame_read Sasl_frame_available])"

definition sasl_sasl_version_rejected_callback :: "uint32 \<Rightarrow> amqp_connection_t \<Rightarrow> outcome" where
  "sasl_sasl_version_rejected_callback version c =
     Ret (c\<lparr>sasl_name := Sasl_failed, supported_sasl := version\<rparr>, [Connection_fail])"

definition sasl_sasl_connect_while_initialized :: "amqp_connection_t \<Rightarrow> outcome" where
  "sasl_sasl_connect_while_initialized c =
     Ret (c, [Negotiator_reset, Negotiator_start (required_sasl c) Sasl_version_accepted_callback Sasl_version_rejected_callback])"

definition amqp_negotiator_choose_sasl_protocol_version :: "amqp_connection_t \<Rightarrow> uint32" where
  "amqp_negotiator_choose_sasl_protocol_version c = required_sasl c"

definition sasl_tunnel_accept_while_initialized :: "uint32 \<Rightarrow> amqp_connection_t \<Rightarrow> outcome" where
  "sasl_tunnel_accept_while_initialized requested_version c =
     run_assert (amqp_version_protocol_id requested_version = AMQP_SASL_PROTOCOL_ID)
      (let supported_version = amqp_negotiator_choose_sasl_protocol_version c
       in if requested_version \<noteq> supported_version
          then Ret (c\<lparr>sasl_name := Sasl_failed\<rparr>, call_reject supported_version c)
          else Ret (c\<lparr>sasl_name := Sasl_sending_header_response\<rparr>,
                    [Negotiator_send supported_version Sasl_broker_version_sent_callback]))"

text \<open>The client got the mechanisms of the broker and answers with an init frame.\<close>

definition amqp_send_sasl_init_response :: "environment \<Rightarrow> amqp_connection_t \<Rightarrow> outcome" where
  "amqp_send_sasl_init_response env c =
    (if socket_hostname c = None then amqp_connection_failed AMQP_CONNECTION_SASL_ERROR c
     else Ret (c, [Writer_write (encoded_sasl_init env), Sasl_init_sent]))"

definition sasl_received_sasl_mechanisms_frame :: "environment \<Rightarrow> amqp_connection_t \<Rightarrow> outcome" where
  "sasl_received_sasl_mechanisms_frame env c =
    (if amqp_sasl_select_mechanism env then amqp_send_sasl_init_response env (c\<lparr>sasl_plugin := True\<rparr>)
     else amqp_connection_failed AMQP_CONNECTION_SASL_ERROR c)"

definition sasl_init_sent :: "amqp_connection_t \<Rightarrow> outcome" where
  "sasl_init_sent c = Ret (c\<lparr>sasl_name := Sasl_waiting_on_sasl_challenge_or_outcome\<rparr>, [Frame_read Sasl_frame_available])"

definition sasl_received_sasl_challenge_frame :: "amqp_connection_t \<Rightarrow> outcome" where
  "sasl_received_sasl_challenge_frame c = Fault NotImplemented"

definition sasl_received_sasl_outcome_frame :: "environment \<Rightarrow> amqp_connection_t \<Rightarrow> outcome" where
  "sasl_received_sasl_outcome_frame env c =
     run_assert (sasl_plugin c)
      (if amqp_sasl_plugin_handle_outcome env then Ret (c\<lparr>sasl_name := Sasl_negotiated\<rparr>, [Connection_done])
       else Ret (c, []))"

definition sasl_done_while_sending_header_response :: "environment \<Rightarrow> amqp_connection_t \<Rightarrow> outcome" where
  "sasl_done_while_sending_header_response env c =
    (if amqp_context_sasl_plugin_count env = 0 then amqp_connection_failed AMQP_CONNECTION_SASL_ERROR c
     else Ret (c, [Writer_write (encoded_sasl_mechanisms env), Sasl_mechanisms_sent]))"

definition sasl_mechanisms_sent :: "amqp_connection_t \<Rightarrow> outcome" where
  "sasl_mechanisms_sent c =
     Ret (c\<lparr>sasl_name := Sasl_waiting_on_sasl_initial_response_frame\<rparr>, [Frame_enable, Frame_read Sasl_frame_available])"

text \<open>The broker got the init frame; only acceptance is implemented in the source.\<close>

definition sasl_received_sasl_initial_response_frame :: "environment \<Rightarrow> amqp_connection_t \<Rightarrow> outcome" where
  "sasl_received_sasl_initial_response_frame env c =
    (if \<not> amqp_context_lookup_sasl_plugin env then
       Ret (amqp_connection_failure_flag_set AMQP_CONNECTION_SASL_ERROR c, [Connection_fail, Unsupported_mechanism_reported])
     else
       let c = c\<lparr>sasl_plugin := True\<rparr>
       in case amqp_sasl_plugin_initial_response_handle env of
            Amqp_plugin_handler_outcome_accepted \<Rightarrow> Ret (c, [Writer_write (encoded_sasl_outcome env), Sasl_outcome_sent])
          | Amqp_sasl_frame_process_error \<Rightarrow> Fault Aborted
          | _ \<Rightarrow> Fault NotImplemented)"

definition sasl_outcome_sent :: "amqp_connection_t \<Rightarrow> outcome" where
  "sasl_outcome_sent c = Ret (c\<lparr>sasl_name := Sasl_negotiated\<rparr>, [Connection_done])"

definition sasl_received_sasl_challenge_response_frame :: "amqp_connection_t \<Rightarrow> outcome" where
  "sasl_received_sasl_challenge_response_frame c = Fault NotImplemented"

definition sasl_connect :: "amqp_connection_t \<Rightarrow> outcome" where
  "sasl_connect c = (case sasl_name c of Sasl_initialized \<Rightarrow> sasl_sasl_connect_while_initialized c | _ \<Rightarrow> illegal_state)"

definition sasl_done :: "environment \<Rightarrow> amqp_connection_t \<Rightarrow> outcome" where
  "sasl_done env c =
    (case sasl_name c of
       Sasl_sending_header_response \<Rightarrow> sasl_done_while_sending_header_response env c
     | _ \<Rightarrow> illegal_state)"

definition sasl_accept :: "uint32 \<Rightarrow> amqp_connection_t \<Rightarrow> outcome" where
  "sasl_accept version c =
    (case sasl_name c of Sasl_initialized \<Rightarrow> sasl_tunnel_accept_while_initialized version c | _ \<Rightarrow> illegal_state)"

definition sasl_frame :: "environment \<Rightarrow> amqp_frame \<Rightarrow> amqp_connection_t \<Rightarrow> outcome" where
  "sasl_frame env frame c =
    (case (frame, sasl_name c) of
       (Frame_sasl_mechanisms, Sasl_waiting_on_sasl_mechanisms) \<Rightarrow> sasl_received_sasl_mechanisms_frame env c
     | (Frame_sasl_challenge, Sasl_waiting_on_sasl_challenge_or_outcome) \<Rightarrow> sasl_received_sasl_challenge_frame c
     | (Frame_sasl_outcome, Sasl_waiting_on_sasl_challenge_or_outcome) \<Rightarrow> sasl_received_sasl_outcome_frame env c
     | (Frame_sasl_init, Sasl_waiting_on_sasl_initial_response_frame) \<Rightarrow> sasl_received_sasl_initial_response_frame env c
     | (Frame_sasl_init, Sasl_waiting_on_sasl_challenge_response_frame) \<Rightarrow> sasl_received_sasl_challenge_response_frame c
     | _ \<Rightarrow> sasl_received_out_of_sequence_sasl_frame c)"

end
