(* ===== verification/Connection_Amqp.thy ===== *)
theory Connection_Amqp
  imports Connection
begin

text \<open>
  The AMQP protocol on an established tunnel (\<^verbatim>\<open>Transport/Connection/ConnectionAmqp.c\<close>): open, idle timeouts,
  close. The transitions to \<open>opened\<close>, \<open>close_sent\<close> and \<open>closed\<close> also replace the actions \<open>shutdown\<close> and
  \<open>timeout\<close> of the connection.
\<close>

section \<open>Transitions\<close>

definition amqp_transition_to_opened :: "amqp_connection_t \<Rightarrow> amqp_connection_t" where
  "amqp_transition_to_opened c =
     c\<lparr>amqp_name := Amqp_opened, shutdown_pointer := Application_close_while_opened,
       timeout_pointer := Timeout_expired_while_opened\<rparr>"

definition amqp_transition_to_close_sent :: "amqp_connection_t \<Rightarrow> amqp_connection_t" where
  "amqp_transition_to_close_sent c =
     c\<lparr>amqp_name := Amqp_close_sent, shutdown_pointer := Shutdown_while_in_progress,
       timeout_pointer := Timeout_expiry_while_close_sent\<rparr>"

definition amqp_transition_to_closed :: "amqp_connection_t \<Rightarrow> amqp_connection_t" where
  "amqp_transition_to_closed c =
     c\<lparr>amqp_name := Amqp_closed, timeout_pointer := Timeout_expiry_while_closed,
       shutdown_pointer := Shutdown_while_in_progress\<rparr>"

section \<open>Handlers\<close>

text \<open>
  The local timeout is the limit of the connection, the remote one half of the limit of the peer, and the
  timer runs with half of the smaller one. Times are in quarters of a millisecond.
\<close>

definition amqp_start_idle_timeouts :: "amqp_connection_t \<Rightarrow> amqp_connection_t" where
  "amqp_start_idle_timeouts c =
    (let local = 4 * uint (idle_time_out c);
         remote = 2 * uint (remote_idle_time_out c);
         delay = (if local < remote then local else remote) div 2
     in amqp_timer_start delay (c\<lparr>timeout_local := local, timeout_remote := remote\<rparr>))"

definition amqp_received_out_of_sequence_frame :: "amqp_connection_t \<Rightarrow> outcome" where
  "amqp_received_out_of_sequence_frame c =
     Ret (amqp_connection_failure_flag_set (AMQP_CONNECTION_AMQP_ERROR OR AMQP_CONNECTION_FRAME_SEQUENCE_ERROR) c,
          [Connection_shutdown])"

definition amqp_frame_available_callback :: "environment \<Rightarrow> (amqp_frame \<Rightarrow> call) \<Rightarrow> amqp_connection_t \<Rightarrow> outcome" where
  "amqp_frame_available_callback env dispatch c =
    (case amqp_frame_decoder env (buffer_read c) of
       Some frame \<Rightarrow> Ret (c, [dispatch frame])
     | None \<Rightarrow>
         Ret (amqp_connection_failure_flag_set (AMQP_CONNECTION_AMQP_ERROR OR AMQP_CONNECTION_AMQP_FRAME_DECODE_ERROR) c,
              [Connection_shutdown]))"

definition amqp_read_frame :: call where
  "amqp_read_frame = Frame_read Amqp_frame_available"

definition amqp_send_open_while_initialized :: "environment \<Rightarrow> amqp_connection_t \<Rightarrow> outcome" where
  "amqp_send_open_while_initialized env c = Ret (c, [Writer_write (encoded_open env), Amqp_open_frame_sent])"

definition amqp_open_frame_sent :: "amqp_connection_t \<Rightarrow> outcome" where
  "amqp_open_frame_sent c = Ret (c\<lparr>amqp_name := Amqp_open_sent\<rparr>, [Frame_enable, amqp_read_frame])"

definition amqp_wait_on_open_while_initialized :: "amqp_connection_t \<Rightarrow> outcome" where
  "amqp_wait_on_open_while_initialized c =
     Ret (c\<lparr>amqp_name := Amqp_waiting_for_open_frame\<rparr>, [Frame_enable, amqp_read_frame])"

definition amqp_connection_opened :: "amqp_connection_t \<Rightarrow> outcome" where
  "amqp_connection_opened c =
     Ret (amqp_start_idle_timeouts (amqp_transition_to_opened (amqp_connection_flag_set AMQP_CONNECTION_IS_OPEN c)),
          [amqp_read_frame])"

text \<open>\<open>amqp_process_open_frame_from_broker\<close> and \<open>amqp_process_open_frame_from_client\<close> keep the limits of the peer.\<close>

definition save_remote_limits :: "open_frame \<Rightarrow> amqp_connection_t \<Rightarrow> amqp_connection_t" where
  "save_remote_limits f c =
     c\<lparr>remote_max_frame_size := open_max_frame_size f, remote_channel_max := open_channel_max f,
       remote_idle_time_out := open_idle_time_out f\<rparr>"

definition amqp_process_open_frame_from_broker :: "open_frame \<Rightarrow> amqp_connection_t \<Rightarrow> amqp_connection_t run" where
  "amqp_process_open_frame_from_broker f c = run_assert (amqp_connection_is_client c) (Ret (save_remote_limits f c))"

definition amqp_process_open_frame_from_client :: "open_frame \<Rightarrow> amqp_connection_t \<Rightarrow> amqp_connection_t run" where
  "amqp_process_open_frame_from_client f c =
     run_assert (\<not> amqp_connection_is_client c)
       (if hostname_is_null f then Fault NotImplemented else Ret (save_remote_limits f c))"

definition amqp_open_received_after_open_sent :: "open_frame \<Rightarrow> amqp_connection_t \<Rightarrow> outcome" where
  "amqp_open_received_after_open_sent f c = run_bind (amqp_process_open_frame_from_broker f c) amqp_connection_opened"

definition amqp_keep_alive :: "amqp_connection_t \<Rightarrow> outcome" where
  "amqp_keep_alive c = Ret (c, [amqp_read_frame])"

text \<open>The test of the result of the send is followed by a stray semicolon: the connection counts as opened in any case.\<close>

definition amqp_open_received_while_waiting_for_open_frame :: "environment \<Rightarrow> open_frame \<Rightarrow> amqp_connection_t \<Rightarrow> outcome" where
  "amqp_open_received_while_waiting_for_open_frame env f c =
     run_bind (amqp_process_open_frame_from_client f c) (\<lambda>c. Ret (c, [Writer_write (encoded_open env), Amqp_server_open_sent]))"

definition amqp_begin_connection_close :: "environment \<Rightarrow> amqp_connection_t \<Rightarrow> outcome" where
  "amqp_begin_connection_close env c = Ret (c, [Writer_write (encoded_close env), Amqp_close_frame_sent])"

text \<open>The rest of \<open>begin_connection_close\<close>, after the write returned: three seconds for the answer.\<close>

definition amqp_close_frame_sent :: "amqp_connection_t \<Rightarrow> outcome" where
  "amqp_close_frame_sent c =
     Ret (amqp_connection_flag_set AMQP_CONNECTION_IS_CLOSING (amqp_transition_to_close_sent (amqp_timer_start 12000 c)),
          [amqp_read_frame])"

definition amqp_application_close_while_opened :: "environment \<Rightarrow> amqp_connection_t \<Rightarrow> outcome" where
  "amqp_application_close_while_opened env c = amqp_begin_connection_close env c"

definition amqp_timeout_expired_while_opened :: "environment \<Rightarrow> amqp_connection_t \<Rightarrow> outcome" where
  "amqp_timeout_expired_while_opened env c =
    (if last_read_time c - now c + timeout_local c < 0 then amqp_begin_connection_close env c
     else if last_write_time c - now c + timeout_remote c < 0 then Ret (c, [Writer_write (encoded_empty env)])
     else Ret (c, []))"

definition flag_amqp_connection_closed :: "amqp_connection_t \<Rightarrow> amqp_connection_t" where
  "flag_amqp_connection_closed c = amqp_connection_flag_clear (AMQP_CONNECTION_IS_OPEN OR AMQP_CONNECTION_IS_CLOSING) c"

text \<open>A close frame that carries an error is not implemented in the source.\<close>

definition amqp_process_close_frame :: "bool \<Rightarrow> amqp_connection_t run \<Rightarrow> amqp_connection_t run" where
  "amqp_process_close_frame error_is_defined r = (if error_is_defined then Fault NotImplemented else r)"

definition amqp_received_close_while_opened :: "environment \<Rightarrow> bool \<Rightarrow> amqp_connection_t \<Rightarrow> outcome" where
  "amqp_received_close_while_opened env error_is_defined c =
     run_bind (amqp_process_close_frame error_is_defined
                (Ret (amqp_transition_to_closed (flag_amqp_connection_closed (amqp_timer_start 12000 c))))) (\<lambda>c.
     Ret (c, [Frame_read Discard_frame_after_close_received, Writer_write (encoded_close env), Connection_drain]))"

definition amqp_received_close_after_close_sent :: "bool \<Rightarrow> amqp_connection_t \<Rightarrow> outcome" where
  "amqp_received_close_after_close_sent error_is_defined c =
     run_bind (amqp_process_close_frame error_is_defined (Ret c)) (\<lambda>c.
     Ret (amqp_transition_to_closed (flag_amqp_connection_closed c), [Connection_drain]))"

definition amqp_timeout_expiry_while_close_sent :: "amqp_connection_t \<Rightarrow> outcome" where
  "amqp_timeout_expiry_while_close_sent c =
     Ret (amqp_transition_to_closed (flag_amqp_connection_closed c), [Connection_drain])"

definition amqp_timeout_expiry_while_closed :: "amqp_connection_t \<Rightarrow> outcome" where
  "amqp_timeout_expiry_while_closed c = Ret (c, [Connection_close])"

section \<open>The actions\<close>

definition amqp_send_open :: "environment \<Rightarrow> amqp_connection_t \<Rightarrow> outcome" where
  "amqp_send_open env c =
    (case amqp_name c of Amqp_initialized \<Rightarrow> amqp_send_open_while_initialized env c | _ \<Rightarrow> illegal_state)"

definition amqp_wait_on_open :: "amqp_connection_t \<Rightarrow> outcome" where
  "amqp_wait_on_open c =
    (case amqp_name c of Amqp_initialized \<Rightarrow> amqp_wait_on_open_while_initialized c | _ \<Rightarrow> illegal_state)"

definition amqp_frame_received :: "environment \<Rightarrow> amqp_frame \<Rightarrow> amqp_connection_t \<Rightarrow> outcome" where
  "amqp_frame_received env frame c =
    (case (frame, amqp_name c) of
       (Frame_open f, Amqp_open_sent) \<Rightarrow> amqp_open_received_after_open_sent f c
     | (Frame_open f, Amqp_waiting_for_open_frame) \<Rightarrow> amqp_open_received_while_waiting_for_open_frame env f c
     | (Frame_close e, Amqp_opened) \<Rightarrow> amqp_received_close_while_opened env e c
     | (Frame_close e, Amqp_close_sent) \<Rightarrow> amqp_received_close_after_close_sent e c
     | (Frame_empty, Amqp_open_sent) \<Rightarrow> amqp_keep_alive c
     | (Frame_empty, Amqp_opened) \<Rightarrow> amqp_keep_alive c
     | _ \<Rightarrow> amqp_received_out_of_sequence_frame c)"

end
