(* ===== verification/Connection_Socket.thy ===== *)
theory Connection_Socket
  imports Connection
begin

text \<open>
  The socket of \<^verbatim>\<open>Transport/Connection/IO/ConnectionSocket.c\<close>: host lookup, one attempt per address until one
  succeeds, and shutdown.
\<close>

definition socket_duplicate_and_clip :: "string \<Rightarrow> string" where
  "socket_duplicate_and_clip hostname =
    (let room = 48 - 1; clipped = room - 3
     in if room < length hostname then take clipped hostname @ ''...'' else hostname)"

definition socket_save_peer_address :: "string \<Rightarrow> amqp_connection_t \<Rightarrow> amqp_connection_t" where
  "socket_save_peer_address hostname c = c\<lparr>socket_hostname := Some (socket_duplicate_and_clip hostname)\<rparr>"

definition amqp_connection_accepted_socket_initialize :: "int \<Rightarrow> string \<Rightarrow> amqp_connection_t \<Rightarrow> amqp_connection_t" where
  "amqp_connection_accepted_socket_initialize fd' hostname c =
     (socket_save_peer_address hostname (c\<lparr>socket_name := Socket_accepted\<rparr>))\<lparr>fd := fd'\<rparr>"

definition amqp_connection_socket_initialize :: "amqp_connection_t \<Rightarrow> amqp_connection_t" where
  "amqp_connection_socket_initialize c = c\<lparr>fd := - 1, socket_name := Socket_initialized\<rparr>"

definition socket_cleanup_connect_watcher :: "amqp_connection_t \<Rightarrow> amqp_connection_t" where
  "socket_cleanup_connect_watcher c = c\<lparr>connect_watcher := None\<rparr>"

definition socket_close_connection_socket :: "amqp_connection_t \<Rightarrow> amqp_connection_t" where
  "socket_close_connection_socket c = (if fd c \<noteq> - 1 then c\<lparr>fd := - 1\<rparr> else c)"

definition amqp_connection_socket_cleanup :: "amqp_connection_t \<Rightarrow> amqp_connection_t" where
  "amqp_connection_socket_cleanup c = (socket_close_connection_socket c)\<lparr>socket_hostname := None\<rparr>"

definition socket_free_address_info :: "amqp_connection_t \<Rightarrow> amqp_connection_t" where
  "socket_free_address_info c = (if addrinfo c then c\<lparr>addrinfo := False, lookup_iterator := []\<rparr> else c)"

definition socket_cleanup_everything :: "amqp_connection_t \<Rightarrow> amqp_connection_t" where
  "socket_cleanup_everything c = socket_free_address_info (socket_close_connection_socket (socket_cleanup_connect_watcher c))"

definition socket_stop_and_notify_connection_shutdown :: "amqp_connection_t \<Rightarrow> outcome" where
  "socket_stop_and_notify_connection_shutdown c =
     Ret (socket_cleanup_everything (c\<lparr>socket_name := Socket_stopped\<rparr>), [Connection_done])"

definition socket_stop_and_notify_connection_failed :: "amqp_connection_t \<Rightarrow> outcome" where
  "socket_stop_and_notify_connection_failed c =
     Ret (socket_cleanup_everything (c\<lparr>socket_name := Socket_failed\<rparr>), [Connection_fail])"

definition socket_connection_attempt_failed :: "int \<Rightarrow> amqp_connection_t \<Rightarrow> outcome" where
  "socket_connection_attempt_failed error_code c =
    (let c = socket_close_connection_socket c
     in if lookup_iterator c \<noteq> [] then Ret (c, [Socket_try_connect])
        else Ret (socket_free_address_info c, [Socket_fail error_code]))"

text \<open>The event of the connect watcher, with the error the socket reports.\<close>

definition socket_connect_event_handler :: "int \<Rightarrow> amqp_connection_t \<Rightarrow> outcome" where
  "socket_connect_event_handler error c =
    (let c = socket_cleanup_connect_watcher c
     in if error \<noteq> 0 then socket_connection_attempt_failed error c else Ret (c, [Socket_done]))"

definition socket_start_connect_event_watcher :: "amqp_connection_t \<Rightarrow> amqp_connection_t" where
  "socket_start_connect_event_watcher c = c\<lparr>connect_watcher := Some True\<rparr>"

text \<open>A new socket has some descriptor that is not -1.\<close>

definition socket_attempt_connection_to_next_address :: "amqp_connection_t \<Rightarrow> outcome" where
  "socket_attempt_connection_to_next_address c =
    (case lookup_iterator c of
       [] \<Rightarrow> Fault AssertFailed
     | address # rest \<Rightarrow>
         let c = c\<lparr>lookup_iterator := rest\<rparr>
         in (case address of
               Socket_error e \<Rightarrow> socket_connection_attempt_failed e (c\<lparr>fd := - 1\<rparr>)
             | Connect_succeeds \<Rightarrow> Ret (c\<lparr>fd := 3\<rparr>, [Socket_done])
             | Connect_in_progress \<Rightarrow> Ret (socket_start_connect_event_watcher (c\<lparr>fd := 3\<rparr>), [])
             | Connect_error e \<Rightarrow> socket_connection_attempt_failed e (c\<lparr>fd := 3\<rparr>)))"

definition socket_address_resolution_complete :: "attempt list \<Rightarrow> amqp_connection_t \<Rightarrow> outcome" where
  "socket_address_resolution_complete addresses c =
     Ret (c\<lparr>socket_name := Socket_connecting, addrinfo := True, lookup_iterator := addresses\<rparr>, [Socket_try_connect])"

definition socket_address_resolution_failed :: "int \<Rightarrow> amqp_connection_t \<Rightarrow> outcome" where
  "socket_address_resolution_failed eai_error c = Ret (c, [Socket_fail eai_error])"

definition socket_connect_while_initialized :: "environment \<Rightarrow> string \<Rightarrow> amqp_connection_t \<Rightarrow> outcome" where
  "socket_connect_while_initialized env hostname c =
    (let c = socket_save_peer_address hostname (c\<lparr>socket_name := Socket_resolving\<rparr>)
     in case amqp_lookup_host_address env of
          Inl e \<Rightarrow> socket_address_resolution_failed e c
        | Inr addresses \<Rightarrow> socket_address_resolution_complete addresses c)"

definition socket_shutdown_while_resolving :: "amqp_connection_t \<Rightarrow> outcome" where
  "socket_shutdown_while_resolving c = Ret (c\<lparr>socket_name := Socket_aborting_lookup\<rparr>, [])"

definition socket_fail_while_resolving :: "int \<Rightarrow> amqp_connection_t \<Rightarrow> outcome" where
  "socket_fail_while_resolving error_code c = socket_stop_and_notify_connection_failed c"

definition socket_done_while_resolving :: "amqp_connection_t \<Rightarrow> outcome" where
  "socket_done_while_resolving c = Fault NotImplemented"

definition socket_try_connect_while_connecting :: "amqp_connection_t \<Rightarrow> outcome" where
  "socket_try_connect_while_connecting c = socket_attempt_connection_to_next_address c"

definition socket_fail_while_connecting :: "int \<Rightarrow> amqp_connection_t \<Rightarrow> outcome" where
  "socket_fail_while_connecting error_code c = socket_stop_and_notify_connection_failed c"

definition socket_done_while_connecting :: "amqp_connection_t \<Rightarrow> outcome" where
  "socket_done_while_connecting c =
     Ret ((socket_free_address_info c)\<lparr>socket_name := Socket_connected\<rparr>, [Connection_done])"

section \<open>The actions\<close>

definition socket_connect :: "environment \<Rightarrow> string \<Rightarrow> amqp_connection_t \<Rightarrow> outcome" where
  "socket_connect env hostname c =
    (case socket_name c of Socket_initialized \<Rightarrow> socket_connect_while_initialized env hostname c | _ \<Rightarrow> illegal_state)"

definition socket_shutdown :: "amqp_connection_t \<Rightarrow> outcome" where
  "socket_shutdown c =
    (case socket_name c of
       Socket_resolving \<Rightarrow> socket_shutdown_while_resolving c
     | _ \<Rightarrow> socket_stop_and_notify_connection_shutdown c)"

definition socket_fail :: "int \<Rightarrow> amqp_connection_t \<Rightarrow> outcome" where
  "socket_fail error_code c =
    (case socket_name c of
       Socket_resolving \<Rightarrow> socket_fail_while_resolving error_code c
     | Socket_connecting \<Rightarrow> socket_fail_while_connecting error_code c
     | _ \<Rightarrow> illegal_state)"

definition socket_done :: "amqp_connection_t \<Rightarrow> outcome" where
  "socket_done c =
    (case socket_name c of
       Socket_resolving \<Rightarrow> socket_done_while_resolving c
     | Socket_connecting \<Rightarrow> socket_done_while_connecting c
     | _ \<Rightarrow> illegal_state)"

definition socket_try_connect :: "amqp_connection_t \<Rightarrow> outcome" where
  "socket_try_connect c =
    (case socket_name c of Socket_connecting \<Rightarrow> socket_try_connect_while_connecting c | _ \<Rightarrow> illegal_state)"

end
