(* ===== verification/Connection_State.thy ===== *)
theory Connection_State
  imports Connection_Socket
begin

text \<open>
  The connection itself: shutdown (\<^verbatim>\<open>Transport/Connection/ConnectionState.c\<close>), the client
  (\<^verbatim>\<open>ConnectionStateClient.c\<close>), the server (\<^verbatim>\<open>ConnectionStateServer.c\<close>), and creation and destruction
  (\<^verbatim>\<open>Connection.c\<close>).
\<close>

section \<open>Transitions\<close>

abbreviation amqp_cs_complete_write_drain_input_and_close_socket :: uint32 where
  "amqp_cs_complete_write_drain_input_and_close_socket \<equiv> 2"
abbreviation amqp_cs_complete_write_and_close_socket :: uint32 where "amqp_cs_complete_write_and_close_socket \<equiv> 3"
abbreviation amqp_cs_close_socket :: uint32 where "amqp_cs_close_socket \<equiv> 4"
abbreviation amqp_cs_abort_socket :: uint32 where "amqp_cs_abort_socket \<equiv> 5"

text \<open>
  \<open>begin\<close> and \<open>connect\<close> are one word of a union and follow from the name; \<open>reject\<close> is reset only when the flag
  says that the socket was accepted, and \<open>read_done\<close> never.
\<close>

definition amqp__connection_default_state_initialization :: "connection_state \<Rightarrow> amqp_connection_t \<Rightarrow> amqp_connection_t" where
  "amqp__connection_default_state_initialization new_state_name c =
    (let c = c\<lparr>shutdown_pointer := Default_shutdown, timeout_pointer := Default_timeout, connection_name := new_state_name\<rparr>
     in if amqp_connection_is c AMQP_CONNECTION_SOCKET_ACCEPTED then c\<lparr>reject_pointer := Some Default_reject\<rparr> else c)"

definition connection_action_initializer :: "connection_state \<Rightarrow> amqp_connection_t \<Rightarrow> amqp_connection_t" where
  "connection_action_initializer name c =
    (case name of
       Stopping_output \<Rightarrow> c\<lparr>timeout_pointer := Timeout_while_stopping_output\<rparr>
     | Draining_input \<Rightarrow> c\<lparr>timeout_pointer := Timeout_while_draining_input, read_done_pointer := True\<rparr>
     | Timeout_stopping_output \<Rightarrow> c\<lparr>shutdown_pointer := Do_nothing\<rparr>
     | Timeout_draining_input \<Rightarrow> c\<lparr>shutdown_pointer := Do_nothing\<rparr>
     | Stopped \<Rightarrow> c\<lparr>shutdown_pointer := Do_nothing\<rparr>
     | Failed \<Rightarrow> c\<lparr>shutdown_pointer := Do_nothing\<rparr>
     | Accepting_tls \<Rightarrow> c\<lparr>reject_pointer := Some Reject_while_accepting_tls\<rparr>
     | Accepting_sasl \<Rightarrow> c\<lparr>reject_pointer := Some Reject_while_accepting_sasl\<rparr>
     | Accepting_amqp \<Rightarrow> c\<lparr>reject_pointer := Some Reject_while_accepting_amqp\<rparr>
     | _ \<Rightarrow> c)"

definition transition_to_state :: "connection_state \<Rightarrow> amqp_connection_t \<Rightarrow> amqp_connection_t" where
  "transition_to_state name c = connection_action_initializer name (amqp__connection_default_state_initialization name c)"

text \<open>A transition changes the name and the stored actions of the connection, nothing else.\<close>

lemma transition_to_state_name [simp]: "connection_name (transition_to_state name c) = name"
  by (simp add: transition_to_state_def connection_action_initializer_def amqp__connection_default_state_initialization_def Let_def
      split: connection_state.split)

lemma transition_to_state_fields [simp]:
  "flags (transition_to_state name c) = flags c"
  "failure_flags (transition_to_state name c) = failure_flags c"
  "protocols (transition_to_state name c) = protocols c"
  "required_tls (transition_to_state name c) = required_tls c"
  "required_sasl (transition_to_state name c) = required_sasl c"
  "required_amqp (transition_to_state name c) = required_amqp c"
  "supported_sasl (transition_to_state name c) = supported_sasl c"
  "supported_amqp (transition_to_state name c) = supported_amqp c"
  "socket_name (transition_to_state name c) = socket_name c"
  "reader_name (transition_to_state name c) = reader_name c"
  "writer_name (transition_to_state name c) = writer_name c"
  "negotiator_name (transition_to_state name c) = negotiator_name c"
  "sasl_name (transition_to_state name c) = sasl_name c"
  "amqp_tunnel_name (transition_to_state name c) = amqp_tunnel_name c"
  "amqp_name (transition_to_state name c) = amqp_name c"
  "frame_name (transition_to_state name c) = frame_name c"
  "data_word (transition_to_state name c) = data_word c"
  "preferred_version (transition_to_state name c) = preferred_version c"
  "confirm_pointer (transition_to_state name c) = confirm_pointer c"
  "handshake_reject_pointer (transition_to_state name c) = handshake_reject_pointer c"
  "request_pointer (transition_to_state name c) = request_pointer c"
  "buffer_read (transition_to_state name c) = buffer_read c"
  "write_watcher (transition_to_state name c) = write_watcher c"
  "buffer_queue (transition_to_state name c) = buffer_queue c"
  "queue_start (transition_to_state name c) = queue_start c"
  "queue_end (transition_to_state name c) = queue_end c"
  "stopped_callback (transition_to_state name c) = stopped_callback c"
  "last_write_time (transition_to_state name c) = last_write_time c"
  "read_callback_pointer (transition_to_state name c) = read_callback_pointer c"
  "read_is_queued (transition_to_state name c) = read_is_queued c"
  "n_required (transition_to_state name c) = n_required c"
  "satisfied (transition_to_state name c) = satisfied c"
  "read_watcher (transition_to_state name c) = read_watcher c"
  "last_read_time (transition_to_state name c) = last_read_time c"
  "frame_available_pointer (transition_to_state name c) = frame_available_pointer c"
  "io_frame_size (transition_to_state name c) = io_frame_size c"
  "fd (transition_to_state name c) = fd c"
  "socket_hostname (transition_to_state name c) = socket_hostname c"
  "errno_error_code (transition_to_state name c) = errno_error_code c"
  "lookup_iterator (transition_to_state name c) = lookup_iterator c"
  "addrinfo (transition_to_state name c) = addrinfo c"
  "connect_watcher (transition_to_state name c) = connect_watcher c"
  "timer (transition_to_state name c) = timer c"
  "sasl_plugin (transition_to_state name c) = sasl_plugin c"
  "max_frame_size (transition_to_state name c) = max_frame_size c"
  "channel_max (transition_to_state name c) = channel_max c"
  "idle_time_out (transition_to_state name c) = idle_time_out c"
  "remote_max_frame_size (transition_to_state name c) = remote_max_frame_size c"
  "remote_channel_max (transition_to_state name c) = remote_channel_max c"
  "remote_idle_time_out (transition_to_state name c) = remote_idle_time_out c"
  "timeout_local (transition_to_state name c) = timeout_local c"
  "timeout_remote (transition_to_state name c) = timeout_remote c"
  "accept_handler_arguments (transition_to_state name c) = accept_handler_arguments c"
  "halts (transition_to_state name c) = halts c"
  "destroyed (transition_to_state name c) = destroyed c"
  "now (transition_to_state name c) = now c"
  "incoming (transition_to_state name c) = incoming c"
  "write_results (transition_to_state name c) = write_results c"
  "outgoing (transition_to_state name c) = outgoing c"
  by (simp_all add: transition_to_state_def connection_action_initializer_def amqp__connection_default_state_initialization_def Let_def
      split: connection_state.split)

lemma transition_to_state_reject [simp]:
  "reject_pointer (transition_to_state Accepting_sasl c) = Some Reject_while_accepting_sasl"
  "reject_pointer (transition_to_state Accepting_amqp c) = Some Reject_while_accepting_amqp"
  by (simp_all add: transition_to_state_def connection_action_initializer_def)

lemma transition_to_state_actions [simp]:
  "timeout_pointer (transition_to_state Stopping_output c) = Timeout_while_stopping_output"
  "timeout_pointer (transition_to_state Draining_input c) = Timeout_while_draining_input"
  "read_done_pointer (transition_to_state Draining_input c)"
  "shutdown_pointer (transition_to_state Stopped c) = Do_nothing"
  "shutdown_pointer (transition_to_state Failed c) = Do_nothing"
  by (simp_all add: transition_to_state_def connection_action_initializer_def)

section \<open>Shutdown\<close>

definition write_complete_time :: int where "write_complete_time = 2000"
definition input_drain_time :: int where "input_drain_time = 4000"

definition amqp_connection_enable_io :: "call list" where
  "amqp_connection_enable_io = [Reader_enable, Writer_enable]"

definition connection_stop_activity :: "call list" where
  "connection_stop_activity = [Writer_abort, Reader_stop, Socket_shutdown]"

text \<open>
  \<open>connection_halt\<close>: an accepted connection is destroyed by the confirmation, and the hook of the tests is looked
  up in the connection afterwards.
\<close>

definition connection_connection_halt :: "amqp_connection_t \<Rightarrow> outcome" where
  "connection_connection_halt c =
    (let c = amqp_connection_flag_clear
               (AMQP_CONNECTION_RUNNING OR AMQP_CONNECTION_SOCKET_CONNECTED OR AMQP_CONNECTION_SOCKET_ACCEPTED) (amqp_timer_stop c)
     in Ret (c\<lparr>halts := halts c + 1\<rparr>,
             (if accept_handler_arguments c then [Connection_shutdown, State_cleanup] else []) @ [Call_stopped_hook]))"

text \<open>\<open>amqp_connection_state_cleanup\<close> and the release of the connection.\<close>

definition amqp_connection_state_cleanup :: "amqp_connection_t \<Rightarrow> outcome" where
  "amqp_connection_state_cleanup c =
     Ret ((amqp_connection_socket_cleanup (c\<lparr>timer := None, sasl_plugin := False, read_watcher := None, write_watcher := None\<rparr>))
            \<lparr>destroyed := True\<rparr>, [])"

definition connection_done_or_fail_while_timeout :: "amqp_connection_t \<Rightarrow> outcome" where
  "connection_done_or_fail_while_timeout c = Ret (transition_to_state Failed c, [Connection_halt])"

definition connection_shutdown_connection :: "uint32 \<Rightarrow> amqp_connection_t \<Rightarrow> outcome" where
  "connection_shutdown_connection mode c =
    (let c = c\<lparr>data_word := mode\<rparr>
     in if mode = amqp_cs_complete_write_drain_input_and_close_socket \<or> mode = amqp_cs_complete_write_and_close_socket
        then Ret (transition_to_state Stopping_output (amqp_timer_start write_complete_time c), [Writer_stop])
        else if mode = amqp_cs_close_socket \<or> mode = amqp_cs_abort_socket
        then Ret (transition_to_state Stopping c, [Writer_abort, Reader_stop, Socket_shutdown])
        else Fault NotImplemented)"

definition connection_done_while_stopping_output :: "amqp_connection_t \<Rightarrow> outcome" where
  "connection_done_while_stopping_output c =
    (if data_word c = amqp_cs_complete_write_drain_input_and_close_socket then
       let c = transition_to_state Draining_input (amqp_timer_start input_drain_time c);
           c = c\<lparr>buffer_read := amqp_buffer_reset (buffer_read c)\<rparr>
       in Ret (c, [Reader_reset, Reader_commence_read (amqp_buffer_capacity (buffer_read c)) Connection_read_complete])
     else if data_word c = amqp_cs_complete_write_and_close_socket then
       Ret (transition_to_state Stopping c, [Reader_stop, Socket_shutdown])
     else Fault NotImplemented)"

definition connection_timeout_while_stopping_output :: "amqp_connection_t \<Rightarrow> outcome" where
  "connection_timeout_while_stopping_output c = Ret (transition_to_state Timeout_stopping_output c, connection_stop_activity)"

definition connection_read_done_while_draining_input :: "nat \<Rightarrow> amqp_connection_t \<Rightarrow> outcome" where
  "connection_read_done_while_draining_input amount c =
    (if 0 < amount then
       let c = transition_to_state Draining_input c;
           c = c\<lparr>buffer_read := amqp_buffer_reset (buffer_read c)\<rparr>
       in Ret (c, [Reader_commence_read (amqp_buffer_capacity (buffer_read c)) Connection_read_complete])
     else Ret (transition_to_state Stopping c, [Reader_stop, Socket_shutdown]))"

definition connection_timeout_while_draining_input :: "amqp_connection_t \<Rightarrow> outcome" where
  "connection_timeout_while_draining_input c = Ret (transition_to_state Timeout_draining_input c, connection_stop_activity)"

definition connection_done_while_stopping :: "amqp_connection_t \<Rightarrow> outcome" where
  "connection_done_while_stopping c =
    (if data_word c \<in> {amqp_cs_complete_write_drain_input_and_close_socket, amqp_cs_complete_write_and_close_socket, amqp_cs_close_socket}
     then Ret (transition_to_state Stopped c, [Connection_halt])
     else if data_word c = amqp_cs_abort_socket then Ret (transition_to_state Failed c, [Connection_halt])
     else Fault NotImplemented)"

definition connection_fail_while_stopping :: "amqp_connection_t \<Rightarrow> outcome" where
  "connection_fail_while_stopping c = Ret (transition_to_state Failed c, [Connection_halt])"

section \<open>Client\<close>

definition client_connect_while_initialized :: "string \<Rightarrow> amqp_connection_t \<Rightarrow> outcome" where
  "client_connect_while_initialized hostname c =
     Ret (amqp_connection_flag_set AMQP_CONNECTION_RUNNING (transition_to_state Connecting_socket c), [Socket_connect hostname])"

definition client_clear_protocol_flag :: "uint32 \<Rightarrow> amqp_connection_t \<Rightarrow> amqp_connection_t" where
  "client_clear_protocol_flag flag c = c\<lparr>data_word := data_word c AND NOT flag\<rparr>"

definition client_start_next_protocol_on_connection :: "amqp_connection_t \<Rightarrow> outcome" where
  "client_start_next_protocol_on_connection c =
    (if data_word c AND AMQP_PROTOCOL_TLS \<noteq> 0 then
       Ret (client_clear_protocol_flag AMQP_PROTOCOL_TLS (transition_to_state Connecting_tls c), [Tls_connect])
     else if data_word c AND AMQP_PROTOCOL_SASL \<noteq> 0 then
       Ret (client_clear_protocol_flag AMQP_PROTOCOL_SASL (transition_to_state Connecting_sasl c), [Sasl_connect])
     else if data_word c AND AMQP_PROTOCOL_AMQP \<noteq> 0 then
       Ret (client_clear_protocol_flag AMQP_PROTOCOL_AMQP (transition_to_state Connecting_amqp c), [Amqp_tunnel_connect])
     else Ret (c, [Connection_fail]))"

definition client_done_while_connecting_socket :: "amqp_connection_t \<Rightarrow> outcome" where
  "client_done_while_connecting_socket c =
     Ret (amqp_connection_flag_set AMQP_CONNECTION_SOCKET_CONNECTED c, amqp_connection_enable_io @ [Client_io_enabled])"

text \<open>The rest of it, with the reader and the writer enabled.\<close>

definition client_io_enabled :: "amqp_connection_t \<Rightarrow> outcome" where
  "client_io_enabled c = client_start_next_protocol_on_connection (c\<lparr>data_word := protocols c\<rparr>)"

definition client_fail_while_connecting_socket :: "amqp_connection_t \<Rightarrow> outcome" where
  "client_fail_while_connecting_socket c = Fault NotImplemented"

definition client_done_while_connecting_tls :: "amqp_connection_t \<Rightarrow> outcome" where
  "client_done_while_connecting_tls c =
     client_start_next_protocol_on_connection (amqp_connection_flag_set AMQP_CONNECTION_TLS_CONNECTED c)"

definition client_fail_while_connecting_tls :: "amqp_connection_t \<Rightarrow> outcome" where
  "client_fail_while_connecting_tls c = Fault NotImplemented"

definition client_done_while_connecting_sasl :: "amqp_connection_t \<Rightarrow> outcome" where
  "client_done_while_connecting_sasl c =
     client_start_next_protocol_on_connection (amqp_connection_flag_set AMQP_CONNECTION_SASL_CONNECTED c)"

definition client_fail_while_connecting_sasl :: "amqp_connection_t \<Rightarrow> outcome" where
  "client_fail_while_connecting_sasl c =
     Ret (amqp_connection_failure_flag_set AMQP_CONNECTION_SASL_NEGOTIATION_REJECTED c, [Connection_drain])"

definition client_done_while_connecting_amqp :: "amqp_connection_t \<Rightarrow> outcome" where
  "client_done_while_connecting_amqp c =
     Ret (transition_to_state Amqp_tunnel_established
            (amqp_connection_flag_set (AMQP_CONNECTION_AMQP_CONNECTED OR AMQP_CONNECTION_IS_CLIENT) c), [Amqp_send_open])"

definition client_fail_while_connecting_amqp :: "amqp_connection_t \<Rightarrow> outcome" where
  "client_fail_while_connecting_amqp c =
     Ret (amqp_connection_failure_flag_set AMQP_CONNECTION_AMQP_NEGOTIATION_REJECTED c, [Connection_drain])"

section \<open>Server\<close>

definition server_reject_protocol_version :: "uint32 \<Rightarrow> amqp_connection_t \<Rightarrow> outcome" where
  "server_reject_protocol_version version c =
     Ret (transition_to_state Sending_error_message c, [Negotiator_send version Connection_done_callback])"

definition server_could_not_parse_header :: "amqp_connection_t \<Rightarrow> outcome" where
  "server_could_not_parse_header c = server_reject_protocol_version AMQP_PREFERRED_VERSION c"

definition server_unsupported_protocol :: "amqp_connection_t \<Rightarrow> outcome" where
  "server_unsupported_protocol c = server_reject_protocol_version AMQP_PREFERRED_VERSION c"

definition server_is_protocol_valid_now :: "uint32 \<Rightarrow> uint32 \<Rightarrow> bool" where
  "server_is_protocol_valid_now protocol_id accepted_protocols \<longleftrightarrow>
     accepted_protocols AND AMQP_PROTOCOL_SASL \<noteq> 0 \<and> protocol_id = AMQP_SASL_PROTOCOL_ID
     \<or> accepted_protocols AND AMQP_PROTOCOL_AMQP \<noteq> 0 \<and> protocol_id = AMQP_PROTOCOL_ID
     \<or> accepted_protocols AND AMQP_PROTOCOL_TLS \<noteq> 0 \<and> protocol_id = AMQP_TLS_PROTOCOL_ID"

definition server_establish_tunnel_after_client_request :: "uint32 \<Rightarrow> uint32 \<Rightarrow> amqp_connection_t \<Rightarrow> outcome" where
  "server_establish_tunnel_after_client_request requested_protocol_version accepted_protocols c =
    (if requested_protocol_version = 0 then server_could_not_parse_header c
     else
       let protocol_id = amqp_version_protocol_id requested_protocol_version
       in if \<not> server_is_protocol_valid_now protocol_id accepted_protocols then server_unsupported_protocol c
          else if protocol_id = AMQP_TLS_PROTOCOL_ID then
            Ret (transition_to_state Accepting_tls c, [Tls_accept requested_protocol_version])
          else if protocol_id = AMQP_SASL_PROTOCOL_ID then
            Ret (transition_to_state Accepting_sasl c, [Sasl_accept requested_protocol_version])
          else if protocol_id = AMQP_PROTOCOL_ID then
            Ret (transition_to_state Accepting_amqp c, [Amqp_tunnel_accept requested_protocol_version])
          else Fault NotImplemented)"

definition server_begin_while_waiting_on_client_negotiation_request :: "uint32 \<Rightarrow> amqp_connection_t \<Rightarrow> outcome" where
  "server_begin_while_waiting_on_client_negotiation_request version c =
     server_establish_tunnel_after_client_request version (AMQP_PROTOCOL_AMQP OR AMQP_PROTOCOL_SASL OR AMQP_PROTOCOL_TLS) c"

definition server_done_while_sending_error_message :: "amqp_connection_t \<Rightarrow> outcome" where
  "server_done_while_sending_error_message c = Ret (c, [Connection_drain])"

definition server_done_while_accepting_tls :: "amqp_connection_t \<Rightarrow> outcome" where
  "server_done_while_accepting_tls c =
     Ret (amqp_connection_flag_set AMQP_CONNECTION_TLS_CONNECTED (transition_to_state Waiting_on_tls_tunnelled_request c),
          [Negotiator_reset, Negotiator_wait, Not_implemented])"

definition server_fail_while_accepting_tls :: "amqp_connection_t \<Rightarrow> outcome" where
  "server_fail_while_accepting_tls c = Fault NotImplemented"

definition server_reject_while_accepting_tls :: "uint32 \<Rightarrow> amqp_connection_t \<Rightarrow> outcome" where
  "server_reject_while_accepting_tls version c =
     server_reject_protocol_version version (amqp_connection_failure_flag_set AMQP_CONNECTION_TLS_NEGOTIATION_REJECTED c)"

definition server_begin_while_waiting_on_tls_tunnelled_request :: "uint32 \<Rightarrow> amqp_connection_t \<Rightarrow> outcome" where
  "server_begin_while_waiting_on_tls_tunnelled_request version c =
     server_establish_tunnel_after_client_request version (AMQP_PROTOCOL_AMQP OR AMQP_PROTOCOL_SASL) c"

definition server_done_while_accepting_sasl :: "amqp_connection_t \<Rightarrow> outcome" where
  "server_done_while_accepting_sasl c =
     Ret (amqp_connection_flag_set AMQP_CONNECTION_SASL_CONNECTED (transition_to_state Waiting_on_amqp_negotiation_request c),
          [Negotiator_reset, Negotiator_wait])"

definition server_fail_while_accepting_sasl :: "amqp_connection_t \<Rightarrow> outcome" where
  "server_fail_while_accepting_sasl c =
     Ret (amqp_connection_failure_flag_set AMQP_CONNECTION_SASL_NEGOTIATION_REJECTED c, [Connection_drain])"

definition server_reject_while_accepting_sasl :: "uint32 \<Rightarrow> amqp_connection_t \<Rightarrow> outcome" where
  "server_reject_while_accepting_sasl version c =
     server_reject_protocol_version version (amqp_connection_failure_flag_set AMQP_CONNECTION_SASL_NEGOTIATION_REJECTED c)"

definition server_begin_while_waiting_on_amqp_negotiation_request :: "uint32 \<Rightarrow> amqp_connection_t \<Rightarrow> outcome" where
  "server_begin_while_waiting_on_amqp_negotiation_request version c =
     server_establish_tunnel_after_client_request version AMQP_PROTOCOL_AMQP c"

definition server_done_while_accepting_amqp :: "amqp_connection_t \<Rightarrow> outcome" where
  "server_done_while_accepting_amqp c =
     Ret (transition_to_state Tunnel_accepted (amqp_connection_flag_set AMQP_CONNECTION_AMQP_CONNECTED c), [Amqp_wait_on_open])"

definition server_fail_while_accepting_amqp :: "amqp_connection_t \<Rightarrow> outcome" where
  "server_fail_while_accepting_amqp c = Fault NotImplemented"

definition server_reject_while_accepting_amqp :: "uint32 \<Rightarrow> amqp_connection_t \<Rightarrow> outcome" where
  "server_reject_while_accepting_amqp version c =
     server_reject_protocol_version version (amqp_connection_failure_flag_set AMQP_CONNECTION_AMQP_NEGOTIATION_REJECTED c)"

section \<open>The actions\<close>

definition connection_done :: "amqp_connection_t \<Rightarrow> outcome" where
  "connection_done c =
    (case connection_name c of
       Connecting_socket \<Rightarrow> client_done_while_connecting_socket c
     | Connecting_tls \<Rightarrow> client_done_while_connecting_tls c
     | Connecting_sasl \<Rightarrow> client_done_while_connecting_sasl c
     | Connecting_amqp \<Rightarrow> client_done_while_connecting_amqp c
     | Sending_error_message \<Rightarrow> server_done_while_sending_error_message c
     | Accepting_tls \<Rightarrow> server_done_while_accepting_tls c
     | Accepting_sasl \<Rightarrow> server_done_while_accepting_sasl c
     | Accepting_amqp \<Rightarrow> server_done_while_accepting_amqp c
     | Stopping_output \<Rightarrow> connection_done_while_stopping_output c
     | Stopping \<Rightarrow> connection_done_while_stopping c
     | Timeout_stopping_output \<Rightarrow> connection_done_or_fail_while_timeout c
     | Timeout_draining_input \<Rightarrow> connection_done_or_fail_while_timeout c
     | _ \<Rightarrow> illegal_state)"

definition connection_fail :: "amqp_connection_t \<Rightarrow> outcome" where
  "connection_fail c =
    (case connection_name c of
       Connecting_socket \<Rightarrow> client_fail_while_connecting_socket c
     | Connecting_tls \<Rightarrow> client_fail_while_connecting_tls c
     | Connecting_sasl \<Rightarrow> client_fail_while_connecting_sasl c
     | Connecting_amqp \<Rightarrow> client_fail_while_connecting_amqp c
     | Accepting_tls \<Rightarrow> server_fail_while_accepting_tls c
     | Accepting_sasl \<Rightarrow> server_fail_while_accepting_sasl c
     | Accepting_amqp \<Rightarrow> server_fail_while_accepting_amqp c
     | Stopping \<Rightarrow> connection_fail_while_stopping c
     | Timeout_stopping_output \<Rightarrow> connection_done_or_fail_while_timeout c
     | Timeout_draining_input \<Rightarrow> connection_done_or_fail_while_timeout c
     | _ \<Rightarrow> connection_shutdown_connection amqp_cs_abort_socket c)"

definition connection_drain :: "amqp_connection_t \<Rightarrow> outcome" where
  "connection_drain c =
    (if connection_name c \<in> {Timeout_stopping_output, Timeout_draining_input, Stopped, Failed} then Ret (c, [])
     else connection_shutdown_connection amqp_cs_complete_write_drain_input_and_close_socket c)"

definition connection_close :: "amqp_connection_t \<Rightarrow> outcome" where
  "connection_close c = connection_shutdown_connection amqp_cs_complete_write_and_close_socket c"

definition connection_connect :: "string \<Rightarrow> amqp_connection_t \<Rightarrow> outcome" where
  "connection_connect hostname c =
    (case connection_name c of Initialized \<Rightarrow> client_connect_while_initialized hostname c | _ \<Rightarrow> illegal_state)"

definition connection_begin :: "uint32 \<Rightarrow> amqp_connection_t \<Rightarrow> outcome" where
  "connection_begin version c =
    (case connection_name c of
       Waiting_on_client_negotiation_request \<Rightarrow> server_begin_while_waiting_on_client_negotiation_request version c
     | Waiting_on_tls_tunnelled_request \<Rightarrow> server_begin_while_waiting_on_tls_tunnelled_request version c
     | Waiting_on_amqp_negotiation_request \<Rightarrow> server_begin_while_waiting_on_amqp_negotiation_request version c
     | _ \<Rightarrow> illegal_state)"

definition connection_reject :: "uint32 \<Rightarrow> amqp_connection_t \<Rightarrow> outcome" where
  "connection_reject version c =
    (case reject_pointer c of
       Some Reject_while_accepting_tls \<Rightarrow> server_reject_while_accepting_tls version c
     | Some Reject_while_accepting_sasl \<Rightarrow> server_reject_while_accepting_sasl version c
     | Some Reject_while_accepting_amqp \<Rightarrow> server_reject_while_accepting_amqp version c
     | Some Default_reject \<Rightarrow> illegal_state
     | None \<Rightarrow> Fault BadMemory)"

definition connection_read_done :: "nat \<Rightarrow> amqp_connection_t \<Rightarrow> outcome" where
  "connection_read_done amount c =
    (if read_done_pointer c then connection_read_done_while_draining_input amount c else Fault BadMemory)"

end
