(* ===== verification/Machine.thy ===== *)
theory Machine
  imports Connection_Read Connection_Write Connection_Frames Connection_Amqp Connection_State
begin

text \<open>
  The machines of a connection together. \<open>handle\<close> is one call through the tables, \<open>run_calls\<close> runs a stack of
  calls until the library returns to the event loop, and the events of the event loop and of the
  application start such runs.
\<close>

section \<open>Calls through the tables\<close>

definition connection_shutdown :: "environment \<Rightarrow> amqp_connection_t \<Rightarrow> outcome" where
  "connection_shutdown env c =
    (case shutdown_pointer c of
       Default_shutdown \<Rightarrow> Ret (c, [Connection_close])
     | Do_nothing \<Rightarrow> Ret (c, [])
     | Application_close_while_opened \<Rightarrow> amqp_application_close_while_opened env c
     | Shutdown_while_in_progress \<Rightarrow> Ret (c, []))"

definition connection_timeout :: "environment \<Rightarrow> amqp_connection_t \<Rightarrow> outcome" where
  "connection_timeout env c =
    (case timeout_pointer c of
       Default_timeout \<Rightarrow> illegal_state
     | Timeout_while_stopping_output \<Rightarrow> connection_timeout_while_stopping_output c
     | Timeout_while_draining_input \<Rightarrow> connection_timeout_while_draining_input c
     | Timeout_expired_while_opened \<Rightarrow> amqp_timeout_expired_while_opened env c
     | Timeout_expiry_while_close_sent \<Rightarrow> amqp_timeout_expiry_while_close_sent c
     | Timeout_expiry_while_closed \<Rightarrow> amqp_timeout_expiry_while_closed c)"

definition call_read_callback :: "read_callback \<Rightarrow> nat \<Rightarrow> amqp_connection_t \<Rightarrow> outcome" where
  "call_read_callback callback amount c =
    (case callback of
       Negotiator_read_complete \<Rightarrow> negotiator_read_done amount c
     | Frame_read_complete \<Rightarrow> frame_read_done amount c
     | Connection_read_complete \<Rightarrow> connection_read_done amount c)"

definition call_confirm :: "environment \<Rightarrow> confirm_callback \<Rightarrow> amqp_connection_t \<Rightarrow> outcome" where
  "call_confirm env callback c =
    (case callback of
       Tls_version_accepted \<Rightarrow> Fault NotImplemented
     | Sasl_version_accepted_callback \<Rightarrow> sasl_sasl_version_accepted_callback c
     | Amqp_version_accepted \<Rightarrow> tunnel_amqp_version_accepted c
     | Connection_done_callback \<Rightarrow> connection_done c
     | Sasl_broker_version_sent_callback \<Rightarrow> sasl_done env c
     | Amqp_done_callback \<Rightarrow> amqp_tunnel_done c)"

definition call_handshake_reject :: "reject_callback \<Rightarrow> uint32 \<Rightarrow> amqp_connection_t \<Rightarrow> outcome" where
  "call_handshake_reject callback version c =
    (case callback of
       Tls_version_rejected \<Rightarrow> Fault NotImplemented
     | Sasl_version_rejected_callback \<Rightarrow> sasl_sasl_version_rejected_callback version c
     | Amqp_version_rejected \<Rightarrow> tunnel_amqp_version_rejected version c)"

definition call_frame_available :: "environment \<Rightarrow> frame_available_callback \<Rightarrow> amqp_connection_t \<Rightarrow> outcome" where
  "call_frame_available env callback c =
    (case callback of
       Sasl_frame_available \<Rightarrow> sasl_frame_available_callback env c
     | Amqp_frame_available \<Rightarrow> amqp_frame_available_callback env dispatch_frame c
     | Discard_frame_after_close_received \<Rightarrow> Ret (c, [Frame_read Discard_frame_after_close_received]))"

fun call_handler :: "environment \<Rightarrow> call \<Rightarrow> amqp_connection_t \<Rightarrow> outcome" where
  "call_handler env Connection_done c = connection_done c"
| "call_handler env Connection_fail c = connection_fail c"
| "call_handler env Connection_shutdown c = connection_shutdown env c"
| "call_handler env Connection_drain c = connection_drain c"
| "call_handler env Connection_close c = connection_close c"
| "call_handler env Connection_timeout c = connection_timeout env c"
| "call_handler env (Connection_connect hostname) c = connection_connect hostname c"
| "call_handler env (Connection_begin version) c = connection_begin version c"
| "call_handler env (Connection_reject version) c = connection_reject version c"
| "call_handler env (Connection_read_done amount) c = connection_read_done amount c"
| "call_handler env Connection_halt c = connection_connection_halt c"
| "call_handler env Call_stopped_hook c = Ret (c, [])"
| "call_handler env State_cleanup c = amqp_connection_state_cleanup c"
| "call_handler env Client_io_enabled c = client_io_enabled c"
| "call_handler env Not_implemented c = Fault NotImplemented"
| "call_handler env (Socket_connect hostname) c = socket_connect env hostname c"
| "call_handler env Socket_shutdown c = socket_shutdown c"
| "call_handler env (Socket_fail e) c = socket_fail e c"
| "call_handler env Socket_done c = socket_done c"
| "call_handler env Socket_try_connect c = socket_try_connect c"
| "call_handler env (Connect_event e) c = socket_connect_event_handler e c"
| "call_handler env Reader_enable c = reader_enable c"
| "call_handler env (Reader_commence_read n callback) c = reader_commence_read n callback c"
| "call_handler env Reader_continue_read c = reader_continue_read c"
| "call_handler env Reader_reset c = reader_reset c"
| "call_handler env Reader_stop c = reader_stop c"
| "call_handler env (Reader_fail e) c = reader_fail e c"
| "call_handler env Reader_delayed_read c = reader_delayed_read c"
| "call_handler env Reader_delayed_loop c = reader_delayed_read_while_reading c"
| "call_handler env (Reader_callback callback amount) c = call_read_callback callback amount c"
| "call_handler env Writer_enable c = writer_enable c"
| "call_handler env (Writer_write buffer) c = writer_write buffer c"
| "call_handler env Writer_continue_write c = writer_continue_write c"
| "call_handler env Writer_stop c = writer_stop c"
| "call_handler env (Writer_fail e) c = writer_fail e c"
| "call_handler env Writer_abort c = writer_abort c"
| "call_handler env Writer_write_complete c = writer_write_complete c"
| "call_handler env (Negotiator_start version confirm reject) c = negotiator_start version confirm reject c"
| "call_handler env Negotiator_started c = negotiator_started c"
| "call_handler env Negotiator_wait c = negotiator_wait c"
| "call_handler env (Negotiator_send version confirm) c = negotiator_send version confirm c"
| "call_handler env Negotiator_sent c = negotiator_sent c"
| "call_handler env (Negotiator_read_done amount) c = negotiator_read_done amount c"
| "call_handler env Negotiator_reset c = negotiator_reset c"
| "call_handler env (Confirm callback) c = call_confirm env callback c"
| "call_handler env (Handshake_reject callback version) c = call_handshake_reject callback version c"
| "call_handler env (Request version) c = connection_begin version c"
| "call_handler env Tls_connect c = tls_start_while_initialized c"
| "call_handler env (Tls_accept version) c = tls_tunnel_accept_while_initialized version c"
| "call_handler env Sasl_connect c = sasl_connect c"
| "call_handler env Sasl_done c = sasl_done env c"
| "call_handler env (Sasl_accept version) c = sasl_accept version c"
| "call_handler env (Sasl_frame frame) c = sasl_frame env frame c"
| "call_handler env Sasl_mechanisms_sent c = sasl_mechanisms_sent c"
| "call_handler env Sasl_init_sent c = sasl_init_sent c"
| "call_handler env Sasl_outcome_sent c = sasl_outcome_sent c"
| "call_handler env Unsupported_mechanism_reported c = Fault NotImplemented"
| "call_handler env Amqp_tunnel_connect c = amqp_tunnel_connect c"
| "call_handler env Amqp_tunnel_done c = amqp_tunnel_done c"
| "call_handler env (Amqp_tunnel_accept version) c = amqp_tunnel_accept version c"
| "call_handler env Amqp_send_open c = amqp_send_open env c"
| "call_handler env Amqp_open_frame_sent c = amqp_open_frame_sent c"
| "call_handler env Amqp_wait_on_open c = amqp_wait_on_open c"
| "call_handler env (Amqp_frame frame) c = amqp_frame_received env frame c"
| "call_handler env Amqp_server_open_sent c = amqp_connection_opened c"
| "call_handler env Amqp_close_frame_sent c = amqp_close_frame_sent c"
| "call_handler env Frame_enable c = frame_enable c"
| "call_handler env (Frame_read callback) c = frame_read callback c"
| "call_handler env (Frame_read_done amount) c = frame_read_done amount c"
| "call_handler env Frame_stop c = frame_stop c"
| "call_handler env (Frame_available callback) c = call_frame_available env callback c"
| "call_handler env Frame_size_error_dumped c = Ret (c, [])"

text \<open>Every call looks at the connection first; after its memory was given back that is a fault.\<close>

definition handle :: "environment \<Rightarrow> call \<Rightarrow> amqp_connection_t \<Rightarrow> outcome" where
  "handle env call c = (if destroyed c then Fault BadMemory else call_handler env call c)"

section \<open>Runs\<close>

fun run_calls :: "nat \<Rightarrow> environment \<Rightarrow> call list \<Rightarrow> amqp_connection_t \<Rightarrow> amqp_connection_t run" where
  "run_calls n env [] c = Ret c"
| "run_calls 0 env (k # ks) c = Fault OutOfFuel"
| "run_calls (Suc n) env (k # ks) c = run_bind (handle env k c) (\<lambda>(c, ks'). run_calls n env (ks' @ ks) c)"

inductive step :: "environment \<Rightarrow> amqp_connection_t \<times> call list \<Rightarrow> amqp_connection_t \<times> call list \<Rightarrow> bool" for env where
  step: "handle env k c = Ret (c', ks') \<Longrightarrow> step env (c, k # ks) (c', ks' @ ks)"

inductive_cases stepE: "step env s s'"

section \<open>Creation\<close>

definition create_connection :: "uint32 \<Rightarrow> amqp_connection_t" where
  "create_connection context_max_frame_size =
     \<lparr>flags = 0, failure_flags = 0, protocols = AMQP_PROTOCOL_SASL OR AMQP_PROTOCOL_AMQP,
      required_tls = AMQP_TLS_PREFERRED_VERSION, required_sasl = AMQP_SASL_PREFERRED_VERSION, required_amqp = AMQP_PREFERRED_VERSION,
      supported_sasl = 0, supported_amqp = 0,
      connection_name = Initialized, shutdown_pointer = Default_shutdown, timeout_pointer = Default_timeout, reject_pointer = None,
      read_done_pointer = False, socket_name = Socket_initialized, reader_name = Reader_initialized, writer_name = Writer_initialized,
      negotiator_name = Negotiator_initialized, sasl_name = Sasl_initialized, amqp_tunnel_name = Tunnel_initialized,
      amqp_name = Amqp_initialized, frame_name = Frame_initialized,
      data_word = 0, preferred_version = 0, confirm_pointer = None, handshake_reject_pointer = None, request_pointer = False,
      buffer_read = new_buffer, write_watcher = None, buffer_queue = [None, None, None], queue_start = 0, queue_end = 0,
      stopped_callback = False, last_write_time = 0, read_callback_pointer = None, read_is_queued = False, n_required = 0, satisfied = 0,
      read_watcher = None, last_read_time = 0, frame_available_pointer = None, io_frame_size = 0,
      fd = 0, socket_hostname = None, errno_error_code = 0, lookup_iterator = [], addrinfo = False, connect_watcher = None, timer = None,
      sasl_plugin = False,
      max_frame_size = (if context_max_frame_size < 512 then 512 else context_max_frame_size), channel_max = 16, idle_time_out = 30000,
      remote_max_frame_size = 0, remote_channel_max = 0, remote_idle_time_out = 0, timeout_local = 0, timeout_remote = 0,
      accept_handler_arguments = False, halts = 0, destroyed = False, now = 0, incoming = [], write_results = [], outgoing = []\<rparr>"

definition amqp_connection_create :: "uint32 \<Rightarrow> amqp_connection_t" where
  "amqp_connection_create context_max_frame_size =
     amqp_connection_socket_initialize (transition_to_state Initialized (create_connection context_max_frame_size))"

text \<open>An accepted connection, and the calls with which \<open>amqp_connection_server_state_initialize\<close> ends.\<close>

definition amqp_connection_accept :: "uint32 \<Rightarrow> int \<Rightarrow> string \<Rightarrow> amqp_connection_t \<times> call list" where
  "amqp_connection_accept context_max_frame_size fd' hostname =
    (let c = transition_to_state Waiting_on_client_negotiation_request
               ((create_connection context_max_frame_size)\<lparr>accept_handler_arguments := True\<rparr>)
     in (amqp_connection_accepted_socket_initialize fd' hostname c, amqp_connection_enable_io @ [Negotiator_wait]))"

section \<open>Events\<close>

definition amqp_connection_connect_to :: "string \<Rightarrow> amqp_connection_t \<Rightarrow> call list" where
  "amqp_connection_connect_to hostname c =
    (if protocols c AND AMQP_PROTOCOL_AMQP = 0 then [Connection_fail] else [Connection_connect hostname])"

datatype event =
    Application_connects string | Application_shuts_down
  | Readable "read_result list" | Writable "send_result list" | Connected int | Timer_expired int

text \<open>An event can occur when the event loop watches for it; the calls with which the library handles it.\<close>

inductive event_step :: "event \<Rightarrow> amqp_connection_t \<Rightarrow> amqp_connection_t \<times> call list \<Rightarrow> bool" where
  connects: "event_step (Application_connects hostname) c (c, amqp_connection_connect_to hostname c)"
| shuts_down: "event_step Application_shuts_down c (c, [Connection_shutdown])"
| readable: "read_watcher c = Some True \<Longrightarrow> event_step (Readable rs) c (c\<lparr>incoming := rs\<rparr>, [Reader_continue_read])"
| writable: "write_watcher c = Some True \<Longrightarrow> event_step (Writable ws) c (c\<lparr>write_results := ws\<rparr>, [Writer_continue_write])"
| connected: "connect_watcher c = Some True \<Longrightarrow> event_step (Connected e) c (c, [Connect_event e])"
| timer_expired: "timer c \<noteq> None \<Longrightarrow> now c \<le> t \<Longrightarrow> event_step (Timer_expired t) c (c\<lparr>now := t\<rparr>, [Connection_timeout])"

inductive reachable :: "environment \<Rightarrow> amqp_connection_t \<times> call list \<Rightarrow> bool" for env where
  created: "reachable env (amqp_connection_create m, [])"
| accepted: "reachable env (amqp_connection_accept m fd' hostname)"
| calls: "reachable env s \<Longrightarrow> step env s s' \<Longrightarrow> reachable env s'"
| events: "reachable env (c, []) \<Longrightarrow> \<not> destroyed c \<Longrightarrow> event_step e c s \<Longrightarrow> reachable env s"

lemma run_calls_steps: "run_calls n env ks c = Ret c' \<Longrightarrow> (step env)\<^sup>*\<^sup>* (c, ks) (c', [])"
proof (induction n env ks c rule: run_calls.induct)
  case (3 n env k ks c)
  then obtain c1 ks1 where "handle env k c = Ret (c1, ks1)" "run_calls n env (ks1 @ ks) c1 = Ret c'"
    by (auto simp: run_simps)
  with "3.IH" show ?case by (blast intro: converse_rtranclp_into_rtranclp step.intros)
qed simp_all

lemma steps_reachable: "(step env)\<^sup>*\<^sup>* s s' \<Longrightarrow> reachable env s \<Longrightarrow> reachable env s'"
  by (induction rule: rtranclp_induct) (auto intro: reachable.calls)

text \<open>
  The history of a connection from one state to another: the calls the library makes, and in between, when
  no call is left, the events of the event loop in the order given.
\<close>

inductive trace :: "environment \<Rightarrow> amqp_connection_t \<times> call list \<Rightarrow> event list \<Rightarrow> amqp_connection_t \<times> call list \<Rightarrow> bool" for env where
  trace_done: "trace env s [] s"
| trace_call: "step env s s' \<Longrightarrow> trace env s' es s'' \<Longrightarrow> trace env s es s''"
| trace_event: "\<not> destroyed c \<Longrightarrow> event_step e c s \<Longrightarrow> trace env s es s'' \<Longrightarrow> trace env (c, []) (e # es) s''"

lemma trace_steps: "(step env)\<^sup>*\<^sup>* s s' \<Longrightarrow> trace env s' es s'' \<Longrightarrow> trace env s es s''"
  by (induction rule: converse_rtranclp_induct) (auto intro: trace.trace_call)

lemma trace_append: "trace env s es s' \<Longrightarrow> trace env s' es' s'' \<Longrightarrow> trace env s (es @ es') s''"
  by (induction rule: trace.induct) (auto intro: trace.intros)

lemma trace_reachable: "trace env s es s' \<Longrightarrow> reachable env s \<Longrightarrow> reachable env s'"
  by (induction rule: trace.induct) (auto intro: reachable.intros)

lemma stepI: "handle env k c = Ret (c', ks') \<Longrightarrow> step env (c, k # ks) (c', ks' @ ks)"
  by (rule step.intros)

lemma trace_of_event:
  assumes "\<not> destroyed c" and "event_step e c s" and "step env s s'"
  shows "trace env (c, []) [e] s'"
  by (rule trace.trace_event [OF assms(1,2)], rule trace.trace_call [OF assms(3)], rule trace.trace_done)

text \<open>A number of calls, by evaluation.\<close>

fun run_steps :: "nat \<Rightarrow> environment \<Rightarrow> amqp_connection_t \<times> call list \<Rightarrow> (amqp_connection_t \<times> call list) run" where
  "run_steps 0 env s = Ret s"
| "run_steps (Suc n) env (c, []) = Ret (c, [])"
| "run_steps (Suc n) env (c, k # ks) = run_bind (handle env k c) (\<lambda>(c', ks'). run_steps n env (c', ks' @ ks))"

lemma run_steps_step: "run_steps n env s = Ret s' \<Longrightarrow> (step env)\<^sup>*\<^sup>* s s'"
proof (induction n env s rule: run_steps.induct)
  case (3 n env c k ks)
  then obtain c1 ks1 where "handle env k c = Ret (c1, ks1)" "run_steps n env (c1, ks1 @ ks) = Ret s'"
    by (auto simp: run_simps)
  with "3.IH" show ?case by (blast intro: converse_rtranclp_into_rtranclp stepI)
qed simp_all

text \<open>Calls under the ones that are done stay where they are, and a run that ends is one of \<open>run_calls\<close>.\<close>

lemma step_append: "step env (c, ks) (c', ks') \<Longrightarrow> step env (c, ks @ more_ks) (c', ks' @ more_ks)"
  by (erule step.cases) (auto simp: stepI)

lemma steps_append: "(step env)\<^sup>*\<^sup>* s s' \<Longrightarrow> (step env)\<^sup>*\<^sup>* (fst s, snd s @ ks) (fst s', snd s' @ ks)"
proof (induction rule: rtranclp_induct)
  case (step s1 s2)
  have "step env (fst s1, snd s1 @ ks) (fst s2, snd s2 @ ks)" by (rule step_append) (use step(2) in simp)
  with step.IH show ?case by (rule rtranclp.rtrancl_into_rtrancl)
qed simp

lemma steps_run_calls: "(step env)\<^sup>*\<^sup>* s s' \<Longrightarrow> snd s' = [] \<Longrightarrow> \<exists>n. run_calls n env (snd s) (fst s) = Ret (fst s')"
proof (induction rule: converse_rtranclp_induct)
  case base
  then show ?case by (intro exI [of _ 0]) simp
next
  case (step s1 s2)
  then obtain n where n: "run_calls n env (snd s2) (fst s2) = Ret (fst s')" by blast
  from step(1) show ?case
  proof cases
    case (step k c c' ks' ks)
    then show ?thesis using n by (intro exI [of _ "Suc n"]) simp
  qed
qed

end
