(* ===== verification/Reader_Correct.thy ===== *)
theory Reader_Correct
  imports Machine
begin

text \<open>
  The reader does what its clients ask for: however the bytes of the peer are spread over calls of \<open>readv\<close>
  and over events of the event loop, the required number of them is appended to the buffer in the
  order of arrival, the callback is called once with that number, and no byte beyond is taken.
\<close>

section \<open>A vectored read\<close>

lemma store_positions:
  assumes "buffer_ok b" and "p + length xs \<le> capacity b"
  shows "\<exists>fs. foldl (\<lambda>r (i, x). run_bind r (\<lambda>b. amqp_unchecked_putc_at b x i)) (Ret b) (zip [p..<p + length xs] xs)
      = Ret (b\<lparr>fragments := fs\<rparr>)
    \<and> buffer_ok (b\<lparr>fragments := fs\<rparr>) \<and> byte_at (b\<lparr>fragments := fs\<rparr>) = overlay (byte_at b) p xs"
  using assms
proof (induction xs arbitrary: b p)
  case Nil
  then show ?case by (intro exI [of _ "fragments b"]) simp
next
  case (Cons x xs)
  then obtain fs where fs: "amqp_unchecked_putc_at b x p = Ret (b\<lparr>fragments := fs\<rparr>)" "buffer_ok (b\<lparr>fragments := fs\<rparr>)"
    "byte_at (b\<lparr>fragments := fs\<rparr>) = (byte_at b)(p := x)"
    using unchecked_putc_at_ok [of b p x] by auto
  have "[p..<p + length (x # xs)] = p # [Suc p..<Suc p + length xs]" by (simp add: upt_conv_Cons del: upt_Suc)
  then show ?case
    using Cons.IH [OF fs(2), of "Suc p"] Cons.prems fs by (simp add: overlay_Cons del: upt_Suc fun_upd_apply)
qed

lemma zip_upt_prefix: "length xs \<le> n \<Longrightarrow> zip [p..<p + n] xs = zip [p..<p + length xs] xs"
  by (rule nth_equalityI) auto

lemma write_io_vec_ok:
  assumes "buffer_ok b" and "limit_size b + n \<le> capacity b" and "0 < n"
  obtains vs where "amqp_buffer_write_io_vec b n = Ret vs" and "iov_positions vs = [limit_size b..<limit_size b + n]"
proof -
  have "limit_size b + n \<le> AMQP_BUFFER_MAX_SIZE" "limit_size b < AMQP_BUFFER_MAX_SIZE" "n \<le> capacity b - limit_size b"
    using assms buffer_ok_bounds(2) [OF assms(1)] by linarith+
  then show ?thesis
    using fill_io_vec_ok [of "limit_size b" n] that by (auto simp: amqp_buffer_write_io_vec_def Let_def buffer_simps)
qed

lemma readv_appends:
  assumes "buffer_ok b" and "limit_size b + n \<le> capacity b" and "iov_positions vs = [limit_size b..<limit_size b + n]"
    and "length bs \<le> n"
  obtains b' where "readv_store b vs bs = Ret b'" and "appended b bs (amqp_buffer_advance_write_point b' (length bs))"
proof -
  have room: "limit_size b + length bs \<le> capacity b" using assms by simp
  have "readv_store b vs bs = foldl (\<lambda>r (i, x). run_bind r (\<lambda>b. amqp_unchecked_putc_at b x i)) (Ret b)
    (zip [limit_size b..<limit_size b + length bs] bs)"
    by (simp only: readv_store_def assms(3) zip_upt_prefix [OF assms(4)])
  then obtain fs where fs: "readv_store b vs bs = Ret (b\<lparr>fragments := fs\<rparr>)" "buffer_ok (b\<lparr>fragments := fs\<rparr>)"
    "byte_at (b\<lparr>fragments := fs\<rparr>) = overlay (byte_at b) (limit_size b) bs"
    using store_positions [OF assms(1) room] by metis
  moreover have "buffer_ok (b\<lparr>fragments := fs, limit_size := limit_size b + length bs\<rparr>)"
    using buffer_ok_size [OF fs(2)] room by simp
  moreover have "size_add (limit_size b) (length bs) = limit_size b + length bs"
    by (rule size_add_small) (use room buffer_ok_bounds(2) [OF assms(1)] in simp)
  ultimately show ?thesis
    using that [OF fs(1)] by (simp add: appended_def amqp_buffer_advance_write_point_def buffer_rest_def byte_at_def)
qed

section \<open>A read in progress\<close>

definition reading :: "nat \<Rightarrow> read_callback \<Rightarrow> amqp_connection_t \<Rightarrow> bool" where
  "reading n callback c \<longleftrightarrow> reader_name c = Reader_reading \<and> read_callback_pointer c = Some callback \<and> n_required c = n \<and> satisfied c < n
     \<and> read_watcher c \<noteq> None \<and> buffer_ok (buffer_read c)
     \<and> limit_size (buffer_read c) + (n - satisfied c) \<le> capacity (buffer_read c)"

text \<open>The connection after bytes were stored, and after the read was completed.\<close>

definition stored :: "amqp_buffer_t \<Rightarrow> nat \<Rightarrow> amqp_connection_t \<Rightarrow> amqp_connection_t" where
  "stored b n c = c\<lparr>buffer_read := b, satisfied := satisfied c + n\<rparr>"

definition completed :: "amqp_buffer_t \<Rightarrow> read_result list \<Rightarrow> amqp_connection_t \<Rightarrow> amqp_connection_t" where
  "completed b rest c =
     c\<lparr>buffer_read := b, incoming := rest, read_callback_pointer := None, read_is_queued := False, satisfied := 0, last_read_time := now c\<rparr>"

lemma reading_stored:
  assumes "reading n callback c" and "appended (buffer_read c) bs b" and "satisfied c + length bs < n"
  shows "reading n callback (stored b (length bs) c)"
  using assms by (auto simp: reading_def stored_def appended_def)

lemma read_part:
  assumes "reading n callback c" and "bs \<noteq> []" and "satisfied c + length bs < n"
  obtains b where "appended (buffer_read c) bs b"
    and "reader_read_loop (Received bs # rest) c = reader_read_loop rest (stored b (length bs) c)"
proof -
  let ?n = "n - satisfied c"
  have r: "buffer_ok (buffer_read c)" "limit_size (buffer_read c) + ?n \<le> capacity (buffer_read c)" "n_required c = n" "0 < ?n"
    using assms(1) by (auto simp: reading_def)
  obtain vs where vs: "amqp_buffer_write_io_vec (buffer_read c) ?n = Ret vs"
    "iov_positions vs = [limit_size (buffer_read c)..<limit_size (buffer_read c) + ?n]"
    by (rule write_io_vec_ok [OF r(1,2,4)])
  have le: "length bs \<le> ?n" using assms(3) by simp
  obtain b where b: "readv_store (buffer_read c) vs bs = Ret b"
    "appended (buffer_read c) bs (amqp_buffer_advance_write_point b (length bs))"
    by (rule readv_appends [OF r(1,2) vs(2) le])
  show ?thesis
    by (rule that [OF b(2)], subst reader_read_loop.simps)
      (use r vs b assms(2,3) le in \<open>simp add: Let_def stored_def\<close>)
qed

lemma read_rest:
  assumes "reading n callback c" and "n \<le> satisfied c + length bs"
  obtains b where "appended (buffer_read c) (take (n - satisfied c) bs) b"
    and "reader_read_loop (Received bs # rest) c
      = Ret (True, completed b (if n < satisfied c + length bs then Received (drop (n - satisfied c) bs) # rest else rest) c,
             [Reader_callback callback n])"
proof -
  let ?n = "n - satisfied c"
  have r: "buffer_ok (buffer_read c)" "limit_size (buffer_read c) + ?n \<le> capacity (buffer_read c)" "n_required c = n" "0 < ?n"
    "satisfied c < n" "read_callback_pointer c = Some callback"
    using assms(1) by (auto simp: reading_def)
  obtain vs where vs: "amqp_buffer_write_io_vec (buffer_read c) ?n = Ret vs"
    "iov_positions vs = [limit_size (buffer_read c)..<limit_size (buffer_read c) + ?n]"
    by (rule write_io_vec_ok [OF r(1,2,4)])
  have le: "length (take ?n bs) \<le> ?n" by simp
  have len: "length (take ?n bs) = ?n" "min ?n (length bs) = ?n" "bs \<noteq> []" using assms(2) r(5) by auto
  obtain b where b: "readv_store (buffer_read c) vs (take ?n bs) = Ret b"
    "appended (buffer_read c) (take ?n bs) (amqp_buffer_advance_write_point b ?n)"
    using readv_appends [OF r(1,2) vs(2) le] len(1) by metis
  have "(?n < length bs) = (n < satisfied c + length bs)" using r(5) by arith
  then show ?thesis
    by (intro that [OF b(2)], subst reader_read_loop.simps, subst reader_read_loop.simps)
      (use r vs b len in \<open>simp add: Let_def reader_call_read_callback_def completed_def\<close>)
qed

section \<open>Input in pieces\<close>

text \<open>The pieces that are left after a number of bytes.\<close>

fun after_bytes :: "nat \<Rightarrow> byte list list \<Rightarrow> byte list list" where
  "after_bytes k [] = []"
| "after_bytes k (bs # css) = (if k < length bs then drop k bs # css else after_bytes (k - length bs) css)"

lemma concat_after_bytes: "concat (after_bytes k css) = drop k (concat css)"
  by (induction k css rule: after_bytes.induct) auto

lemma after_bytes_nonempty: "[] \<notin> set css \<Longrightarrow> [] \<notin> set (after_bytes k css)"
  by (induction k css rule: after_bytes.induct) auto

lemma after_bytes_0: "[] \<notin> set css \<Longrightarrow> after_bytes 0 css = css"
  by (cases css) auto

lemma completed_stored [simp]: "completed b rest (stored b' n c) = completed b rest c"
  by (simp add: completed_def stored_def)

lemma stored_stored: "stored b2 n (stored b1 m c) = stored b2 (m + n) c"
  by (simp add: stored_def)

lemma stored_fields [simp]: "buffer_read (stored b n c) = b" "satisfied (stored b n c) = satisfied c + n"
  by (simp_all add: stored_def)

lemma read_pieces:
  assumes "reading n callback c" and "[] \<notin> set css" and "satisfied c + length (concat css) < n"
  shows "\<exists>b. appended (buffer_read c) (concat css) b
    \<and> reader_read_loop (map Received css @ rest) c = reader_read_loop rest (stored b (length (concat css)) c)"
  using assms
proof (induction css arbitrary: c)
  case Nil
  then show ?case by (intro exI [of _ "buffer_read c"]) (simp add: appended_Nil reading_def stored_def)
next
  case (Cons bs css)
  then have bs: "bs \<noteq> []" "satisfied c + length bs < n" by auto
  obtain b1 where b1: "appended (buffer_read c) bs b1"
    "reader_read_loop (Received bs # map Received css @ rest) c = reader_read_loop (map Received css @ rest) (stored b1 (length bs) c)"
    by (rule read_part [OF Cons.prems(1) bs])
  obtain b2 where b2: "appended b1 (concat css) b2"
    "reader_read_loop (map Received css @ rest) (stored b1 (length bs) c)
       = reader_read_loop rest (stored b2 (length (concat css)) (stored b1 (length bs) c))"
    using Cons.IH [OF reading_stored [OF Cons.prems(1) b1(1) bs(2)]] Cons.prems by auto
  from appended_trans [OF b1(1) b2(1)] b1(2) b2(2) show ?case
    by (intro exI [of _ b2]) (simp add: stored_stored)
qed

lemma read_complete:
  assumes "reading n callback c" and "[] \<notin> set css" and "n \<le> satisfied c + length (concat css)"
  shows "\<exists>b. appended (buffer_read c) (take (n - satisfied c) (concat css)) b
    \<and> reader_read_loop (map Received css @ rest) c
      = Ret (True, completed b (map Received (after_bytes (n - satisfied c) css) @ rest) c, [Reader_callback callback n])"
  using assms
proof (induction css arbitrary: c)
  case Nil
  then show ?case by (simp add: reading_def)
next
  case (Cons bs css)
  show ?case
  proof (cases "satisfied c + length bs < n")
    case True
    then have bs: "bs \<noteq> []" "satisfied c + length bs < n" using Cons.prems by auto
    obtain b1 where b1: "appended (buffer_read c) bs b1"
      "reader_read_loop (Received bs # map Received css @ rest) c = reader_read_loop (map Received css @ rest) (stored b1 (length bs) c)"
      by (rule read_part [OF Cons.prems(1) bs])
    obtain b2 where b2: "appended b1 (take (n - (satisfied c + length bs)) (concat css)) b2"
      "reader_read_loop (map Received css @ rest) (stored b1 (length bs) c)
        = Ret (True, completed b2 (map Received (after_bytes (n - (satisfied c + length bs)) css) @ rest) c, [Reader_callback callback n])"
      using Cons.IH [OF reading_stored [OF Cons.prems(1) b1(1) bs(2)]] Cons.prems(2,3) by (fastforce simp del: length_concat)
    have n: "length bs \<le> n - satisfied c" "\<not> n - satisfied c < length bs" using bs(2) by linarith+
    with appended_trans [OF b1(1) b2(1)] b1(2) b2(2) show ?thesis by (intro exI [of _ b2]) simp
  next
    case False
    then have le: "n \<le> satisfied c + length bs" by simp
    obtain b where b: "appended (buffer_read c) (take (n - satisfied c) bs) b"
      "reader_read_loop (Received bs # map Received css @ rest) c
        = Ret (True, completed b (if n < satisfied c + length bs then Received (drop (n - satisfied c) bs) # map Received css @ rest
                                  else map Received css @ rest) c, [Reader_callback callback n])"
      by (rule read_rest [OF Cons.prems(1) le])
    have r: "satisfied c < n" using Cons.prems(1) by (simp add: reading_def)
    have "take (n - satisfied c) (concat (bs # css)) = take (n - satisfied c) bs"
      "n < satisfied c + length bs \<longleftrightarrow> n - satisfied c < length bs"
      "\<not> n < satisfied c + length bs \<Longrightarrow> n - satisfied c - length bs = 0" using le r by auto
    then show ?thesis using b Cons.prems(2) by (auto simp: after_bytes_0)
  qed
qed

text \<open>When the input runs dry the watcher is started and nothing is called.\<close>

lemma read_blocks:
  assumes "reading n callback c"
  shows "reader_read_loop [] c = Ret (False, c\<lparr>incoming := [], read_watcher := Some True\<rparr>, [])"
proof -
  have "\<exists>vs. amqp_buffer_write_io_vec (buffer_read c) (n_required c - satisfied c) = Ret vs"
    by (rule write_io_vec_ok [of "buffer_read c" "n_required c - satisfied c"]) (use assms in \<open>auto simp: reading_def\<close>)
  then show ?thesis using assms
    by (subst reader_read_loop.simps) (auto simp: reading_def amqp_io_event_watcher_set_def)
qed

text \<open>The peer closes before the first byte, or in the middle.\<close>

lemma read_end:
  assumes "reading n callback c"
  shows "reader_read_loop (End_of_file # rest) c =
    (let c = amqp_connection_failure_flag_set AMQP_CONNECTION_READ_EOF (c\<lparr>incoming := rest\<rparr>)
     in Ret (if 0 < satisfied c
        then (False, amqp_connection_failure_flag_set AMQP_CONNECTION_READ_ERROR (c\<lparr>read_watcher := None, reader_name := Reader_failed\<rparr>),
              [Connection_fail])
        else (False, (completed (buffer_read c) rest c)\<lparr>reader_name := Reader_eof\<rparr>, [Reader_callback callback 0])))"
proof -
  have "\<exists>vs. amqp_buffer_write_io_vec (buffer_read c) (n_required c - satisfied c) = Ret vs"
    by (rule write_io_vec_ok [of "buffer_read c" "n_required c - satisfied c"]) (use assms in \<open>auto simp: reading_def\<close>)
  then show ?thesis using assms
    by (subst reader_read_loop.simps)
      (auto simp: reading_def amqp_io_event_watcher_set_def reader_read_eof_def Let_def reader_is_partial_read_def
        amqp_connection_failure_flag_set_def reader_cleanup_reader_def amqp_connection_failed_def reader_call_read_callback_def completed_def)
qed

section \<open>One event\<close>

lemma continue_operation_part:
  assumes "reading n callback c" and "[] \<notin> set css" and "satisfied c + length (concat css) < n" and "incoming c = map Received css"
  obtains b where "appended (buffer_read c) (concat css) b"
    and "reader_continue_read_operation next_call c
      = Ret ((stored b (length (concat css)) c)\<lparr>incoming := [], read_watcher := Some True\<rparr>, [])"
proof -
  obtain b where b: "appended (buffer_read c) (concat css) b"
    "reader_read_loop (map Received css) c = reader_read_loop [] (stored b (length (concat css)) c)"
    using read_pieces [OF assms(1-3), of "[]"] by auto
  have "reading n callback (stored b (length (concat css)) c)" by (rule reading_stored [OF assms(1) b(1) assms(3)])
  from read_blocks [OF this] show ?thesis
    using that b assms(1,4) by (simp add: reader_continue_read_operation_def reader_read_what_is_buffered_def reading_def)
qed

lemma continue_operation_complete:
  assumes "reading n callback c" and "[] \<notin> set css" and "n \<le> satisfied c + length (concat css)" and "incoming c = map Received css"
  obtains b where "appended (buffer_read c) (take (n - satisfied c) (concat css)) b"
    and "reader_continue_read_operation next_call c
      = Ret (completed b (map Received (after_bytes (n - satisfied c) css)) c, [Reader_callback callback n, next_call])"
  using read_complete [OF assms(1-3), of "[]"] assms(1,4) that
  by (auto simp: reader_continue_read_operation_def reader_read_what_is_buffered_def reading_def)

lemma readable_event:
  assumes "reading n callback c"
  shows "reader_continue_read (c\<lparr>incoming := rs\<rparr>)
    = reader_continue_read_operation Reader_delayed_read (c\<lparr>incoming := rs, read_watcher := Some False\<rparr>)"
  using assms by (simp add: reading_def reader_continue_read_def reader_next_read_while_reading_def amqp_io_event_watcher_set_def)

lemma reading_event: "reading n callback c \<Longrightarrow> reading n callback (c\<lparr>incoming := rs, read_watcher := Some w\<rparr>)"
  by (auto simp: reading_def)

section \<open>Any number of events\<close>

text \<open>
  The read is complete at the event with which the required number of bytes has arrived, and then the
  callback is the next call. The bytes beyond are left for the next read.
\<close>

lemma readable_event_part:
  assumes "reading n callback c" and "\<not> destroyed c" and "read_watcher c = Some True"
    and "[] \<notin> set cs" and "satisfied c + length (concat cs) < n"
  shows "\<exists>b. appended (buffer_read c) (concat cs) b
    \<and> trace env (c, []) [Readable (map Received cs)]
        ((stored b (length (concat cs)) c)\<lparr>incoming := [], read_watcher := Some True\<rparr>, [])"
proof -
  let ?c = "c\<lparr>incoming := map Received cs, read_watcher := Some False\<rparr>"
  have s: "reading n callback ?c" "satisfied ?c + length (concat cs) < n" "incoming ?c = map Received cs"
    using assms by (simp_all add: reading_event)
  obtain b where b: "appended (buffer_read ?c) (concat cs) b"
    "reader_continue_read_operation Reader_delayed_read ?c
      = Ret ((stored b (length (concat cs)) ?c)\<lparr>incoming := [], read_watcher := Some True\<rparr>, [])"
    by (rule continue_operation_part [OF s(1) assms(4) s(2,3)])
  have "step env (c\<lparr>incoming := map Received cs\<rparr>, [Reader_continue_read])
    ((stored b (length (concat cs)) c)\<lparr>incoming := [], read_watcher := Some True\<rparr>, [])"
    using stepI [of env Reader_continue_read "c\<lparr>incoming := map Received cs\<rparr>" _ "[]" "[]"] b(2) assms(2)
    by (simp add: handle_def readable_event [OF assms(1)] stored_def)
  from trace_of_event [OF assms(2) event_step.readable [OF assms(3)] this] b(1) show ?thesis by (intro exI [of _ b]) simp
qed

lemma readable_event_complete:
  assumes "reading n callback c" and "\<not> destroyed c" and "read_watcher c = Some True"
    and "[] \<notin> set cs" and "n \<le> satisfied c + length (concat cs)"
  shows "\<exists>b. appended (buffer_read c) (take (n - satisfied c) (concat cs)) b
    \<and> trace env (c, []) [Readable (map Received cs)]
        (completed b (map Received (after_bytes (n - satisfied c) cs)) (c\<lparr>read_watcher := Some False\<rparr>),
         [Reader_callback callback n, Reader_delayed_read])"
proof -
  let ?c = "c\<lparr>incoming := map Received cs, read_watcher := Some False\<rparr>"
  have s: "reading n callback ?c" "n \<le> satisfied ?c + length (concat cs)" "incoming ?c = map Received cs"
    using assms by (simp_all add: reading_event)
  obtain b where b: "appended (buffer_read ?c) (take (n - satisfied ?c) (concat cs)) b"
    "reader_continue_read_operation Reader_delayed_read ?c
      = Ret (completed b (map Received (after_bytes (n - satisfied ?c) cs)) ?c, [Reader_callback callback n, Reader_delayed_read])"
    by (rule continue_operation_complete [OF s(1) assms(4) s(2,3)])
  have "step env (c\<lparr>incoming := map Received cs\<rparr>, [Reader_continue_read])
    (completed b (map Received (after_bytes (n - satisfied c) cs)) (c\<lparr>read_watcher := Some False\<rparr>),
     [Reader_callback callback n, Reader_delayed_read])"
    using stepI [of env Reader_continue_read "c\<lparr>incoming := map Received cs\<rparr>" _ "[Reader_callback callback n, Reader_delayed_read]" "[]"]
      b(2) assms(2)
    by (simp add: handle_def readable_event [OF assms(1)] completed_def)
  from trace_of_event [OF assms(2) event_step.readable [OF assms(3)] this] b(1) show ?thesis by (intro exI [of _ b]) simp
qed

lemma reads_over_events:
  assumes "reading n callback c" and "\<not> destroyed c" and "read_watcher c = Some True"
    and "\<forall>cs \<in> set css. [] \<notin> set cs" and "[] \<notin> set last_pieces"
    and "satisfied c + length (concat (concat css)) < n" and "n \<le> satisfied c + length (concat (concat css @ last_pieces))"
  shows "\<exists>c'. trace env (c, []) (map (\<lambda>cs. Readable (map Received cs)) (css @ [last_pieces]))
        (c', [Reader_callback callback n, Reader_delayed_read])
    \<and> appended (buffer_read c) (take (n - satisfied c) (concat (concat css @ last_pieces))) (buffer_read c')
    \<and> (\<exists>left. incoming c' = map Received left \<and> concat left = drop (n - satisfied c) (concat (concat css @ last_pieces)))
    \<and> read_callback_pointer c' = None"
  using assms
proof (induction css arbitrary: c)
  case Nil
  then have "n \<le> satisfied c + length (concat last_pieces)" by simp
  from readable_event_complete [OF Nil.prems(1-3,5) this] show ?case
    by (fastforce simp: completed_def concat_after_bytes)
next
  case (Cons cs css)
  let ?k = "length (concat cs)"
  have k: "[] \<notin> set cs" "satisfied c + ?k < n" using Cons.prems by auto
  obtain b where b: "appended (buffer_read c) (concat cs) b"
    and t: "trace env (c, []) [Readable (map Received cs)] ((stored b ?k c)\<lparr>incoming := [], read_watcher := Some True\<rparr>, [])"
    using readable_event_part [OF Cons.prems(1-3) k] by auto
  let ?c = "(stored b ?k c)\<lparr>incoming := [], read_watcher := Some True\<rparr>"
  have "reading n callback ?c" by (rule reading_event, rule reading_stored [OF Cons.prems(1) b k(2)])
  moreover have "\<not> destroyed ?c" "read_watcher ?c = Some True" "satisfied ?c = satisfied c + ?k" "buffer_read ?c = b"
    using Cons.prems(2) by (simp_all add: stored_def)
  moreover have "\<forall>cs\<in>set css. [] \<notin> set cs" "[] \<notin> set last_pieces" "satisfied c + ?k + length (concat (concat css)) < n"
    "n \<le> satisfied c + ?k + length (concat (concat css @ last_pieces))"
    using Cons.prems by simp_all
  ultimately obtain c' where c': "trace env (?c, []) (map (\<lambda>cs. Readable (map Received cs)) (css @ [last_pieces]))
        (c', [Reader_callback callback n, Reader_delayed_read])"
    "appended b (take (n - (satisfied c + ?k)) (concat (concat css @ last_pieces))) (buffer_read c')"
    "\<exists>left. incoming c' = map Received left \<and> concat left = drop (n - (satisfied c + ?k)) (concat (concat css @ last_pieces))"
    "read_callback_pointer c' = None"
    using Cons.IH [of ?c] by auto
  have "n - satisfied c \<ge> ?k" using k(2) by simp
  then show ?case
    using trace_append [OF t c'(1)] appended_trans [OF b c'(2)] c'(3,4) by (intro exI [of _ c']) simp
qed

end
