(* ===== verification/Frame_Correct.thy ===== *)
theory Frame_Correct
  imports Reader_Correct
begin

text \<open>
  From bytes to frames: the frame reader asks the reader for a header and then for the body that the
  header announces. Whatever the pieces in which the peer's bytes arrive, and over however many events,
  the callback for a frame is called when its last byte has arrived, with exactly the frame in the
  buffer; sizes that the connection does not allow end the connection instead.
\<close>

section \<open>Frames\<close>

text \<open>A frame that the connection accepts: its first four bytes are its length, which is within the limits.\<close>

definition legal_frame :: "amqp_connection_t \<Rightarrow> byte list \<Rightarrow> bool" where
  "legal_frame c frame \<longleftrightarrow> 8 \<le> length frame \<and> length frame < unat (max_frame_size c) \<and> length frame \<le> capacity (buffer_read c)
     \<and> capacity (buffer_read c) \<le> AMQP_BUFFER_MAX_SIZE \<and> take 4 frame = be_bytes 4 (of_nat (length frame) :: uint32)"

lemma frame_size_word:
  assumes "legal_frame c frame"
  shows "unat (of_nat (length frame) :: uint32) = length frame"
  using assms by (simp add: legal_frame_def unat_of_nat take_bit_nat_eq_self)

lemma frame_size_valid:
  assumes "legal_frame c frame"
  shows "\<not> frame_size_invalid (of_nat (length frame)) c"
proof -
  have "(of_nat (length frame) :: uint32) \<noteq> amqp_protocol_header"
  proof
    assume "(of_nat (length frame) :: uint32) = amqp_protocol_header"
    then have "unat (of_nat (length frame) :: uint32) = unat amqp_protocol_header" by simp
    then show False using assms frame_size_word [OF assms] by (auto simp: legal_frame_def)
  qed
  then show ?thesis
    using assms frame_size_word [OF assms]
    by (simp add: frame_size_invalid_def legal_frame_def word_less_nat_alt word_le_nat_alt)
qed

lemma body_size:
  assumes "legal_frame c frame"
  shows "unat (of_nat (length frame) - 8 :: uint32) = length frame - 8"
proof -
  have "(8 :: uint32) \<le> of_nat (length frame)"
    using assms frame_size_word [OF assms] by (simp add: word_le_nat_alt legal_frame_def)
  then show ?thesis using frame_size_word [OF assms] by (simp add: unat_sub)
qed

lemma frame_size_eq_8:
  assumes "legal_frame c frame"
  shows "(of_nat (length frame) = (8 :: uint32)) = (length frame = 8)"
proof
  assume "of_nat (length frame) = (8 :: uint32)"
  then have "unat (of_nat (length frame) :: uint32) = unat (8 :: uint32)" by simp
  then show "length frame = 8" using frame_size_word [OF assms] by simp
qed simp

lemma read_size_word:
  assumes "buffer_ok b" and "4 \<le> limit_size b" and "take 4 (contents b) = be_bytes 4 w"
  shows "amqp_buffer_read_uint32 b 0 = Ret w"
proof -
  have "map (byte_at b) [0..<4] = take 4 (contents b)" using assms(2) by (simp add: contents_def take_map)
  then show ?thesis
    using ntoh_ok(2) [OF assms(1), of 0] buffer_ok_bounds(3) [OF assms(1)] word_of_be_bytes [of 4 w] assms(3)
    by (simp add: amqp_buffer_read_uint32_def)
qed

lemma read_size:
  assumes "legal_frame c frame" and "buffer_ok b" and "contents b = take 8 frame"
  shows "amqp_buffer_read_uint32 b 0 = Ret (of_nat (length frame))"
proof (rule read_size_word [OF assms(2)])
  show "4 \<le> limit_size b" using assms(1,3) length_contents [of b] by (simp add: legal_frame_def)
  show "take 4 (contents b) = be_bytes 4 (of_nat (length frame) :: uint32)" using assms(1,3) by (simp add: legal_frame_def)
qed

section \<open>A frame in progress\<close>

definition assembling :: "frame_available_callback \<Rightarrow> byte list \<Rightarrow> byte list \<Rightarrow> amqp_connection_t \<Rightarrow> bool" where
  "assembling callback frame got c \<longleftrightarrow> \<not> destroyed c \<and> legal_frame c frame \<and> frame_available_pointer c = Some callback
     \<and> contents (buffer_read c) = got \<and> length got < length frame \<and> take (length got) frame = got
     \<and> (frame_name c = Frame_reading_frame_header \<and> reading 8 Frame_read_complete c \<and> satisfied c = length got
        \<or> frame_name c = Frame_reading_frame_body \<and> reading (length frame - 8) Frame_read_complete c
          \<and> length got = satisfied c + 8 \<and> io_frame_size c = of_nat (length frame))"

text \<open>The frame is complete: the callback is the next call.\<close>

definition assembled :: "frame_available_callback \<Rightarrow> byte list \<Rightarrow> byte list \<Rightarrow> amqp_connection_t \<times> call list \<Rightarrow> bool" where
  "assembled callback frame extra s \<longleftrightarrow> (\<exists>c k left. s = (c, [Frame_available callback, k]) \<and> k \<in> {Reader_delayed_read, Reader_delayed_loop}
     \<and> contents (buffer_read c) = frame \<and> frame_name c = Frame_enabled \<and> incoming c = map Received left \<and> concat left = extra)"

lemma appended_capacity: "appended b bs b' \<Longrightarrow> capacity b' = capacity b"
  by (simp add: appended_def)

text \<open>The rest of a body arrives.\<close>

lemma body_complete:
  assumes "legal_frame c frame" and "\<not> destroyed c" and "frame_name c = Frame_reading_frame_body"
    and "io_frame_size c = of_nat (length frame)" and "frame_available_pointer c = Some callback"
  shows "step env (c, Reader_callback Frame_read_complete (length frame - 8) # ks)
    (c\<lparr>frame_name := Frame_enabled\<rparr>, Frame_available callback # ks)"
  using assms stepI [of env "Reader_callback Frame_read_complete (length frame - 8)" c _ "[Frame_available callback]" ks]
  by (simp add: handle_def call_read_callback_def frame_read_done_def frame_read_done_while_reading_frame_body_def body_size
      frame_call_available_def)

lemma header_complete:
  assumes "legal_frame c frame" and "\<not> destroyed c" and "frame_name c = Frame_reading_frame_header"
    and "frame_available_pointer c = Some callback" and "buffer_ok (buffer_read c)" and "contents (buffer_read c) = take 8 frame"
  shows "step env (c, Reader_callback Frame_read_complete 8 # ks)
    (if length frame = 8 then (c\<lparr>io_frame_size := of_nat (length frame), frame_name := Frame_enabled\<rparr>, Frame_available callback # ks)
     else (c\<lparr>io_frame_size := of_nat (length frame), frame_name := Frame_reading_frame_body\<rparr>,
           Reader_commence_read (length frame - 8) Frame_read_complete # ks))"
proof -
  have legal: "legal_frame (c\<lparr>io_frame_size := of_nat (length frame)\<rparr>) frame" using assms(1) by (simp add: legal_frame_def)
  have "handle env (Reader_callback Frame_read_complete 8) c
    = Ret (if length frame = 8 then (c\<lparr>io_frame_size := of_nat (length frame), frame_name := Frame_enabled\<rparr>, [Frame_available callback])
           else (c\<lparr>io_frame_size := of_nat (length frame), frame_name := Frame_reading_frame_body\<rparr>,
                 [Reader_commence_read (length frame - 8) Frame_read_complete]))"
    using assms read_size [OF assms(1,5,6)] frame_size_valid [OF legal] body_size [OF assms(1)] frame_size_eq_8 [OF assms(1)]
    by (auto simp: handle_def call_read_callback_def frame_read_done_def frame_read_done_while_reading_frame_header_def
        frame_call_available_def)
  then show ?thesis
    using stepI [of env "Reader_callback Frame_read_complete 8" c _ _ ks] by (simp split: if_splits)
qed

section \<open>Bytes arrive\<close>

text \<open>The frame is not complete yet.\<close>

lemma part_arrives:
  assumes "assembling callback frame got c" and "reading n Frame_read_complete c" and "incoming c = map Received css" and "[] \<notin> set css"
    and "satisfied c + length (concat css) < n" and "length (got @ concat css) < length frame"
    and "take (length (got @ concat css)) frame = got @ concat css"
  shows "\<exists>c'. reader_continue_read_operation k c = Ret (c', []) \<and> assembling callback frame (got @ concat css) c' \<and> read_watcher c' = Some True"
proof -
  obtain b where b: "appended (buffer_read c) (concat css) b"
    "reader_continue_read_operation k c = Ret ((stored b (length (concat css)) c)\<lparr>incoming := [], read_watcher := Some True\<rparr>, [])"
    by (rule continue_operation_part [OF assms(2,4,5,3)])
  let ?c = "(stored b (length (concat css)) c)\<lparr>incoming := [], read_watcher := Some True\<rparr>"
  have "reading n Frame_read_complete ?c" by (rule reading_event, rule reading_stored [OF assms(2) b(1) assms(5)])
  then have "assembling callback frame (got @ concat css) ?c"
    using assms(1,2,6,7) appended_contents [OF b(1)] appended_capacity [OF b(1)]
    by (auto simp: assembling_def legal_frame_def stored_def reading_def)
  then show ?thesis using b(2) by auto
qed

lemma body_arrives:
  assumes "assembling callback frame got c" and "frame_name c = Frame_reading_frame_body"
    and "incoming c = map Received css" and "[] \<notin> set css" and "got @ concat css = frame @ extra"
    and "k \<in> {Reader_delayed_read, Reader_delayed_loop}"
  shows "\<exists>c' ks s. reader_continue_read_operation k c = Ret (c', ks) \<and> step env (c', ks) s \<and> assembled callback frame extra s"
proof -
  let ?n = "length frame - 8"
  have a: "reading ?n Frame_read_complete c" "length got = satisfied c + 8" "\<not> destroyed c" "legal_frame c frame"
    "contents (buffer_read c) = got" "io_frame_size c = of_nat (length frame)" "frame_available_pointer c = Some callback"
    using assms(1,2) by (auto simp: assembling_def)
  have len: "length got + length (concat css) = length frame + length extra" using arg_cong [OF assms(5), of length] by simp
  then have n: "?n \<le> satisfied c + length (concat css)" "8 \<le> length frame" using a(2,4) by (auto simp: legal_frame_def)
  obtain b where b: "appended (buffer_read c) (take (?n - satisfied c) (concat css)) b"
    "reader_continue_read_operation k c = Ret (completed b (map Received (after_bytes (?n - satisfied c) css)) c,
       [Reader_callback Frame_read_complete ?n, k])"
    by (rule continue_operation_complete [OF a(1) assms(4) n(1) assms(3)])
  have d: "?n - satisfied c = length frame - length got" using a(2) by simp
  obtain tl where "frame = got @ tl" using assms(1) by (metis append_take_drop_id assembling_def)
  then have rest: "frame = got @ tl" "concat css = tl @ extra" using assms(5) by simp_all
  have split: "got @ take (?n - satisfied c) (concat css) = frame" "drop (?n - satisfied c) (concat css) = extra"
    using d rest by simp_all
  let ?c = "completed b (map Received (after_bytes (?n - satisfied c) css)) c"
  have "legal_frame ?c frame" using a(4) appended_capacity [OF b(1)] by (simp add: legal_frame_def completed_def)
  then have "step env (?c, [Reader_callback Frame_read_complete ?n, k]) (?c\<lparr>frame_name := Frame_enabled\<rparr>, [Frame_available callback, k])"
    by (rule body_complete) (use a assms(2) in \<open>simp_all add: completed_def\<close>)
  moreover have "assembled callback frame extra (?c\<lparr>frame_name := Frame_enabled\<rparr>, [Frame_available callback, k])"
    using split appended_contents [OF b(1)] a(5) assms(6) concat_after_bytes [of "?n - satisfied c" css]
    by (auto simp: assembled_def completed_def)
  ultimately show ?thesis using b(2) by blast
qed

text \<open>The header is complete: the callback of a frame without a body, or the read of the body, which is queued.\<close>

lemma queue_body:
  assumes "\<not> destroyed c" and "reader_name c = Reader_reading" and "read_callback_pointer c = None" and "\<not> read_is_queued c"
  shows "step env (c, Reader_commence_read n Frame_read_complete # ks) (reader_queue_read_operation n Frame_read_complete c, ks)"
  using assms stepI [of env "Reader_commence_read n Frame_read_complete" c _ "[]" ks]
  by (simp add: handle_def reader_commence_read_def reader_commence_read_while_reading_def)

lemma delayed_read_starts:
  assumes "\<not> destroyed c" and "reader_name c = Reader_reading" and "read_is_queued c"
    and "k \<in> {Reader_delayed_read, Reader_delayed_loop}"
  shows "handle env k c = reader_continue_read_operation Reader_delayed_loop c"
proof -
  have "c\<lparr>reader_name := Reader_reading\<rparr> = c" using assms(2) by (cases c) simp
  then have "reader_delayed_read_while_reading c = reader_continue_read_operation Reader_delayed_loop c"
    using assms(3) by (metis reader_delayed_read_while_reading_def)
  then show ?thesis using assms by (auto simp: handle_def reader_delayed_read_def)
qed

lemma header_arrives:
  assumes "assembling callback frame got c" and "frame_name c = Frame_reading_frame_header"
    and "incoming c = map Received css" and "[] \<notin> set css" and "8 \<le> length (got @ concat css)"
    and "take 8 (got @ concat css) = take 8 frame" and "k \<in> {Reader_delayed_read, Reader_delayed_loop}"
  shows "\<exists>c1 c2 left. reader_continue_read_operation k c = Ret (c1, [Reader_callback Frame_read_complete 8, k])
    \<and> contents (buffer_read c2) = take 8 frame \<and> incoming c2 = map Received left \<and> [] \<notin> set left \<and> concat left = drop 8 (got @ concat css)
    \<and> (if length frame = 8
       then step env (c1, [Reader_callback Frame_read_complete 8, k]) (c2, [Frame_available callback, k]) \<and> frame_name c2 = Frame_enabled
       else (step env)\<^sup>*\<^sup>* (c1, [Reader_callback Frame_read_complete 8, k]) (c2, [k]) \<and> assembling callback frame (take 8 frame) c2
         \<and> frame_name c2 = Frame_reading_frame_body \<and> handle env k c2 = reader_continue_read_operation Reader_delayed_loop c2)"
proof -
  have a: "reading 8 Frame_read_complete c" "length got = satisfied c" "\<not> destroyed c" "legal_frame c frame"
    "contents (buffer_read c) = got" "frame_available_pointer c = Some callback" "limit_size (buffer_read c) = satisfied c"
    using assms(1,2) length_contents [of "buffer_read c"] by (auto simp: assembling_def)
  have n: "8 \<le> satisfied c + length (concat css)" "satisfied c < 8" using assms(5) a(1,2) by (auto simp: reading_def)
  let ?left = "after_bytes (8 - satisfied c) css"
  obtain b where b: "appended (buffer_read c) (take (8 - satisfied c) (concat css)) b"
    "reader_continue_read_operation k c = Ret (completed b (map Received ?left) c, [Reader_callback Frame_read_complete 8, k])"
    by (rule continue_operation_complete [OF a(1) assms(4) n(1) assms(3)])
  let ?c = "completed b (map Received ?left) c"
  have cont: "contents b = take 8 frame" using appended_contents [OF b(1)] a(2,5) n(2) assms(6) by simp
  have left: "[] \<notin> set ?left" "concat ?left = drop 8 (got @ concat css)"
    using after_bytes_nonempty [OF assms(4)] concat_after_bytes [of "8 - satisfied c" css] a(2) n(2) by simp_all
  have legal: "legal_frame ?c frame" "buffer_ok b" "capacity b = capacity (buffer_read c)"
    using a(4) appended_capacity [OF b(1)] b(1) by (simp_all add: legal_frame_def completed_def appended_def)
  have h: "step env (?c, [Reader_callback Frame_read_complete 8, k])
    (if length frame = 8 then (?c\<lparr>io_frame_size := of_nat (length frame), frame_name := Frame_enabled\<rparr>, [Frame_available callback, k])
     else (?c\<lparr>io_frame_size := of_nat (length frame), frame_name := Frame_reading_frame_body\<rparr>,
           [Reader_commence_read (length frame - 8) Frame_read_complete, k]))"
    by (rule header_complete [OF legal(1)]) (use a assms(2) cont legal(2) in \<open>simp_all add: completed_def\<close>)
  show ?thesis
  proof (cases "length frame = 8")
    case True
    then show ?thesis using b(2) cont left h
      by (intro exI [of _ ?c] exI [of _ "?c\<lparr>io_frame_size := of_nat (length frame), frame_name := Frame_enabled\<rparr>"] exI [of _ ?left])
        (simp add: completed_def)
  next
    case False
    let ?c1 = "?c\<lparr>io_frame_size := of_nat (length frame), frame_name := Frame_reading_frame_body\<rparr>"
    let ?c2 = "reader_queue_read_operation (length frame - 8) Frame_read_complete ?c1"
    have long: "8 < length frame" "length frame \<le> capacity b" using legal a(4) False by (auto simp: legal_frame_def)
    have "limit_size b = 8" using cont length_contents [of b] long by simp
    then have "reading (length frame - 8) Frame_read_complete ?c2"
      using a(1) long legal(2) by (simp add: reading_def reader_queue_read_operation_def completed_def)
    then have asm: "assembling callback frame (take 8 frame) ?c2"
      using legal(1) a(3,6) long(1) cont
      by (simp add: assembling_def legal_frame_def reader_queue_read_operation_def completed_def)
    have "step env (?c1, [Reader_commence_read (length frame - 8) Frame_read_complete, k]) (?c2, [k])"
      by (rule queue_body) (use a(1,3) in \<open>simp_all add: reading_def completed_def\<close>)
    then have "(step env)\<^sup>*\<^sup>* (?c, [Reader_callback Frame_read_complete 8, k]) (?c2, [k])"
      using h False by (auto intro: converse_rtranclp_into_rtranclp)
    moreover have "handle env k ?c2 = reader_continue_read_operation Reader_delayed_loop ?c2"
      by (rule delayed_read_starts) (use a(1,3) assms(7) in \<open>simp_all add: reading_def reader_queue_read_operation_def completed_def\<close>)
    ultimately show ?thesis using b(2) cont left asm False
      by (intro exI [of _ ?c] exI [of _ ?c2] exI [of _ ?left]) (simp add: reader_queue_read_operation_def completed_def)
  qed
qed

lemma bytes_arrive:
  assumes "assembling callback frame got c" and "incoming c = map Received css" and "[] \<notin> set css"
    and "length (got @ concat css) < length frame" and "take (length (got @ concat css)) frame = got @ concat css"
    and "k \<in> {Reader_delayed_read, Reader_delayed_loop}"
  shows "\<exists>c1 ks1 c'. reader_continue_read_operation k c = Ret (c1, ks1) \<and> (step env)\<^sup>*\<^sup>* (c1, ks1) (c', [])
    \<and> assembling callback frame (got @ concat css) c' \<and> read_watcher c' = Some True"
proof -
  consider n where "reading n Frame_read_complete c" "satisfied c + length (concat css) < n"
    | "frame_name c = Frame_reading_frame_header" "8 \<le> length (got @ concat css)"
    using assms(1,4) by (cases "8 \<le> length (got @ concat css)") (auto simp: assembling_def)
  then show ?thesis
  proof cases
    case 1
    then show ?thesis using part_arrives [OF assms(1) 1(1) assms(2,3) 1(2) assms(4,5)] by blast
  next
    case 2
    have "take 8 (got @ concat css) = take 8 frame" using 2(2) assms(5) by (metis min.absorb1 take_take)
    then obtain c1 c2 left where h: "reader_continue_read_operation k c = Ret (c1, [Reader_callback Frame_read_complete 8, k])"
      "incoming c2 = map Received left" "[] \<notin> set left" "concat left = drop 8 (got @ concat css)"
      "(step env)\<^sup>*\<^sup>* (c1, [Reader_callback Frame_read_complete 8, k]) (c2, [k])" "assembling callback frame (take 8 frame) c2"
      "frame_name c2 = Frame_reading_frame_body" "handle env k c2 = reader_continue_read_operation Reader_delayed_loop c2"
      using header_arrives [OF assms(1) 2(1) assms(2,3) 2(2) _ assms(6), of env] 2(2) assms(4) by auto
    have all: "take 8 frame @ concat left = got @ concat css" using h(4) \<open>take 8 (got @ concat css) = take 8 frame\<close> by (metis append_take_drop_id)
    have sat: "reading (length frame - 8) Frame_read_complete c2" "length (take 8 frame) = satisfied c2 + 8"
      using h(6,7) by (auto simp: assembling_def)
    have "length (take 8 frame) + length (concat left) = length (got @ concat css)"
      using arg_cong [OF all, of length] by (simp only: length_append)
    with sat(2) assms(4) have "satisfied c2 + length (concat left) < length frame - 8" by linarith
    then obtain c' where "handle env k c2 = Ret (c', [])" "assembling callback frame (got @ concat css) c'" "read_watcher c' = Some True"
      using part_arrives [OF h(6) sat(1) h(2,3)] all h(8) assms(4,5) by auto
    moreover from this(1) have "step env (c2, [k]) (c', [])" using stepI [of env k c2 c' "[]" "[]"] by simp
    ultimately show ?thesis using h(1,5) by (meson rtranclp.rtrancl_into_rtrancl)
  qed
qed

lemma last_bytes_arrive:
  assumes "assembling callback frame got c" and "incoming c = map Received css" and "[] \<notin> set css"
    and "got @ concat css = frame @ extra" and "k \<in> {Reader_delayed_read, Reader_delayed_loop}"
  shows "\<exists>c1 ks1 s. reader_continue_read_operation k c = Ret (c1, ks1) \<and> (step env)\<^sup>*\<^sup>* (c1, ks1) s \<and> assembled callback frame extra s"
proof (cases "frame_name c = Frame_reading_frame_body")
  case True
  then show ?thesis using body_arrives [OF assms(1) True assms(2-5), of env] by blast
next
  case False
  then have hd: "frame_name c = Frame_reading_frame_header" "8 \<le> length frame" using assms(1) by (auto simp: assembling_def legal_frame_def)
  then have eq: "8 \<le> length (got @ concat css)" "take 8 (got @ concat css) = take 8 frame" using assms(4) by simp_all
  obtain c1 c2 left where h: "reader_continue_read_operation k c = Ret (c1, [Reader_callback Frame_read_complete 8, k])"
    "contents (buffer_read c2) = take 8 frame" "incoming c2 = map Received left" "[] \<notin> set left" "concat left = drop 8 (got @ concat css)"
    "if length frame = 8
     then step env (c1, [Reader_callback Frame_read_complete 8, k]) (c2, [Frame_available callback, k]) \<and> frame_name c2 = Frame_enabled
     else (step env)\<^sup>*\<^sup>* (c1, [Reader_callback Frame_read_complete 8, k]) (c2, [k]) \<and> assembling callback frame (take 8 frame) c2
       \<and> frame_name c2 = Frame_reading_frame_body \<and> handle env k c2 = reader_continue_read_operation Reader_delayed_loop c2"
    using header_arrives [OF assms(1) hd(1) assms(2,3) eq assms(5), of env] by auto
  show ?thesis
  proof (cases "length frame = 8")
    case True
    have "assembled callback frame extra (c2, [Frame_available callback, k])"
      using h(2,3,5,6) True assms(4,5) by (auto simp: assembled_def)
    moreover have "(step env)\<^sup>*\<^sup>* (c1, [Reader_callback Frame_read_complete 8, k]) (c2, [Frame_available callback, k])" using h(6) True by auto
    ultimately show ?thesis using h(1) by blast
  next
    case False
    then have body: "assembling callback frame (take 8 frame) c2" "frame_name c2 = Frame_reading_frame_body"
      "handle env k c2 = reader_continue_read_operation Reader_delayed_loop c2"
      and st: "(step env)\<^sup>*\<^sup>* (c1, [Reader_callback Frame_read_complete 8, k]) (c2, [k])" using h(6) by simp_all
    have all: "take 8 frame @ concat left = frame @ extra" using h(5) assms(4) hd(2) by simp
    obtain c' ks s where "handle env k c2 = Ret (c', ks)" "step env (c', ks) s" "assembled callback frame extra s"
      using body_arrives [OF body(1,2) h(3,4) all, of Reader_delayed_loop env] body(3) by auto
    moreover from this(1) have "step env (c2, [k]) (c', ks)" using stepI [of env k c2 c' ks "[]"] by simp
    ultimately show ?thesis using h(1) st by (meson rtranclp.rtrancl_into_rtrancl)
  qed
qed

section \<open>Events\<close>

abbreviation readable_pieces :: "byte list list \<Rightarrow> event" where
  "readable_pieces cs \<equiv> Readable (map Received cs)"

lemma assembling_event:
  assumes "assembling callback frame got c"
  shows "assembling callback frame got (c\<lparr>incoming := rs, read_watcher := Some w\<rparr>)"
  using assms by (auto simp: assembling_def legal_frame_def reading_def)

lemma event_starts_read:
  assumes "assembling callback frame got c" and "read_watcher c = Some True"
    and "reader_continue_read_operation Reader_delayed_read (c\<lparr>incoming := rs, read_watcher := Some False\<rparr>) = Ret (c1, ks1)"
    and "(step env)\<^sup>*\<^sup>* (c1, ks1) s"
  shows "trace env (c, []) [Readable rs] s"
proof -
  obtain n where n: "reading n Frame_read_complete c" and d: "\<not> destroyed c" using assms(1) by (auto simp: assembling_def)
  have "handle env Reader_continue_read (c\<lparr>incoming := rs\<rparr>) = Ret (c1, ks1)"
    using readable_event [OF n] assms(3) d by (simp add: handle_def)
  from stepI [OF this, of "[]"] have "(step env)\<^sup>*\<^sup>* (c\<lparr>incoming := rs\<rparr>, [Reader_continue_read]) s"
    using assms(4) by (auto intro: converse_rtranclp_into_rtranclp)
  then show ?thesis
    using trace.trace_event [OF d event_step.readable [OF assms(2)]] trace_steps trace.trace_done by blast
qed

lemma frame_over_events:
  assumes "assembling callback frame got c" and "read_watcher c = Some True"
    and "\<forall>cs \<in> set css. [] \<notin> set cs" and "[] \<notin> set last_pieces"
    and "length (got @ concat (concat css)) < length frame" and "got @ concat (concat css) @ concat last_pieces = frame @ extra"
  shows "\<exists>s. trace env (c, []) (map readable_pieces (css @ [last_pieces])) s \<and> assembled callback frame extra s"
  using assms
proof (induction css arbitrary: got c)
  case Nil
  let ?c = "c\<lparr>incoming := map Received last_pieces, read_watcher := Some False\<rparr>"
  have "assembling callback frame got ?c" by (rule assembling_event [OF Nil.prems(1)])
  from last_bytes_arrive [OF this _ Nil.prems(4), of extra Reader_delayed_read env] Nil.prems(6)
  obtain c1 ks1 s where s: "reader_continue_read_operation Reader_delayed_read ?c = Ret (c1, ks1)" "(step env)\<^sup>*\<^sup>* (c1, ks1) s"
    "assembled callback frame extra s" by auto
  from event_starts_read [OF Nil.prems(1,2) s(1,2)] s(3) show ?case by (intro exI [of _ s]) simp
next
  case (Cons cs css)
  let ?c = "c\<lparr>incoming := map Received cs, read_watcher := Some False\<rparr>"
  have asm: "assembling callback frame got ?c" by (rule assembling_event [OF Cons.prems(1)])
  have pre: "length (got @ concat cs) < length frame" using Cons.prems(5) by simp
  have "take (length (got @ concat cs)) (frame @ extra) = got @ concat cs" unfolding Cons.prems(6) [symmetric] by simp
  then have tk: "take (length (got @ concat cs)) frame = got @ concat cs" using pre by simp
  obtain c1 ks1 c' where c': "reader_continue_read_operation Reader_delayed_read ?c = Ret (c1, ks1)" "(step env)\<^sup>*\<^sup>* (c1, ks1) (c', [])"
    "assembling callback frame (got @ concat cs) c'" "read_watcher c' = Some True"
    using bytes_arrive [OF asm _ _ pre tk, of Reader_delayed_read env] Cons.prems(3) by auto
  have t: "trace env (c, []) [readable_pieces cs] (c', [])" by (rule event_starts_read [OF Cons.prems(1,2) c'(1,2)])
  obtain s where s: "trace env (c', []) (map readable_pieces (css @ [last_pieces])) s" "assembled callback frame extra s"
    using Cons.IH [OF c'(3,4)] Cons.prems by auto
  from trace_append [OF t s(1)] s(2) show ?case by (intro exI [of _ s]) simp
qed

section \<open>From the request to the frame\<close>

definition frame_reader_ready :: "amqp_connection_t \<Rightarrow> bool" where
  "frame_reader_ready c \<longleftrightarrow> \<not> destroyed c \<and> frame_name c = Frame_enabled \<and> reader_name c = Reader_enabled
     \<and> read_watcher c \<noteq> None \<and> buffer_ok (buffer_read c)"

lemma frame_read_starts:
  assumes "frame_reader_ready c" and "legal_frame c frame"
  obtains c1 where "step env (c, [Frame_read callback]) (c1, [Reader_commence_read 8 Frame_read_complete])"
    and "handle env (Reader_commence_read 8 Frame_read_complete) c1 = reader_continue_read_operation Reader_delayed_read
          (reader_queue_read_operation 8 Frame_read_complete (c1\<lparr>reader_name := Reader_reading\<rparr>))"
    and "assembling callback frame [] (reader_queue_read_operation 8 Frame_read_complete (c1\<lparr>reader_name := Reader_reading\<rparr>))"
    and "incoming c1 = incoming c"
proof
  let ?c1 = "c\<lparr>buffer_read := amqp_buffer_reset (buffer_read c), frame_name := Frame_reading_frame_header, frame_available_pointer := Some callback\<rparr>"
  show "step env (c, [Frame_read callback]) (?c1, [Reader_commence_read 8 Frame_read_complete])"
    using stepI [of env "Frame_read callback" c ?c1 "[Reader_commence_read 8 Frame_read_complete]" "[]"] assms(1)
    by (simp add: handle_def frame_reader_ready_def frame_read_def frame_read_while_enabled_def)
  show "handle env (Reader_commence_read 8 Frame_read_complete) ?c1 = reader_continue_read_operation Reader_delayed_read
      (reader_queue_read_operation 8 Frame_read_complete (?c1\<lparr>reader_name := Reader_reading\<rparr>))"
    using assms(1) by (simp add: handle_def frame_reader_ready_def reader_commence_read_def reader_commence_read_while_enabled_def)
  have ok: "buffer_ok (buffer_read c)" "8 \<le> capacity (buffer_read c)"
    using assms(1) buffer_ok_bounds(3) [of "buffer_read c"] by (simp_all add: frame_reader_ready_def)
  have b: "buffer_ok (amqp_buffer_reset (buffer_read c))" using ok(1) by (simp add: buffer_ok_def amqp_buffer_reset_def Let_def)
  then show "assembling callback frame [] (reader_queue_read_operation 8 Frame_read_complete (?c1\<lparr>reader_name := Reader_reading\<rparr>))"
    using assms ok(2)
    by (auto simp: assembling_def frame_reader_ready_def legal_frame_def reading_def reader_queue_read_operation_def amqp_buffer_reset_def contents_def)
qed simp

lemma frame_assembled:
  assumes "frame_reader_ready c" and "legal_frame c frame" and "incoming c = map Received first"
    and "\<forall>cs \<in> set (first # css @ [last_pieces]). [] \<notin> set cs"
    and "length (concat first @ concat (concat css)) < length frame"
    and "concat first @ concat (concat css) @ concat last_pieces = frame @ extra"
  shows "\<exists>s. trace env (c, [Frame_read callback]) (map readable_pieces (css @ [last_pieces])) s \<and> assembled callback frame extra s"
proof -
  obtain c1 where c1: "step env (c, [Frame_read callback]) (c1, [Reader_commence_read 8 Frame_read_complete])"
    "handle env (Reader_commence_read 8 Frame_read_complete) c1 = reader_continue_read_operation Reader_delayed_read
        (reader_queue_read_operation 8 Frame_read_complete (c1\<lparr>reader_name := Reader_reading\<rparr>))"
    "assembling callback frame [] (reader_queue_read_operation 8 Frame_read_complete (c1\<lparr>reader_name := Reader_reading\<rparr>))"
    "incoming c1 = incoming c"
    by (rule frame_read_starts [OF assms(1,2)])
  let ?c = "reader_queue_read_operation 8 Frame_read_complete (c1\<lparr>reader_name := Reader_reading\<rparr>)"
  have inc: "incoming ?c = map Received first" using c1(4) assms(3) by (simp add: reader_queue_read_operation_def)
  have pre: "length ([] @ concat first) < length frame" using assms(5) by simp
  have "take (length ([] @ concat first)) (frame @ extra) = [] @ concat first" unfolding assms(6) [symmetric] by simp
  then have tk: "take (length ([] @ concat first)) frame = [] @ concat first" using pre by simp
  obtain c2 ks2 c' where c': "reader_continue_read_operation Reader_delayed_read ?c = Ret (c2, ks2)" "(step env)\<^sup>*\<^sup>* (c2, ks2) (c', [])"
    "assembling callback frame (concat first) c'" "read_watcher c' = Some True"
    using bytes_arrive [OF c1(3) inc _ pre tk, of Reader_delayed_read env] assms(4) by auto
  have "step env (c1, [Reader_commence_read 8 Frame_read_complete]) (c2, ks2)"
    using stepI [of env "Reader_commence_read 8 Frame_read_complete" c1 c2 ks2 "[]"] c1(2) c'(1) by simp
  then have "(step env)\<^sup>*\<^sup>* (c, [Frame_read callback]) (c', [])"
    using c1(1) c'(2) by (meson converse_rtranclp_into_rtranclp)
  moreover obtain s where "trace env (c', []) (map readable_pieces (css @ [last_pieces])) s" "assembled callback frame extra s"
    using frame_over_events [OF c'(3,4), of css last_pieces extra env] assms(4-6) by auto
  ultimately show ?thesis using trace_steps by blast
qed

end
