(* ===== verification/Writer_Correct.thy ===== *)
theory Writer_Correct
  imports Machine
begin

text \<open>
  The writer sends what it is given: however few bytes each call of \<open>sendmsg\<close> takes, and over however many
  events, the bytes of the buffer go out once and in order, and the writer is ready for the next
  buffer exactly when the last one has gone.
\<close>

section \<open>A vectored write\<close>

definition sendable :: "amqp_buffer_t \<Rightarrow> bool" where
  "sendable b \<longleftrightarrow> buffer_ok b \<and> limit_index b \<le> limit_size b"

lemma length_unread [simp]: "length (unread b) = limit_size b - limit_index b"
  by (simp add: unread_def)

lemma unread_Nil: "unread b = [] \<longleftrightarrow> limit_size b \<le> limit_index b"
  by (metis length_0_conv length_unread diff_is_0_eq)

lemma unread_range: "unread b = map (byte_at b) [limit_index b..<limit_size b]"
  by (simp add: unread_def contents_def drop_map drop_upt)

lemma unread_advance: "unread (b\<lparr>limit_index := limit_index b + n\<rparr>) = drop n (unread b)"
  by (simp add: unread_def add.commute)

lemma available_unread: "sendable b \<Longrightarrow> amqp_buffer_available b = int (length (unread b))"
  using buffer_ok_bounds(1,2) [of b]
  by (auto simp: sendable_def amqp_buffer_available_def of_nat_diff signed_take_bit_int_eq_self_iff)

lemma sendable_advance: "sendable b \<Longrightarrow> n \<le> length (unread b) \<Longrightarrow> sendable (b\<lparr>limit_index := limit_index b + n\<rparr>)"
  by (auto simp: sendable_def)

lemma advance_read_index:
  assumes "sendable b" and "n \<le> length (unread b)"
  shows "amqp_buffer_advance_read_index b n = b\<lparr>limit_index := limit_index b + n\<rparr>"
proof -
  have "limit_index b + n \<le> AMQP_BUFFER_MAX_SIZE"
    using assms buffer_ok_bounds [of b] unfolding sendable_def length_unread by linarith
  then show ?thesis by (simp add: amqp_buffer_advance_read_index_def)
qed

lemma gather: "\<forall>i \<in> set is. amqp_unchecked_getc_at b i = Ret (byte_at b i) \<Longrightarrow>
  foldr (\<lambda>i r. run_bind (amqp_unchecked_getc_at b i) (\<lambda>x. run_bind r (\<lambda>xs. Ret (x # xs)))) is (Ret []) = Ret (map (byte_at b) is)"
  by (induction "is") auto

lemma read_io_vec_ok:
  assumes "sendable b" and "unread b \<noteq> []"
  obtains vs where "amqp_buffer_read_io_vec b = Ret vs" and "iov_positions vs = [limit_index b..<limit_size b]"
proof -
  have lt: "limit_index b < limit_size b" "limit_size b \<le> capacity b" "capacity b \<le> AMQP_BUFFER_MAX_SIZE"
    using assms buffer_ok_bounds [of b] by (auto simp: sendable_def unread_def)
  then have "limit_index b + (limit_size b - limit_index b) \<le> AMQP_BUFFER_MAX_SIZE" "limit_index b < AMQP_BUFFER_MAX_SIZE"
    "limit_size b - limit_index b \<le> capacity b - limit_index b" by linarith+
  then show ?thesis
    using fill_io_vec_ok [of "limit_index b" "limit_size b - limit_index b"] that lt(1)
    by (auto simp: amqp_buffer_read_io_vec_def Let_def buffer_simps)
qed

lemma sendmsg_ok:
  assumes "sendable b" and "iov_positions vs = [limit_index b..<limit_size b]"
  shows "sendmsg_bytes b vs n = Ret (take n (unread b))"
proof -
  have "\<forall>i \<in> set (take n [limit_index b..<limit_size b]). amqp_unchecked_getc_at b i = Ret (byte_at b i)"
    using assms(1) buffer_ok_bounds(1) [of b] by (auto simp: sendable_def dest!: in_set_takeD intro!: unchecked_getc_at_ok)
  then show ?thesis unfolding sendmsg_bytes_def assms(2) by (simp only: gather) (simp add: unread_range take_map)
qed

section \<open>The loop\<close>

lemma write_turn:
  assumes "sendable b" and "unread b \<noteq> []"
  shows "writer_write_loop (Sent k # rest) b sent
    = writer_write_loop rest (b\<lparr>limit_index := limit_index b + min k (length (unread b))\<rparr>) (sent @ take k (unread b))"
proof -
  obtain vs where vs: "amqp_buffer_read_io_vec b = Ret vs" "iov_positions vs = [limit_index b..<limit_size b]"
    by (rule read_io_vec_ok [OF assms])
  have "take (min k (length (unread b))) (unread b) = take k (unread b)" by (simp add: min_def)
  moreover have "0 < length (unread b)" using assms(2) by (simp only: length_greater_0_conv not_False_eq_True)
  moreover have "min k (length (unread b)) \<le> length (unread b)" by simp
  ultimately show ?thesis
    by (subst writer_write_loop.simps)
      (simp add: available_unread [OF assms(1)] vs(1) sendmsg_ok [OF assms(1) vs(2)] advance_read_index [OF assms(1)] del: length_unread)
qed

lemma write_empty: "sendable b \<Longrightarrow> unread b = [] \<Longrightarrow> writer_write_loop results b sent = Ret (b, sent, results, None)"
  by (subst writer_write_loop.simps) (simp add: available_unread)

lemma write_part:
  assumes "sendable b" and "sum_list ks < length (unread b)"
  shows "writer_write_loop (map Sent ks) b sent
    = Ret (b\<lparr>limit_index := limit_index b + sum_list ks\<rparr>, sent @ take (sum_list ks) (unread b), [], Some Write_would_block)"
  using assms
proof (induction ks arbitrary: b sent)
  case Nil
  obtain vs where "amqp_buffer_read_io_vec b = Ret vs" using read_io_vec_ok [of b] Nil by (auto simp: unread_Nil)
  then show ?case using Nil by (subst writer_write_loop.simps) (simp add: available_unread del: length_unread)
next
  case (Cons k ks)
  let ?b = "b\<lparr>limit_index := limit_index b + k\<rparr>"
  have k: "k \<le> length (unread b)" "unread b \<noteq> []" "min k (length (unread b)) = k" using Cons.prems(2) by (auto simp: unread_Nil)
  have b: "sendable ?b" "sum_list ks < length (unread ?b)"
    using sendable_advance [OF Cons.prems(1) k(1)] Cons.prems(2) by (simp_all add: unread_advance)
  show ?case
    using write_turn [OF Cons.prems(1) k(2), of k "map Sent ks" sent] Cons.IH [OF b] k(3)
    by (simp add: unread_advance take_add [symmetric] add.assoc del: length_unread)
qed

lemma write_all_of_it:
  assumes "sendable b" and "length (unread b) \<le> sum_list ks"
  shows "\<exists>rest. writer_write_loop (map Sent ks) b sent = Ret (b\<lparr>limit_index := limit_size b\<rparr>, sent @ unread b, map Sent rest, None)"
  using assms
proof (induction ks arbitrary: b sent)
  case Nil
  then have "limit_index b = limit_size b" "unread b = []" by (auto simp: sendable_def unread_Nil)
  then show ?case using write_empty [OF Nil.prems(1), of "[]" sent] Nil by (intro exI [of _ "[]"]) simp
next
  case (Cons k ks)
  show ?case
  proof (cases "unread b = []")
    case True
    then have "limit_index b = limit_size b" using Cons.prems(1) True by (auto simp: sendable_def unread_Nil)
    then show ?thesis using write_empty [OF Cons.prems(1) True, of "map Sent (k # ks)" sent] True by (intro exI [of _ "k # ks"]) simp
  next
    case False
    let ?n = "min k (length (unread b))"
    let ?b = "b\<lparr>limit_index := limit_index b + ?n\<rparr>"
    have b: "sendable ?b" "length (unread ?b) \<le> sum_list ks" "take k (unread b) @ unread ?b = unread b"
      using sendable_advance [OF Cons.prems(1), of ?n] Cons.prems(2) by (auto simp: unread_advance min_def simp del: length_unread)
    show ?thesis
      using write_turn [OF Cons.prems(1) False, of k "map Sent ks" sent] Cons.IH [OF b(1,2), of "sent @ take k (unread b)"] b(3)
      by auto
  qed
qed

section \<open>The queue\<close>

text \<open>The writer is sending a buffer, the only one in the queue; the queue without it.\<close>

definition busy :: "amqp_buffer_t \<Rightarrow> amqp_connection_t \<Rightarrow> bool" where
  "busy b c \<longleftrightarrow> \<not> destroyed c \<and> writer_name c = Writer_writing \<and> queue_start c < length (buffer_queue c)
     \<and> buffer_queue c ! queue_start c = Some b \<and> queue_end c = writer_increment_queue_index (queue_start c)
     \<and> write_watcher c \<noteq> None \<and> sendable b"

definition sent_part :: "amqp_buffer_t \<Rightarrow> nat \<Rightarrow> amqp_connection_t \<Rightarrow> amqp_connection_t" where
  "sent_part b n c = c\<lparr>buffer_queue := (buffer_queue c)[queue_start c := Some (b\<lparr>limit_index := limit_index b + n\<rparr>)],
     outgoing := outgoing c @ take n (unread b), write_results := [], write_watcher := Some True\<rparr>"

definition sent_all :: "amqp_buffer_t \<Rightarrow> send_result list \<Rightarrow> amqp_connection_t \<Rightarrow> amqp_connection_t" where
  "sent_all b rest c = c\<lparr>buffer_queue := (buffer_queue c)[queue_start c := None], queue_start := writer_increment_queue_index (queue_start c),
     outgoing := outgoing c @ unread b, write_results := rest, last_write_time := now c\<rparr>"

lemma operation_part:
  assumes "busy b c" and "write_results c = map Sent ks" and "sum_list ks < length (unread b)"
  shows "writer_continue_write_operation c = Ret (sent_part b (sum_list ks) c, [])"
  using assms write_part [of b ks "[]"]
  by (auto simp: busy_def writer_continue_write_operation_def Let_def amqp_io_event_watcher_set_def sent_part_def simp del: length_unread)

lemma operation_all:
  assumes "busy b c" and "write_results c = map Sent ks" and "length (unread b) \<le> sum_list ks"
  obtains rest where "writer_continue_write_operation c = Ret (sent_all b (map Sent rest) c, [Writer_write_complete])"
proof -
  obtain rest where "writer_write_loop (map Sent ks) b [] = Ret (b\<lparr>limit_index := limit_size b\<rparr>, unread b, map Sent rest, None)"
    using assms write_all_of_it [of b ks "[]"] by (auto simp: busy_def simp del: length_unread)
  then have "writer_continue_write_operation c = Ret (sent_all b (map Sent rest) c, [Writer_write_complete])"
    using assms(1,2) by (cases c) (auto simp: busy_def writer_continue_write_operation_def Let_def sent_all_def
        writer_deallocate_buffer_queue_element_def simp del: length_unread)
  then show ?thesis by (rule that)
qed

lemma busy_sent_part:
  assumes "busy b c" and "n \<le> length (unread b)"
  shows "busy (b\<lparr>limit_index := limit_index b + n\<rparr>) (sent_part b n c)"
  using assms sendable_advance [of b n] by (auto simp: busy_def sent_part_def simp del: length_unread)

lemma write_complete_idle:
  assumes "busy b c"
  shows "step env (sent_all b rest c, [Writer_write_complete]) ((sent_all b rest c)\<lparr>writer_name := Writer_enabled\<rparr>, [])"
  using assms stepI [of env Writer_write_complete "sent_all b rest c" _ "[]" "[]"]
  by (simp add: handle_def busy_def sent_all_def writer_write_complete_def writer_write_complete_while_writing_def writer_at_queue_end_def)

section \<open>Events\<close>

abbreviation writable :: "nat list \<Rightarrow> event" where
  "writable ks \<equiv> Writable (map Sent ks)"

lemma busy_event: "busy b c \<Longrightarrow> busy b (c\<lparr>write_results := ws, write_watcher := Some w\<rparr>)"
  by (auto simp: busy_def)

lemma writable_event:
  assumes "busy b c" and "write_watcher c = Some True"
    and "writer_continue_write_operation (c\<lparr>write_results := ws, write_watcher := Some False\<rparr>) = Ret (c1, ks1)"
    and "(step env)\<^sup>*\<^sup>* (c1, ks1) s"
  shows "trace env (c, []) [Writable ws] s"
proof -
  have d: "\<not> destroyed c" using assms(1) by (simp add: busy_def)
  have "handle env Writer_continue_write (c\<lparr>write_results := ws\<rparr>) = Ret (c1, ks1)"
    using assms(1,3) d by (simp add: handle_def busy_def writer_continue_write_def writer_next_write_while_writing_def amqp_io_event_watcher_set_def)
  from stepI [OF this, of "[]"] have "(step env)\<^sup>*\<^sup>* (c\<lparr>write_results := ws\<rparr>, [Writer_continue_write]) s"
    using assms(4) by (auto intro: converse_rtranclp_into_rtranclp)
  then show ?thesis
    using trace.trace_event [OF d event_step.writable [OF assms(2)]] trace_steps trace.trace_done by blast
qed

text \<open>The buffer is sent, and the queue is as if it had never been there.\<close>

definition sent_completely :: "amqp_connection_t \<Rightarrow> byte list \<Rightarrow> amqp_connection_t \<Rightarrow> bool" where
  "sent_completely c bs c' \<longleftrightarrow> writer_name c' = Writer_enabled \<and> outgoing c' = outgoing c @ bs
     \<and> queue_start c' = queue_end c' \<and> buffer_queue c' = (buffer_queue c)[queue_start c := None] \<and> last_write_time c' = now c"

lemma sends_over_events:
  assumes "busy b c" and "write_watcher c = Some True"
    and "sum_list (concat kss) < length (unread b)" and "length (unread b) \<le> sum_list (concat kss @ last_ks)"
  shows "\<exists>c'. trace env (c, []) (map writable (kss @ [last_ks])) (c', []) \<and> sent_completely c (unread b) c'"
  using assms
proof (induction kss arbitrary: b c)
  case Nil
  let ?c = "c\<lparr>write_results := map Sent last_ks, write_watcher := Some False\<rparr>"
  have busy: "busy b ?c" by (rule busy_event [OF Nil.prems(1)])
  have le: "length (unread b) \<le> sum_list last_ks" using Nil.prems(4) by simp
  obtain rest where op: "writer_continue_write_operation ?c = Ret (sent_all b (map Sent rest) ?c, [Writer_write_complete])"
    by (rule operation_all [OF busy _ le]) simp_all
  let ?c' = "(sent_all b (map Sent rest) ?c)\<lparr>writer_name := Writer_enabled\<rparr>"
  have "(step env)\<^sup>*\<^sup>* (sent_all b (map Sent rest) ?c, [Writer_write_complete]) (?c', [])"
    using write_complete_idle [OF busy] by (rule r_into_rtranclp)
  from writable_event [OF Nil.prems(1,2) op this] show ?case
    using Nil.prems(1) by (intro exI [of _ ?c']) (simp add: sent_completely_def sent_all_def busy_def)
next
  case (Cons ks kss)
  let ?c = "c\<lparr>write_results := map Sent ks, write_watcher := Some False\<rparr>"
  let ?b = "b\<lparr>limit_index := limit_index b + sum_list ks\<rparr>"
  have lt: "sum_list ks < length (unread b)" using Cons.prems(3) by simp
  have busy: "busy b ?c" by (rule busy_event [OF Cons.prems(1)])
  have op: "writer_continue_write_operation ?c = Ret (sent_part b (sum_list ks) ?c, [])"
    by (rule operation_part [OF busy _ lt]) simp
  have t: "trace env (c, []) [writable ks] (sent_part b (sum_list ks) ?c, [])"
    by (rule writable_event [OF Cons.prems(1,2) op]) simp
  have next_busy: "busy ?b (sent_part b (sum_list ks) ?c)" by (rule busy_sent_part [OF busy]) (use lt in simp)
  have "write_watcher (sent_part b (sum_list ks) ?c) = Some True" by (simp add: sent_part_def)
  moreover have "sum_list (concat kss) < length (unread ?b)" "length (unread ?b) \<le> sum_list (concat kss @ last_ks)"
    using Cons.prems(3,4) by simp_all
  ultimately obtain c' where c': "trace env (sent_part b (sum_list ks) ?c, []) (map writable (kss @ [last_ks])) (c', [])"
    "sent_completely (sent_part b (sum_list ks) ?c) (unread ?b) c'"
    using Cons.IH [OF next_busy] by blast
  have "sent_completely c (unread b) c'"
    using c'(2) by (simp add: sent_completely_def sent_part_def unread_advance del: length_unread)
  then show ?case using trace_append [OF t c'(1)] by auto
qed

section \<open>From the request to the last byte\<close>

definition writer_idle :: "amqp_connection_t \<Rightarrow> bool" where
  "writer_idle c \<longleftrightarrow> \<not> destroyed c \<and> writer_name c = Writer_enabled \<and> write_watcher c \<noteq> None
     \<and> queue_start c = queue_end c \<and> queue_end c < AMQP_WRITE_QUEUE_SIZE \<and> buffer_queue c = replicate AMQP_WRITE_QUEUE_SIZE None"

lemma write_starts:
  assumes "writer_idle c" and "sendable b"
  obtains c1 where "handle env (Writer_write b) c = writer_continue_write_operation c1" and "busy b c1"
    and "write_results c1 = write_results c" and "outgoing c1 = outgoing c" and "now c1 = now c" and "queue_start c1 = queue_start c"
    and "buffer_queue c1 = (buffer_queue c)[queue_start c := Some b]"
proof
  let ?c1 = "c\<lparr>writer_name := Writer_writing, queue_end := writer_increment_queue_index (queue_end c),
    buffer_queue := (buffer_queue c)[queue_end c := Some b]\<rparr>"
  show "handle env (Writer_write b) c = writer_continue_write_operation ?c1"
    using assms(1) by (simp add: handle_def writer_idle_def writer_write_def writer_commence_write_while_enabled_def
        writer_commence_write_operation_def Let_def)
  show "busy b ?c1" using assms by (simp add: busy_def writer_idle_def)
qed (use assms(1) in \<open>simp_all add: writer_idle_def\<close>)

lemma buffer_sent:
  assumes "writer_idle c" and "sendable b" and "write_results c = map Sent first"
    and "sum_list (concat (butlast (first # kss))) < length (unread b)" and "length (unread b) \<le> sum_list (concat (first # kss))"
  shows "\<exists>c'. trace env (c, [Writer_write b]) (map writable kss) (c', [])
    \<and> writer_name c' = Writer_enabled \<and> outgoing c' = outgoing c @ unread b
    \<and> queue_start c' = queue_end c' \<and> buffer_queue c' = replicate AMQP_WRITE_QUEUE_SIZE None"
proof -
  obtain c1 where c1: "handle env (Writer_write b) c = writer_continue_write_operation c1" "busy b c1"
    "write_results c1 = map Sent first" "outgoing c1 = outgoing c" "queue_start c1 = queue_start c"
    "buffer_queue c1 = (buffer_queue c)[queue_start c := Some b]"
    using write_starts [OF assms(1,2)] assms(3) by metis
  have q: "(buffer_queue c1)[queue_start c1 := None] = replicate AMQP_WRITE_QUEUE_SIZE None"
    using c1(5,6) assms(1) by (auto simp: writer_idle_def nth_list_update intro!: nth_equalityI)
  have "\<exists>c'. trace env (c, [Writer_write b]) (map writable kss) (c', []) \<and> sent_completely c1 (unread b) c'"
  proof (cases kss rule: rev_cases)
    case Nil
    then have "length (unread b) \<le> sum_list first" using assms(5) by simp
    then obtain rest where op: "handle env (Writer_write b) c = Ret (sent_all b (map Sent rest) c1, [Writer_write_complete])"
      using operation_all [OF c1(2,3)] c1(1) by metis
    let ?c' = "(sent_all b (map Sent rest) c1)\<lparr>writer_name := Writer_enabled\<rparr>"
    have "(step env)\<^sup>*\<^sup>* (c, [Writer_write b]) (?c', [])"
      using stepI [OF op, of "[]"] write_complete_idle [OF c1(2), of env "map Sent rest"]
      by (auto intro: converse_rtranclp_into_rtranclp)
    from trace_steps [OF this trace.trace_done] c1(2) Nil show ?thesis
      by (intro exI [of _ ?c']) (simp add: sent_completely_def sent_all_def busy_def)
  next
    case (snoc kss' last_ks)
    then have sums: "sum_list first + sum_list (concat kss') < length (unread b)"
      "length (unread b) \<le> sum_list first + (sum_list (concat kss') + sum_list last_ks)"
      using assms(4,5) by (simp_all add: butlast_append del: length_unread)
    let ?c2 = "sent_part b (sum_list first) c1" and ?b = "b\<lparr>limit_index := limit_index b + sum_list first\<rparr>"
    have lt: "sum_list first < length (unread b)" using sums(1) by linarith
    have op: "handle env (Writer_write b) c = Ret (?c2, [])" using operation_part [OF c1(2,3) lt] c1(1) by simp
    have b2: "busy ?b ?c2" by (rule busy_sent_part [OF c1(2)]) (use lt in simp)
    have "write_watcher ?c2 = Some True" by (simp add: sent_part_def)
    moreover have "sum_list (concat kss') < length (unread ?b)" "length (unread ?b) \<le> sum_list (concat kss' @ last_ks)"
      using sums by simp_all
    ultimately obtain c' where c': "trace env (?c2, []) (map writable (kss' @ [last_ks])) (c', [])" "sent_completely ?c2 (unread ?b) c'"
      using sends_over_events [OF b2] by blast
    have "sent_completely c1 (unread b) c'"
      using c'(2) by (simp add: sent_completely_def sent_part_def unread_advance del: length_unread)
    then show ?thesis using trace.trace_call [OF stepI [OF op, of "[]", simplified] c'(1)] snoc by blast
  qed
  then show ?thesis using q c1(4) by (auto simp: sent_completely_def)
qed

end
