(* ===== verification/Negotiation_Correct.thy ===== *)
theory Negotiation_Correct
  imports Writer_Correct
begin

text \<open>
  The two sides of the negotiation agree: the broker answers a protocol header with the version it is
  going to speak, and the client goes on exactly when the broker accepted the version it had asked for.
\<close>

section \<open>Broker\<close>

text \<open>The version with which a broker answers; TLS is not implemented in the source.\<close>

definition server_reply :: "amqp_connection_t \<Rightarrow> uint32 \<Rightarrow> uint32" where
  "server_reply c version =
    (if version = 0 then AMQP_PREFERRED_VERSION
     else if amqp_version_protocol_id version = AMQP_SASL_PROTOCOL_ID then required_sasl c
     else if amqp_version_protocol_id version = AMQP_PROTOCOL_ID then required_amqp c
     else AMQP_PREFERRED_VERSION)"

definition server_waiting :: "amqp_connection_t \<Rightarrow> bool" where
  "server_waiting c \<longleftrightarrow> \<not> destroyed c \<and> connection_name c = Waiting_on_client_negotiation_request
     \<and> negotiator_name c = Negotiator_waiting_on_client_request \<and> request_pointer c
     \<and> sasl_name c = Sasl_initialized \<and> amqp_tunnel_name c = Tunnel_initialized"

lemmas server_defs =
  handle_def call_read_callback_def negotiator_read_done_def negotiator_read_done_while_waiting_on_client_request_def
  connection_begin_def server_begin_while_waiting_on_client_negotiation_request_def server_establish_tunnel_after_client_request_def
  server_could_not_parse_header_def server_unsupported_protocol_def server_reject_protocol_version_def server_is_protocol_valid_now_def
  sasl_accept_def sasl_tunnel_accept_while_initialized_def amqp_negotiator_choose_sasl_protocol_version_def
  amqp_tunnel_accept_def tunnel_tunnel_accept_while_initialized_def amqp_negotiator_choose_amqp_protocol_version_def
  call_reject_def connection_reject_def server_reject_while_accepting_sasl_def server_reject_while_accepting_amqp_def
  amqp_connection_failure_flag_set_def
  negotiator_send_def negotiator_send_while_waiting_to_send_server_response_def

lemma new_buffer_ok: "buffer_ok new_buffer"
  by (simp add: new_buffer_def buffer_initialize_ok)

lemma new_buffer_empty: "limit_size new_buffer = 0" "limit_index new_buffer = 0"
  by (simp_all add: new_buffer_def amqp_initialize_amqp_buffer_t_def)

lemma write_version_ok:
  obtains b where "negotiator_write_version version = Ret [Writer_write b]" and "sendable b" and "unread b = version_header version"
proof -
  obtain b where b: "amqp_negotiator_encode_version version new_buffer = Ret b" "appended new_buffer (version_header version) b"
    by (rule encode_version_ok [OF new_buffer_ok new_buffer_empty(1)])
  have "contents b = version_header version" "limit_index b = 0" "buffer_ok b"
    using appended_contents [OF b(2)] appended_index [OF b(2)] b(2) new_buffer_empty by (simp_all add: contents_def appended_def)
  then show ?thesis using b(1) that by (simp add: negotiator_write_version_def amqp_connection_write_buffer_def sendable_def unread_def)
qed


lemma server_replies:
  assumes "server_waiting c" and "header_at (buffer_read c) (version_header version)"
    and "amqp_version_protocol_id version \<noteq> AMQP_TLS_PROTOCOL_ID"
  shows "\<exists>c' b. (step env)\<^sup>*\<^sup>* (c, Reader_callback Negotiator_read_complete 8 # ks) (c', Writer_write b # Negotiator_sent # ks)
    \<and> sendable b \<and> unread b = version_header (server_reply c version)
    \<and> (connection_name c' = Sending_error_message \<longleftrightarrow> server_reply c version \<noteq> version)
    \<and> connection_name c' \<in> {Sending_error_message, Accepting_sasl, Accepting_amqp}"
proof -
  obtain b where b: "negotiator_write_version (server_reply c version) = Ret [Writer_write b]" "sendable b"
    "unread b = version_header (server_reply c version)" by (rule write_version_ok)
  have pref: "amqp_version_protocol_id AMQP_PREFERRED_VERSION = AMQP_PROTOCOL_ID" "amqp_version_protocol_id 0 = AMQP_PROTOCOL_ID"
    by (simp_all add: amqp_version_protocol_id_def)
  have dec: "amqp_negotiator_decode_version (buffer_read c) = Ret (version, (buffer_read c)\<lparr>limit_index := limit_index (buffer_read c) + 8\<rparr>)"
    by (rule decode_version_ok [OF assms(2)])
  have "\<exists>n c'. run_steps n env (c, Reader_callback Negotiator_read_complete 8 # ks) = Ret (c', Writer_write b # Negotiator_sent # ks)
    \<and> (connection_name c' = Sending_error_message \<longleftrightarrow> server_reply c version \<noteq> version)
    \<and> connection_name c' \<in> {Sending_error_message, Accepting_sasl, Accepting_amqp}"
  proof -
    consider (bad) "version = 0 \<or> amqp_version_protocol_id version \<notin> {AMQP_PROTOCOL_ID, AMQP_SASL_PROTOCOL_ID}"
      | (accepted) "version \<noteq> 0" "amqp_version_protocol_id version \<in> {AMQP_PROTOCOL_ID, AMQP_SASL_PROTOCOL_ID}" "server_reply c version = version"
      | (rejected) "version \<noteq> 0" "amqp_version_protocol_id version \<in> {AMQP_PROTOCOL_ID, AMQP_SASL_PROTOCOL_ID}" "server_reply c version \<noteq> version"
      by blast
    then show ?thesis
    proof cases
      case bad
      then have r: "server_reply c version = AMQP_PREFERRED_VERSION" "AMQP_PREFERRED_VERSION \<noteq> version" using pref by (auto simp: server_reply_def)
      then have "negotiator_write_version AMQP_PREFERRED_VERSION = Ret [Writer_write b]" using b(1) by simp
      then show ?thesis using bad assms(1,3) dec r
        by (intro exI [of _ 3]) (auto simp: eval_nat_numeral server_waiting_def server_defs)
    next
      case accepted
      then show ?thesis using assms(1) dec b(1)
        by (intro exI [of _ 4]) (auto simp: eval_nat_numeral server_waiting_def server_defs server_reply_def split: if_splits)
    next
      case rejected
      then show ?thesis using assms(1) dec b(1)
        by (intro exI [of _ 5]) (auto simp: eval_nat_numeral server_waiting_def server_defs server_reply_def split: if_splits)
    qed
  qed
  then show ?thesis using b(2,3) run_steps_step by blast
qed

section \<open>Client\<close>

definition client_waiting :: "uint32 \<Rightarrow> confirm_callback \<Rightarrow> reject_callback \<Rightarrow> amqp_connection_t \<Rightarrow> bool" where
  "client_waiting version confirm reject c \<longleftrightarrow> \<not> destroyed c \<and> negotiator_name c = Negotiator_waiting_for_broker_response
     \<and> preferred_version c = version \<and> confirm_pointer c = Some confirm \<and> handshake_reject_pointer c = Some reject"

lemma client_decides:
  assumes "client_waiting version confirm reject c" and "header_at (buffer_read c) (version_header answer)"
  obtains c' where "step env (c, Reader_callback Negotiator_read_complete 8 # ks)
    (c', (if answer = version then Confirm confirm else Handshake_reject reject answer) # ks)"
proof -
  let ?k = "if answer = version then Confirm confirm else Handshake_reject reject answer"
  have "\<exists>c'. handle env (Reader_callback Negotiator_read_complete 8) c = Ret (c', [?k])"
    using assms(1) decode_version_ok [OF assms(2)]
    by (auto simp: client_waiting_def handle_def call_read_callback_def negotiator_read_done_def
        negotiator_read_done_while_waiting_for_broker_response_def Let_def)
  then show ?thesis using stepI [of env _ c _ "[?k]" ks] that by auto
qed

lemma version_header_inj: "version_header w = version_header w' \<longleftrightarrow> w = w'"
proof
  assume "version_header w = version_header w'"
  then have "be_bytes 4 w = be_bytes 4 w'" by (simp add: version_header_def)
  then show "w = w'" using shift_in_be_bytes by metis
qed simp

lemma client_starts:
  assumes "\<not> destroyed c" and "negotiator_name c = Negotiator_initialized"
  obtains c' b where "step env (c, Negotiator_start version confirm reject # ks) (c', Writer_write b # Negotiator_started # ks)"
    and "sendable b" and "unread b = version_header version"
    and "preferred_version c' = version" "confirm_pointer c' = Some confirm" "handshake_reject_pointer c' = Some reject"
proof -
  obtain b where b: "negotiator_write_version version = Ret [Writer_write b]" "sendable b" "unread b = version_header version"
    by (rule write_version_ok)
  let ?c = "c\<lparr>preferred_version := version, confirm_pointer := Some confirm, handshake_reject_pointer := Some reject, request_pointer := False\<rparr>"
  have "handle env (Negotiator_start version confirm reject) c = Ret (?c, [Writer_write b, Negotiator_started])"
    using assms b(1) by (simp add: handle_def negotiator_start_def negotiator_start_while_initialized_def)
  from stepI [OF this, of ks] show ?thesis using that [of ?c b] b(2,3) by simp
qed

end
