(* ===== verification/Connection_Invariant.thy ===== *)
theory Connection_Invariant
  imports Negotiation_Correct
begin

text \<open>
  An invariant of all states that a connection can reach, by rule induction over calls and events: the
  writer has a watcher exactly while it is enabled, writing or stopping, and while it is writing or
  stopping the queue holds the buffer that is being sent. A writable event therefore never meets a
  null buffer, a missing watcher or a state without a handler.
\<close>

section \<open>The part of the connection that belongs to the writer\<close>

definition writer_view :: "amqp_connection_t \<Rightarrow> writer_state \<times> amqp_buffer_t option list \<times> nat \<times> nat \<times> bool option \<times> bool" where
  "writer_view c = (writer_name c, buffer_queue c, queue_start c, queue_end c, write_watcher c, stopped_callback c)"

definition queue_ok :: "amqp_connection_t \<Rightarrow> bool" where
  "queue_ok c \<longleftrightarrow> length (buffer_queue c) = AMQP_WRITE_QUEUE_SIZE \<and> queue_start c < AMQP_WRITE_QUEUE_SIZE \<and> queue_end c < AMQP_WRITE_QUEUE_SIZE
     \<and> (write_watcher c \<noteq> None \<longleftrightarrow> writer_name c \<in> {Writer_enabled, Writer_writing, Writer_stopping})
     \<and> (writer_name c \<in> {Writer_initialized, Writer_enabled} \<longrightarrow> queue_start c = queue_end c)"

text \<open>Between calls: what is being sent is there.\<close>

definition settled :: "amqp_connection_t \<Rightarrow> bool" where
  "settled c \<longleftrightarrow> queue_ok c \<and> (writer_name c \<in> {Writer_writing, Writer_stopping} \<longrightarrow>
     queue_end c = writer_increment_queue_index (queue_start c) \<and> (\<exists>b. buffer_queue c ! queue_start c = Some b \<and> sendable b))"

text \<open>The last byte has gone and \<open>write_complete\<close> is the next call.\<close>

definition emptied :: "amqp_connection_t \<Rightarrow> bool" where
  "emptied c \<longleftrightarrow> queue_ok c \<and> writer_name c \<in> {Writer_writing, Writer_stopping} \<and> queue_start c = queue_end c"

definition broken :: "amqp_connection_t \<Rightarrow> bool" where
  "broken c \<longleftrightarrow> queue_ok c \<and> writer_name c \<in> {Writer_writing, Writer_stopping}"

text \<open>Calls that may wait on the stack under another call.\<close>

fun patient :: "call \<Rightarrow> bool" where
  "patient Writer_write_complete = False"
| "patient (Writer_fail e) = False"
| "patient (Writer_write b) = sendable b"
| "patient k = True"

fun writer_inv :: "amqp_connection_t \<times> call list \<Rightarrow> bool" where
  "writer_inv (c, ks) \<longleftrightarrow> destroyed c \<or>
     (case ks of
        Writer_write_complete # ks' \<Rightarrow> emptied c \<and> list_all patient ks'
      | Writer_fail e # ks' \<Rightarrow> broken c \<and> list_all patient ks'
      | _ \<Rightarrow> settled c \<and> list_all patient ks)"

lemma settled_cong: "writer_view c' = writer_view c \<Longrightarrow> settled c' = settled c"
  by (simp add: writer_view_def settled_def queue_ok_def)

lemma settled_inv: "settled c \<Longrightarrow> list_all patient ks \<Longrightarrow> writer_inv (c, ks)"
  by (cases ks) (auto split: call.split)

lemma emptied_inv: "emptied c \<Longrightarrow> list_all patient ks \<Longrightarrow> writer_inv (c, Writer_write_complete # ks)"
  by simp

lemma broken_inv: "broken c \<Longrightarrow> list_all patient ks \<Longrightarrow> writer_inv (c, Writer_fail e # ks)"
  by simp

lemma inv_top:
  assumes "writer_inv (c, k # ks)" and "\<not> destroyed c"
  obtains "k = Writer_write_complete" "emptied c" "list_all patient ks" | e where "k = Writer_fail e" "broken c" "list_all patient ks"
    | "settled c" "patient k" "list_all patient ks"
  using assms by (cases k) auto

lemma inv_idle: "writer_inv (c, []) \<Longrightarrow> \<not> destroyed c \<Longrightarrow> settled c"
  by simp

declare writer_inv.simps [simp del]

definition environment_ok :: "environment \<Rightarrow> bool" where
  "environment_ok env \<longleftrightarrow> sendable (encoded_sasl_mechanisms env) \<and> sendable (encoded_sasl_init env) \<and> sendable (encoded_sasl_outcome env)
     \<and> sendable (encoded_open env) \<and> sendable (encoded_close env) \<and> sendable (encoded_empty env)"

section \<open>Calls that leave the writer alone\<close>

text \<open>What a call that is not one of the writer's may do.\<close>

definition quiet :: "amqp_connection_t \<Rightarrow> outcome \<Rightarrow> bool" where
  "quiet c r \<longleftrightarrow> (\<forall>c' ks. r = Ret (c', ks) \<longrightarrow> list_all patient ks \<and> (destroyed c' \<or> writer_view c' = writer_view c))"

lemma quiet_Fault [simp]: "quiet c (Fault e)"
  by (simp add: quiet_def)

lemma quiet_Ret: "quiet c (Ret (c', ks)) \<longleftrightarrow> list_all patient ks \<and> (destroyed c' \<or> writer_view c' = writer_view c)"
  by (simp add: quiet_def)

lemma quiet_if: "(P \<Longrightarrow> quiet c r) \<Longrightarrow> (\<not> P \<Longrightarrow> quiet c s) \<Longrightarrow> quiet c (if P then r else s)"
  by simp

lemma quiet_assert: "(P \<Longrightarrow> quiet c r) \<Longrightarrow> quiet c (run_assert P r)"
  by (simp add: run_assert_def)

lemma quiet_bind: "(\<And>x. r = Ret x \<Longrightarrow> quiet c (f x)) \<Longrightarrow> quiet c (run_bind r f)"
  by (cases r) simp_all

lemma quiet_watcher: "(\<And>w. quiet c (k w)) \<Longrightarrow> quiet c (amqp_io_event_watcher_set a w k)"
  by (simp add: amqp_io_event_watcher_set_def run_assert_def)

lemma quiet_illegal [simp]: "quiet c illegal_state"
  by (simp add: illegal_state_def)

text \<open>The loop of the reader.\<close>

definition quiet_read :: "amqp_connection_t \<Rightarrow> (bool \<times> amqp_connection_t \<times> call list) run \<Rightarrow> bool" where
  "quiet_read c r \<longleftrightarrow> (\<forall>complete c' ks. r = Ret (complete, c', ks) \<longrightarrow> list_all patient ks \<and> writer_view c' = writer_view c)"

lemma quiet_read_bind: "(\<And>c' ks. r = Ret (c', ks) \<Longrightarrow> list_all patient ks \<and> writer_view c' = writer_view c)
  \<Longrightarrow> quiet_read c (run_bind r (\<lambda>(c, cs). Ret (complete, c, cs)))"
  by (cases r) (auto simp: quiet_read_def)

lemma quiet_read_callback: "reader_call_read_callback c = Ret (c', ks) \<Longrightarrow> list_all patient ks \<and> writer_view c' = writer_view c"
  by (auto simp: reader_call_read_callback_def writer_view_def split: option.splits)

lemma quiet_read_eof: "reader_read_eof c = Ret (c', ks) \<Longrightarrow> list_all patient ks \<and> writer_view c' = writer_view c"
  by (auto simp: reader_read_eof_def Let_def reader_call_read_callback_def writer_view_def amqp_io_event_watcher_set_def run_simps
      reader_cleanup_reader_def amqp_connection_failed_def amqp_connection_failure_flag_set_def split: option.splits if_splits)

lemma quiet_read_watcher: "amqp_io_event_watcher_set True w (\<lambda>w. Ret (c\<lparr>incoming := rest, read_watcher := w\<rparr>, [])) = Ret (c', ks)
  \<Longrightarrow> list_all patient ks \<and> writer_view c' = writer_view c"
  by (auto simp: amqp_io_event_watcher_set_def run_simps writer_view_def)

lemma writer_view_reader [simp]:
  "writer_view (c\<lparr>incoming := i\<rparr>) = writer_view c" "writer_view (c\<lparr>buffer_read := b\<rparr>) = writer_view c"
  "writer_view (c\<lparr>satisfied := n\<rparr>) = writer_view c" "writer_view (c\<lparr>reader_name := r\<rparr>) = writer_view c"
  "writer_view (c\<lparr>read_watcher := w\<rparr>) = writer_view c"
  by (simp_all add: writer_view_def)

lemma quiet_read_loop: "quiet_read c (reader_read_loop input c)"
proof (induction input c rule: reader_read_loop.induct)
  case (1 input c)
  show ?case
  proof (cases "n_required c \<le> satisfied c")
    case True
    then show ?thesis by (subst reader_read_loop.simps) (auto intro!: quiet_read_bind dest: quiet_read_callback)
  next
    case more: False
    show ?thesis
    proof (cases "amqp_buffer_write_io_vec (buffer_read c) (n_required c - satisfied c)")
      case (Fault e)
      then show ?thesis using more by (subst reader_read_loop.simps) (simp add: quiet_read_def)
    next
      case (Ret vs)
      have received: "quiet_read c (reader_read_loop (Received bs # rest) c)" if "input = Received bs # rest" for bs rest
      proof (cases "bs = []")
        case True
        then show ?thesis using more Ret
          by (subst reader_read_loop.simps) (auto intro!: quiet_read_bind dest: quiet_read_eof)
      next
        case False
        let ?n = "n_required c - satisfied c"
        have "quiet_read c (run_bind (readv_store (buffer_read c) vs (take ?n bs)) (\<lambda>b.
            reader_read_loop (if ?n < length bs then Received (drop ?n bs) # rest else rest)
             (c\<lparr>buffer_read := amqp_buffer_advance_write_point b (min ?n (length bs)), satisfied := satisfied c + min ?n (length bs)\<rparr>)))"
        proof (cases "readv_store (buffer_read c) vs (take ?n bs)")
          case (Ret b)
          show ?thesis
            using 1 [OF more \<open>amqp_buffer_write_io_vec _ _ = Ret vs\<close> that refl refl refl _ Ret] more Ret False
            by (simp add: quiet_read_def)
        qed (simp add: quiet_read_def)
        moreover have "min ?n (length bs) \<noteq> 0" using more False by simp
        ultimately show ?thesis using more Ret by (subst reader_read_loop.simps) (auto simp: Let_def min_def)
      qed
      then show ?thesis
      proof (cases input)
        case Nil
        then show ?thesis using more Ret
          by (subst reader_read_loop.simps) (auto intro!: quiet_read_bind dest: quiet_read_watcher)
      next
        case (Cons r rest)
        have other: "quiet_read c (reader_read_loop (r # rest) c)" if "\<And>bs. r \<noteq> Received bs"
          by (subst reader_read_loop.simps)
            (use more Ret that in \<open>cases r; auto simp: quiet_read_def run_simps dest!: quiet_read_watcher quiet_read_eof\<close>)
        show ?thesis
        proof (cases "\<exists>bs. r = Received bs")
          case True
          then show ?thesis using received Cons by auto
        next
          case False
          then show ?thesis using other Cons by auto
        qed
      qed
    qed
  qed
qed

section \<open>The other machines\<close>

named_theorems machine_defs \<open>handlers of the machines other than the writer\<close>

declare
  amqp_connection_flag_set_def [machine_defs] amqp_connection_flag_clear_def [machine_defs]
  amqp_connection_failure_flag_set_def [machine_defs] amqp_connection_failed_def [machine_defs]
  amqp_timer_start_def [machine_defs] amqp_timer_stop_def [machine_defs] amqp_io_event_watcher_set_def [machine_defs]
  illegal_state_def [machine_defs] Let_def [machine_defs]

lemmas reader_defs =
  reader_cleanup_reader_def reader_call_read_callback_def reader_queue_read_operation_def reader_reader_stop_def reader_reader_fail_def
  reader_enable_while_initialized_def reader_stop_while_initialized_def reader_reset_while_initialized_def
  reader_next_read_while_enabled_def reader_commence_read_while_reading_def
  reader_reset_while_reading_def reader_commence_read_while_eof_def reader_reset_while_eof_alerted_def
  reader_enable_def reader_reset_def reader_stop_def reader_fail_def

lemma quiet_operation:
  assumes "patient k"
  shows "quiet c (reader_continue_read_operation k c)"
  using quiet_read_loop [of c "incoming c"] assms
  by (auto simp: quiet_def quiet_read_def reader_continue_read_operation_def reader_read_what_is_buffered_def run_simps)

lemma quiet_view: "quiet c' r \<Longrightarrow> writer_view c' = writer_view c \<Longrightarrow> quiet c r"
  by (simp add: quiet_def)

lemma quiet_reader:
  "quiet c (reader_enable c)" "quiet c (reader_reset c)" "quiet c (reader_stop c)" "quiet c (reader_fail e c)"
  by (auto simp: quiet_def reader_defs machine_defs run_simps writer_view_def split: reader_state.splits option.splits)

lemma quiet_reads:
  "quiet c (reader_commence_read n callback c)" "quiet c (reader_continue_read c)" "quiet c (reader_delayed_read c)"
  "quiet c (reader_delayed_read_while_reading c)"
proof -
  have op: "quiet c (reader_continue_read_operation k c')" if "writer_view c' = writer_view c" "patient k" for c' k
    by (rule quiet_view [OF quiet_operation that(1)]) (rule that(2))
  have nxt: "quiet c (reader_next_read_while_reading c)"
    by (auto simp: reader_next_read_while_reading_def intro!: quiet_watcher op)
  show d: "quiet c (reader_delayed_read_while_reading c)"
    by (auto simp: reader_delayed_read_while_reading_def quiet_Ret intro!: op)
  have en: "quiet c (reader_commence_read_while_enabled n callback c)"
    by (simp add: reader_commence_read_while_enabled_def) (rule op; simp add: reader_queue_read_operation_def writer_view_def)
  have rd: "quiet c (reader_commence_read_while_reading n callback c)" "quiet c (reader_commence_read_while_eof n callback c)"
    "quiet c (reader_next_read_while_enabled c)"
    by (auto simp: quiet_def reader_defs machine_defs run_simps writer_view_def split: option.splits)
  show "quiet c (reader_commence_read n callback c)" using en rd by (simp add: reader_commence_read_def split: reader_state.split)
  show "quiet c (reader_continue_read c)" using nxt rd by (simp add: reader_continue_read_def split: reader_state.split)
  show "quiet c (reader_delayed_read c)" using d by (simp add: reader_delayed_read_def quiet_Ret split: reader_state.split)
qed

lemmas socket_defs =
  socket_connect_def socket_connect_while_initialized_def socket_save_peer_address_def socket_address_resolution_failed_def
  socket_address_resolution_complete_def socket_shutdown_def socket_shutdown_while_resolving_def
  socket_stop_and_notify_connection_shutdown_def socket_cleanup_everything_def socket_free_address_info_def
  socket_close_connection_socket_def socket_cleanup_connect_watcher_def socket_fail_def socket_fail_while_resolving_def
  socket_fail_while_connecting_def socket_stop_and_notify_connection_failed_def socket_done_def socket_done_while_resolving_def
  socket_done_while_connecting_def socket_try_connect_def socket_try_connect_while_connecting_def
  socket_attempt_connection_to_next_address_def socket_connection_attempt_failed_def socket_start_connect_event_watcher_def
  socket_connect_event_handler_def

lemma quiet_socket:
  "quiet c (socket_connect env hostname c)" "quiet c (socket_shutdown c)" "quiet c (socket_fail e c)" "quiet c (socket_done c)"
  "quiet c (socket_try_connect c)" "quiet c (socket_connect_event_handler e c)"
  by (auto simp: quiet_def socket_defs machine_defs writer_view_def split: socket_state.splits sum.splits list.splits attempt.splits)

lemma patient_version: "negotiator_write_version version = Ret ks \<Longrightarrow> list_all patient ks"
  by (rule write_version_ok [of version]) auto

lemmas negotiation_defs =
  negotiator_start_def negotiator_start_while_initialized_def negotiator_started_def negotiator_wait_def negotiator_wait_while_initialized_def
  negotiator_send_def negotiator_send_while_waiting_to_send_server_response_def negotiator_sent_def negotiator_reset_def
  negotiator_reset_while_negotiated_def negotiator_read_done_def negotiator_read_done_while_waiting_for_broker_response_def
  negotiator_read_done_while_waiting_on_client_request_def tls_start_while_initialized_def tls_tunnel_accept_while_initialized_def
  tunnel_amqp_version_accepted_def tunnel_amqp_version_rejected_def tunnel_amqp_connect_while_initialized_def
  tunnel_tunnel_accept_while_initialized_def tunnel_done_while_sending_header_response_def
  amqp_tunnel_connect_def amqp_tunnel_done_def amqp_tunnel_accept_def call_reject_def

lemma quiet_negotiator:
  "quiet c (negotiator_start version confirm reject c)" "quiet c (negotiator_started c)" "quiet c (negotiator_wait c)"
  "quiet c (negotiator_send version confirm c)" "quiet c (negotiator_sent c)" "quiet c (negotiator_reset c)"
  by (auto simp: quiet_def negotiation_defs machine_defs run_simps writer_view_def dest: patient_version
      split: negotiator_state.splits option.splits)

lemma quiet_negotiator_read: "quiet c (negotiator_read_done n c)"
  by (auto simp: quiet_def negotiation_defs machine_defs run_simps writer_view_def split: negotiator_state.splits option.splits if_splits)

lemma quiet_tunnel:
  "quiet c (tls_start_while_initialized c)" "quiet c (tls_tunnel_accept_while_initialized version c)"
  "quiet c (tunnel_amqp_version_accepted c)" "quiet c (tunnel_amqp_version_rejected version c)"
  "quiet c (amqp_tunnel_connect c)" "quiet c (amqp_tunnel_done c)" "quiet c (amqp_tunnel_accept version c)"
  by (auto simp: quiet_def negotiation_defs machine_defs run_simps writer_view_def split: amqp_tunnel_state.splits option.splits if_splits)

lemmas frame_defs =
  frame_enable_def frame_enable_while_initialized_def frame_read_def frame_read_while_enabled_def frame_call_available_def
  frame_read_done_def frame_read_done_while_reading_frame_header_def frame_read_done_while_reading_frame_body_def frame_stop_def

lemma quiet_frame:
  "quiet c (frame_enable c)" "quiet c (frame_read callback c)" "quiet c (frame_read_done n c)" "quiet c (frame_stop c)"
  by (auto simp: quiet_def frame_defs machine_defs run_simps writer_view_def split: frame_state.splits option.splits if_splits)

lemmas sasl_defs =
  sasl_received_out_of_sequence_sasl_frame_def sasl_frame_available_callback_def sasl_sasl_version_accepted_callback_def
  sasl_sasl_version_rejected_callback_def sasl_sasl_connect_while_initialized_def sasl_tunnel_accept_while_initialized_def
  amqp_send_sasl_init_response_def sasl_received_sasl_mechanisms_frame_def sasl_init_sent_def sasl_received_sasl_challenge_frame_def
  sasl_received_sasl_outcome_frame_def sasl_done_while_sending_header_response_def sasl_mechanisms_sent_def
  sasl_received_sasl_initial_response_frame_def sasl_outcome_sent_def sasl_received_sasl_challenge_response_frame_def
  sasl_connect_def sasl_done_def sasl_accept_def call_reject_def

lemma patient_dispatch: "patient (dispatch_frame frame)"
  by (simp add: dispatch_frame_def split: amqp_frame.split)

lemma quiet_sasl:
  assumes "environment_ok env"
  shows "quiet c (sasl_frame_available_callback env c)" "quiet c (sasl_sasl_version_accepted_callback c)"
    "quiet c (sasl_sasl_version_rejected_callback version c)" "quiet c (sasl_connect c)" "quiet c (sasl_done env c)"
    "quiet c (sasl_accept version c)" "quiet c (sasl_mechanisms_sent c)" "quiet c (sasl_init_sent c)" "quiet c (sasl_outcome_sent c)"
  using assms by (auto simp: quiet_def sasl_defs machine_defs run_simps writer_view_def environment_ok_def patient_dispatch
      split: sasl_state.splits option.splits if_splits)

lemma quiet_sasl_frame:
  assumes "environment_ok env"
  shows "quiet c (sasl_frame env frame c)"
proof -
  have "quiet c (sasl_received_sasl_mechanisms_frame env c)" "quiet c (sasl_received_sasl_challenge_frame c)"
    "quiet c (sasl_received_sasl_outcome_frame env c)" "quiet c (sasl_received_sasl_initial_response_frame env c)"
    "quiet c (sasl_received_sasl_challenge_response_frame c)" "quiet c (sasl_received_out_of_sequence_sasl_frame c)"
    using assms by (auto simp: quiet_def sasl_defs machine_defs run_simps writer_view_def environment_ok_def
        split: plugin_result.splits if_splits)
  then show ?thesis by (simp add: sasl_frame_def split: amqp_frame.split sasl_state.split)
qed

lemmas amqp_defs =
  amqp_transition_to_opened_def amqp_transition_to_close_sent_def amqp_transition_to_closed_def amqp_start_idle_timeouts_def
  amqp_received_out_of_sequence_frame_def amqp_frame_available_callback_def amqp_read_frame_def amqp_send_open_while_initialized_def
  amqp_open_frame_sent_def amqp_wait_on_open_while_initialized_def amqp_connection_opened_def save_remote_limits_def
  amqp_process_open_frame_from_broker_def amqp_process_open_frame_from_client_def amqp_open_received_after_open_sent_def
  amqp_keep_alive_def amqp_open_received_while_waiting_for_open_frame_def amqp_begin_connection_close_def amqp_close_frame_sent_def
  amqp_application_close_while_opened_def amqp_timeout_expired_while_opened_def flag_amqp_connection_closed_def
  amqp_process_close_frame_def amqp_received_close_while_opened_def amqp_received_close_after_close_sent_def
  amqp_timeout_expiry_while_close_sent_def amqp_timeout_expiry_while_closed_def amqp_send_open_def amqp_wait_on_open_def

lemma quiet_amqp:
  assumes "environment_ok env"
  shows "quiet c (amqp_send_open env c)" "quiet c (amqp_open_frame_sent c)" "quiet c (amqp_wait_on_open c)" "quiet c (amqp_connection_opened c)"
    "quiet c (amqp_close_frame_sent c)" "quiet c (amqp_frame_available_callback env dispatch_frame c)"
    "quiet c (amqp_application_close_while_opened env c)" "quiet c (amqp_timeout_expired_while_opened env c)"
    "quiet c (amqp_timeout_expiry_while_close_sent c)" "quiet c (amqp_timeout_expiry_while_closed c)"
  using assms by (auto simp: quiet_def amqp_defs machine_defs run_simps writer_view_def environment_ok_def patient_dispatch
      split: amqp_state.splits option.splits if_splits)

lemma quiet_amqp_frame:
  assumes "environment_ok env"
  shows "quiet c (amqp_frame_received env frame c)"
proof -
  have "quiet c (amqp_open_received_after_open_sent f c)" "quiet c (amqp_open_received_while_waiting_for_open_frame env f c)"
    "quiet c (amqp_received_close_while_opened env e c)" "quiet c (amqp_received_close_after_close_sent e c)"
    "quiet c (amqp_keep_alive c)" "quiet c (amqp_received_out_of_sequence_frame c)" for f e
    using assms by (auto simp: quiet_def amqp_defs machine_defs run_simps writer_view_def environment_ok_def split: if_splits)
  then show ?thesis by (simp add: amqp_frame_received_def split: amqp_frame.split amqp_state.split)
qed

lemmas connection_defs =
  connection_connection_halt_def amqp_connection_state_cleanup_def connection_done_or_fail_while_timeout_def
  connection_shutdown_connection_def connection_done_while_stopping_output_def connection_timeout_while_stopping_output_def
  connection_stop_activity_def connection_read_done_while_draining_input_def connection_timeout_while_draining_input_def
  connection_done_while_stopping_def connection_fail_while_stopping_def amqp_connection_enable_io_def
  client_connect_while_initialized_def client_clear_protocol_flag_def client_start_next_protocol_on_connection_def
  client_done_while_connecting_socket_def client_io_enabled_def client_fail_while_connecting_socket_def client_done_while_connecting_tls_def
  client_fail_while_connecting_tls_def client_done_while_connecting_sasl_def client_fail_while_connecting_sasl_def
  client_done_while_connecting_amqp_def client_fail_while_connecting_amqp_def
  server_reject_protocol_version_def server_could_not_parse_header_def server_unsupported_protocol_def
  server_establish_tunnel_after_client_request_def server_begin_while_waiting_on_client_negotiation_request_def
  server_done_while_sending_error_message_def server_done_while_accepting_tls_def server_fail_while_accepting_tls_def
  server_reject_while_accepting_tls_def server_begin_while_waiting_on_tls_tunnelled_request_def server_done_while_accepting_sasl_def
  server_fail_while_accepting_sasl_def server_reject_while_accepting_sasl_def server_begin_while_waiting_on_amqp_negotiation_request_def
  server_done_while_accepting_amqp_def server_fail_while_accepting_amqp_def server_reject_while_accepting_amqp_def
  connection_fail_def connection_drain_def connection_close_def connection_connect_def connection_begin_def connection_reject_def
  connection_read_done_def connection_done_def

lemma quiet_done: "quiet c (connection_done c)"
  by (auto simp: quiet_def connection_defs machine_defs writer_view_def split: connection_state.splits if_splits)

lemma quiet_fail: "quiet c (connection_fail c)"
  by (auto simp: quiet_def connection_defs machine_defs writer_view_def split: connection_state.splits if_splits)

lemma quiet_connection:
  "quiet c (connection_drain c)" "quiet c (connection_close c)" "quiet c (connection_connect hostname c)" "quiet c (connection_begin version c)"
  "quiet c (connection_reject version c)" "quiet c (connection_read_done n c)" "quiet c (connection_connection_halt c)"
  "quiet c (amqp_connection_state_cleanup c)" "quiet c (client_io_enabled c)" "quiet c (connection_timeout_while_stopping_output c)"
  "quiet c (connection_timeout_while_draining_input c)"
  by (auto simp: quiet_def connection_defs machine_defs writer_view_def split: connection_state.splits option.splits reject_action.splits if_splits)

lemma quiet_shutdown:
  assumes "environment_ok env"
  shows "quiet c (connection_shutdown env c)" "quiet c (connection_timeout env c)"
  using quiet_amqp [OF assms] quiet_connection
  by (simp_all add: connection_shutdown_def connection_timeout_def quiet_Ret split: shutdown_action.split timeout_action.split)

lemma quiet_callbacks:
  assumes "environment_ok env"
  shows "quiet c (call_read_callback rc n c)" "quiet c (call_confirm env cc c)" "quiet c (call_handshake_reject rj version c)"
    "quiet c (call_frame_available env fa c)"
  using quiet_negotiator_read quiet_frame quiet_connection quiet_sasl [OF assms] quiet_tunnel quiet_done quiet_amqp [OF assms]
  by (simp_all add: call_read_callback_def call_confirm_def call_handshake_reject_def call_frame_available_def quiet_Ret
      split: read_callback.split confirm_callback.split reject_callback.split frame_available_callback.split)

fun writer_call :: "call \<Rightarrow> bool" where
  "writer_call Writer_enable = True"
| "writer_call (Writer_write b) = True"
| "writer_call Writer_continue_write = True"
| "writer_call Writer_stop = True"
| "writer_call (Writer_fail e) = True"
| "writer_call Writer_abort = True"
| "writer_call Writer_write_complete = True"
| "writer_call k = False"

lemmas quiet_handlers =
  quiet_done quiet_fail quiet_connection quiet_reader quiet_reads quiet_socket quiet_negotiator quiet_negotiator_read quiet_tunnel quiet_frame

lemma handler_quiet:
  assumes "environment_ok env" and "\<not> writer_call k"
  shows "quiet c (call_handler env k c)"
  using assms(2) quiet_shutdown [OF assms(1)] quiet_callbacks [OF assms(1)] quiet_sasl [OF assms(1)] quiet_sasl_frame [OF assms(1)]
    quiet_amqp [OF assms(1)] quiet_amqp_frame [OF assms(1)]
  by (cases k) (simp_all add: quiet_handlers quiet_Ret)

section \<open>The writer\<close>

lemma loop_returns:
  assumes "sendable b"
  shows "\<exists>b' sent' rest why. writer_write_loop results b sent = Ret (b', sent', rest, why) \<and> sendable b'"
  using assms
proof (induction results arbitrary: b sent)
  case Nil
  show ?case
  proof (cases "unread b = []")
    case False
    obtain vs where "amqp_buffer_read_io_vec b = Ret vs" by (rule read_io_vec_ok [OF Nil False])
    then show ?thesis using Nil False by (subst writer_write_loop.simps) (simp add: available_unread)
  qed (use write_empty Nil in auto)
next
  case (Cons r results)
  show ?case
  proof (cases "unread b = []")
    case False
    obtain vs where vs: "amqp_buffer_read_io_vec b = Ret vs" by (rule read_io_vec_ok [OF Cons.prems False])
    show ?thesis
    proof (cases r)
      case (Sent k)
      have "sendable (b\<lparr>limit_index := limit_index b + min k (length (unread b))\<rparr>)"
        by (rule sendable_advance [OF Cons.prems]) simp
      then show ?thesis using Cons.IH write_turn [OF Cons.prems False] Sent by simp
    qed (subst writer_write_loop.simps; use Cons.prems vs in \<open>auto simp: available_unread\<close>)+
  qed (use write_empty Cons.prems in auto)
qed

text \<open>Sending: the operation returns, and says how the queue is left.\<close>

lemma operation_returns:
  assumes "queue_ok c" and "writer_name c \<in> {Writer_writing, Writer_stopping}"
    and "queue_end c = writer_increment_queue_index (queue_start c)" and "buffer_queue c ! queue_start c = Some b" and "sendable b"
  shows "\<exists>c' ks. writer_continue_write_operation c = Ret (c', ks) \<and> (ks = [] \<and> settled c' \<or> ks = [Writer_write_complete] \<and> emptied c'
    \<or> (\<exists>e. ks = [Writer_fail e] \<and> broken c'))"
proof -
  obtain b' sent rest why where l: "writer_write_loop (write_results c) b [] = Ret (b', sent, rest, why)" "sendable b'"
    using loop_returns [OF assms(5), of "write_results c" "[]"] by blast
  have w: "write_watcher c \<noteq> None" using assms(1,2) by (auto simp: queue_ok_def)
  have inc: "writer_increment_queue_index (queue_start c) < AMQP_WRITE_QUEUE_SIZE" by (simp add: writer_increment_queue_index_def)
  show ?thesis
  proof (cases why)
    case None
    then show ?thesis using assms l w inc
      by (auto simp: writer_continue_write_operation_def Let_def writer_deallocate_buffer_queue_element_def emptied_def queue_ok_def)
  next
    case (Some r)
    then show ?thesis using assms l w
      by (cases r) (auto simp: writer_continue_write_operation_def Let_def amqp_io_event_watcher_set_def settled_def broken_def queue_ok_def)
  qed
qed

lemma operation_keeps:
  assumes "queue_ok c" and "writer_name c \<in> {Writer_writing, Writer_stopping}"
    and "queue_end c = writer_increment_queue_index (queue_start c)" and "buffer_queue c ! queue_start c = Some b" and "sendable b"
    and "writer_continue_write_operation c = Ret (c', ks')" and "list_all patient ks"
  shows "writer_inv (c', ks' @ ks)"
  using operation_returns [OF assms(1-5)] assms(6,7) settled_inv emptied_inv broken_inv by fastforce

lemma clear_queue [simp]:
  "length (buffer_queue (writer_clear_buffer_queue c)) = length (buffer_queue c)"
  "queue_start (writer_clear_buffer_queue c) = queue_start c" "queue_end (writer_clear_buffer_queue c) = queue_end c"
  "writer_name (writer_clear_buffer_queue c) = writer_name c" "write_watcher (writer_clear_buffer_queue c) = write_watcher c"
  "stopped_callback (writer_clear_buffer_queue c) = stopped_callback c" "destroyed (writer_clear_buffer_queue c) = destroyed c"
  by (simp_all add: writer_clear_buffer_queue_def writer_deallocate_buffer_queue_element_def eval_nat_numeral)

lemmas writer_defs =
  writer_writer_stop_def writer_writer_cleanup_def writer_cleanup_resources_def writer_cleanup_write_watcher_def writer_call_done_callback_def
  writer_stop_while_initialized_def writer_abort_while_initialized_def writer_enable_while_initialized_def writer_stop_while_writing_def
  writer_default_write_abort_def writer_writer_fail_def writer_write_complete_while_writing_def writer_write_complete_while_stopping_def
  writer_at_queue_end_def

lemma enable_keeps: "settled c \<Longrightarrow> writer_enable c = Ret (c', ks') \<Longrightarrow> settled c' \<and> list_all patient ks'"
  by (cases "writer_name c") (auto simp: writer_enable_def writer_defs machine_defs run_simps settled_def queue_ok_def)

lemma stop_keeps: "settled c \<Longrightarrow> writer_stop c = Ret (c', ks') \<Longrightarrow> settled c' \<and> list_all patient ks'"
  by (cases "writer_name c") (auto simp: writer_stop_def writer_defs machine_defs run_simps settled_def queue_ok_def)

lemma abort_keeps: "settled c \<Longrightarrow> writer_abort c = Ret (c', ks') \<Longrightarrow> settled c' \<and> list_all patient ks'"
  by (cases "writer_name c") (auto simp: writer_abort_def writer_defs machine_defs run_simps settled_def queue_ok_def)

lemma fail_keeps: "broken c \<Longrightarrow> writer_fail e c = Ret (c', ks') \<Longrightarrow> settled c' \<and> list_all patient ks'"
  by (cases "writer_name c") (auto simp: writer_fail_def writer_defs machine_defs run_simps settled_def broken_def queue_ok_def)

lemma complete_keeps: "emptied c \<Longrightarrow> writer_write_complete c = Ret (c', ks') \<Longrightarrow> settled c' \<and> list_all patient ks'"
  by (cases "writer_name c") (auto simp: writer_write_complete_def writer_defs machine_defs run_simps settled_def emptied_def queue_ok_def split: if_splits)

lemma write_keeps:
  assumes "settled c" and "sendable b" and "writer_write b c = Ret (c', ks')" and "list_all patient ks"
  shows "writer_inv (c', ks' @ ks)"
proof -
  have en: "writer_name c = Writer_enabled"
    using assms(3) by (auto simp: writer_write_def writer_commence_write_while_writing_def illegal_state_def split: writer_state.splits)
  let ?c = "c\<lparr>writer_name := Writer_writing, queue_end := writer_increment_queue_index (queue_end c),
    buffer_queue := (buffer_queue c)[queue_end c := Some b]\<rparr>"
  have "writer_continue_write_operation ?c = Ret (c', ks')"
    using assms(3) en by (simp add: writer_write_def writer_commence_write_while_enabled_def writer_commence_write_operation_def Let_def)
  moreover have "queue_ok ?c" using assms(1) en by (simp add: settled_def queue_ok_def writer_increment_queue_index_def)
  ultimately show ?thesis
    using operation_keeps [of ?c b c' ks' ks] assms(1,2,4) en by (simp add: settled_def queue_ok_def)
qed

lemma event_state: "settled c \<Longrightarrow> settled (c\<lparr>write_results := ws\<rparr>)"
  by (simp add: settled_def queue_ok_def)

text \<open>An event while the writer has its watcher.\<close>

lemma continue_returns:
  assumes "settled c" and "write_watcher c \<noteq> None"
  shows "\<exists>c' ks. writer_continue_write c = Ret (c', ks) \<and> (list_all patient ks0 \<longrightarrow> writer_inv (c', ks @ ks0))"
proof -
  have w: "queue_ok (c\<lparr>write_watcher := Some False\<rparr>)" using assms by (auto simp: settled_def queue_ok_def)
  consider "writer_name c = Writer_enabled" | "writer_name c \<in> {Writer_writing, Writer_stopping}"
    using assms by (auto simp: settled_def queue_ok_def)
  then show ?thesis
  proof cases
    case 1
    then have "settled (c\<lparr>write_watcher := Some False\<rparr>)" using w by (simp add: settled_def)
    then show ?thesis using 1 assms(2) settled_inv
      by (auto simp: writer_continue_write_def writer_next_write_while_enabled_def amqp_io_event_watcher_set_def)
  next
    case 2
    then obtain b where b: "queue_end c = writer_increment_queue_index (queue_start c)" "buffer_queue c ! queue_start c = Some b" "sendable b"
      using assms(1) by (auto simp: settled_def)
    have op: "writer_continue_write c = writer_continue_write_operation (c\<lparr>write_watcher := Some False\<rparr>)"
      using 2 assms(2) by (auto simp: writer_continue_write_def writer_next_write_while_writing_def writer_next_write_while_stopping_def
          amqp_io_event_watcher_set_def)
    have "writer_name (c\<lparr>write_watcher := Some False\<rparr>) \<in> {Writer_writing, Writer_stopping}" using 2 by simp
    from operation_returns [OF w this] operation_keeps [OF w this] b show ?thesis unfolding op by fastforce
  qed
qed

lemma writer_handler_keeps:
  assumes "settled c" and "patient k" and "writer_call k" and "call_handler env k c = Ret (c', ks')" and "list_all patient ks"
  shows "writer_inv (c', ks' @ ks)"
proof -
  have s: "writer_inv (c', ks' @ ks)" if "settled c' \<and> list_all patient ks'" using that assms(5) settled_inv by auto
  show ?thesis
  proof (cases k)
    case Writer_continue_write
    have "write_watcher c \<noteq> None"
      using assms(4) Writer_continue_write
      by (cases "writer_name c") (auto simp: writer_continue_write_def illegal_state_def writer_next_write_while_enabled_def
          writer_next_write_while_writing_def writer_next_write_while_stopping_def amqp_io_event_watcher_set_def run_simps)
    then show ?thesis using continue_returns [OF assms(1), of ks] assms(4,5) Writer_continue_write by auto
  qed (use assms s in \<open>auto dest: enable_keeps stop_keeps abort_keeps write_keeps\<close>)
qed

section \<open>The invariant\<close>

lemma step_keeps:
  assumes "environment_ok env" and "writer_inv s" and "step env s s'"
  shows "writer_inv s'"
  using assms(3)
proof cases
  case (step k c c' ks' ks)
  then have alive: "\<not> destroyed c" and h: "call_handler env k c = Ret (c', ks')" by (auto simp: handle_def split: if_splits)
  consider (complete) "k = Writer_write_complete" "emptied c" "list_all patient ks"
    | (failed) e where "k = Writer_fail e" "broken c" "list_all patient ks"
    | (other) "settled c" "patient k" "list_all patient ks"
    using inv_top [of c k ks] assms(2) step(1) alive by blast
  then show ?thesis
  proof cases
    case complete
    with complete_keeps [of c c' ks'] h have "settled c'" "list_all patient (ks' @ ks)" by auto
    then show ?thesis using settled_inv step(2) by blast
  next
    case failed
    with fail_keeps [of c e c' ks'] h have "settled c'" "list_all patient (ks' @ ks)" by auto
    then show ?thesis using settled_inv step(2) by blast
  next
    case other
    show ?thesis
    proof (cases "writer_call k")
      case True
      then show ?thesis using writer_handler_keeps [OF other(1,2) True h other(3)] step(2) by simp
    next
      case False
      then have "list_all patient ks' \<and> (destroyed c' \<or> writer_view c' = writer_view c)"
        using handler_quiet [OF assms(1) False, of c] h by (auto simp: quiet_def)
      then show ?thesis using other(1,3) settled_cong [of c' c] settled_inv [of c' "ks' @ ks"] step(2)
        by (cases "destroyed c'") (auto simp: writer_inv.simps)
    qed
  qed
qed

lemma event_keeps:
  assumes "writer_inv (c, [])" and "\<not> destroyed c" and "event_step e c s"
  shows "writer_inv s"
proof -
  have s: "settled c" by (rule inv_idle [OF assms(1,2)])
  have "writer_view (fst s) = writer_view c \<and> list_all patient (snd s)" using assms(3)
    by cases (simp_all add: writer_view_def amqp_connection_connect_to_def)
  then show ?thesis using s settled_cong settled_inv by (metis prod.collapse)
qed

lemma created_keeps: "writer_inv (amqp_connection_create m, [])" "writer_inv (amqp_connection_accept m fd' hostname)"
  by (auto intro!: settled_inv simp: amqp_connection_create_def amqp_connection_accept_def create_connection_def amqp_connection_socket_initialize_def
      amqp_connection_accepted_socket_initialize_def socket_save_peer_address_def amqp_connection_enable_io_def settled_def queue_ok_def Let_def)

lemma reachable_inv: "reachable env s \<Longrightarrow> environment_ok env \<Longrightarrow> writer_inv s"
  by (induction rule: reachable.induct) (auto intro: created_keeps step_keeps event_keeps)

lemma writable_event_returns:
  assumes "environment_ok env" and "reachable env (c, [])" and "\<not> destroyed c" and "event_step (Writable ws) c (c1, ks1)"
  shows "\<exists>s. step env (c1, ks1) s"
proof -
  have c1: "c1 = c\<lparr>write_results := ws\<rparr>" "ks1 = [Writer_continue_write]" "write_watcher c \<noteq> None"
    using assms(4) by (auto elim: event_step.cases)
  have "settled c" by (rule inv_idle [OF reachable_inv [OF assms(2,1)] assms(3)])
  then have "settled c1" using event_state c1(1) by simp
  moreover have "write_watcher c1 \<noteq> None" using c1 by simp
  ultimately obtain c' ks where "writer_continue_write c1 = Ret (c', ks)" using continue_returns by blast
  then have "handle env Writer_continue_write c1 = Ret (c', ks)" using assms(3) c1(1) by (simp add: handle_def)
  from stepI [OF this, of "[]"] show ?thesis using c1(2) by auto
qed

end
