(* ===== verification/Connection_Shutdown.thy ===== *)
theory Connection_Shutdown
  imports Connection_Invariant
begin

text \<open>
  A connection that the application made and that is told to close, that fails, or whose shutdown times
  out comes to an end: it is halted once, its socket is closed, and nothing is left that the event loop
  watches for.
\<close>

section \<open>The parts of a shutdown\<close>

text \<open>The input side, and everything that a shutdown needs.\<close>

definition reader_ok :: "amqp_connection_t \<Rightarrow> bool" where
  "reader_ok c \<longleftrightarrow> (reader_name c \<in> {Reader_enabled, Reader_reading} \<longrightarrow> read_watcher c \<noteq> None)
     \<and> (reader_name c \<notin> {Reader_enabled, Reader_reading} \<longrightarrow> read_watcher c \<noteq> Some True)"

definition stoppable :: "amqp_connection_t \<Rightarrow> bool" where
  "stoppable c \<longleftrightarrow> \<not> destroyed c \<and> \<not> accept_handler_arguments c \<and> settled c \<and> reader_ok c \<and> socket_name c \<noteq> Socket_resolving"

definition released :: "amqp_connection_t \<Rightarrow> bool" where
  "released c \<longleftrightarrow> write_watcher c = None \<and> read_watcher c \<noteq> Some True \<and> reader_name c \<notin> {Reader_enabled, Reader_reading}
     \<and> connect_watcher c = None \<and> fd c = - 1"

text \<open>The end: the counters and flags of \<open>connection_halt\<close>.\<close>

definition halted :: "amqp_connection_t \<Rightarrow> amqp_connection_t \<Rightarrow> bool" where
  "halted c c' \<longleftrightarrow> connection_name c' \<in> {Stopped, Failed} \<and> released c' \<and> timer c' = None \<and> halts c' = Suc (halts c)
     \<and> \<not> amqp_connection_is c' AMQP_CONNECTION_RUNNING \<and> failure_flags c' = failure_flags c \<and> \<not> destroyed c'"

text \<open>What the shutdown of the parts leaves alone.\<close>

definition control_view :: "amqp_connection_t \<Rightarrow> bool \<times> bool \<times> connection_state \<times> uint32 \<times> uint32 \<times> uint32 \<times> nat" where
  "control_view c = (destroyed c, accept_handler_arguments c, connection_name c, data_word c, flags c, failure_flags c, halts c)"

lemma abort_writer:
  assumes "settled c"
  obtains c' where "writer_abort c = Ret (c', [])" and "write_watcher c' = None" and "control_view c' = control_view c"
    and "reader_ok c' = reader_ok c" and "socket_name c' = socket_name c"
proof (cases "writer_name c = Writer_initialized")
  case True
  then show ?thesis using assms that [of "c\<lparr>writer_name := Writer_stopped\<rparr>"]
    by (simp add: settled_def queue_ok_def writer_abort_def writer_abort_while_initialized_def control_view_def reader_ok_def)
next
  case started: False
  show ?thesis
  proof (cases "write_watcher c = None")
    case True
    then have "writer_name c \<in> {Writer_stopped, Writer_failed}" using assms started by (cases "writer_name c") (auto simp: settled_def queue_ok_def)
    then show ?thesis using True that [of c] by (auto simp: writer_abort_def)
  next
    case False
    let ?c = "writer_clear_buffer_queue (c\<lparr>writer_name := Writer_stopped, write_watcher := None\<rparr>)"
    have "writer_name c \<in> {Writer_enabled, Writer_writing, Writer_stopping}" using assms False by (simp add: settled_def queue_ok_def)
    then have "writer_abort c = Ret (?c, [])" using False
      by (auto simp: writer_abort_def writer_default_write_abort_def writer_writer_cleanup_def
          writer_cleanup_resources_def amqp_io_event_watcher_set_def writer_cleanup_write_watcher_def)
    then show ?thesis by (rule that)
      (simp_all add: control_view_def reader_ok_def writer_clear_buffer_queue_def writer_deallocate_buffer_queue_element_def eval_nat_numeral)
  qed
qed

lemma stop_reader:
  assumes "reader_ok c"
  obtains c' where "reader_stop c = Ret (c', [])" and "read_watcher c' \<noteq> Some True"
    and "reader_name c' \<notin> {Reader_enabled, Reader_reading}" and "control_view c' = control_view c"
    and "write_watcher c' = write_watcher c" and "socket_name c' = socket_name c"
  using assms by (cases "reader_name c") (auto simp: reader_ok_def reader_stop_def reader_stop_while_initialized_def reader_reader_stop_def
      amqp_io_event_watcher_set_def reader_cleanup_reader_def control_view_def)

lemma shut_socket:
  assumes "socket_name c \<noteq> Socket_resolving"
  obtains c' where "socket_shutdown c = Ret (c', [Connection_done])" and "connect_watcher c' = None" and "fd c' = - 1"
    and "control_view c' = control_view c" and "write_watcher c' = write_watcher c" and "read_watcher c' = read_watcher c"
    and "reader_name c' = reader_name c"
  using assms by (cases "socket_name c") (auto simp: socket_shutdown_def socket_stop_and_notify_connection_shutdown_def socket_cleanup_everything_def
      socket_free_address_info_def socket_close_connection_socket_def socket_cleanup_connect_watcher_def control_view_def)

lemma control_alive: "control_view c' = control_view c \<Longrightarrow> destroyed c' = destroyed c"
  by (simp add: control_view_def)

lemma stop_and_shut:
  assumes "\<not> destroyed c" and "reader_ok c" and "write_watcher c = None" and "socket_name c \<noteq> Socket_resolving"
  obtains c' where "(step env)\<^sup>*\<^sup>* (c, [Reader_stop, Socket_shutdown]) (c', [Connection_done])"
    and "control_view c' = control_view c" and "released c'"
proof -
  obtain c1 where c1: "reader_stop c = Ret (c1, [])" "read_watcher c1 \<noteq> Some True" "control_view c1 = control_view c"
    "write_watcher c1 = write_watcher c" "socket_name c1 = socket_name c" "reader_name c1 \<notin> {Reader_enabled, Reader_reading}"
    by (rule stop_reader [OF assms(2)])
  obtain c2 where c2: "socket_shutdown c1 = Ret (c2, [Connection_done])" "connect_watcher c2 = None" "fd c2 = - 1"
    "control_view c2 = control_view c1" "write_watcher c2 = write_watcher c1" "read_watcher c2 = read_watcher c1"
    "reader_name c2 = reader_name c1" using shut_socket [of c1] assms(4) c1(5) by auto
  have "run_steps 2 env (c, [Reader_stop, Socket_shutdown]) = Ret (c2, [Connection_done])"
    using c1(1) c2(1) assms(1) control_alive [OF c1(3)] by (simp add: numeral_2_eq_2 handle_def)
  from run_steps_step [OF this] show ?thesis by (rule that) (use c1 c2 assms(3) in \<open>simp_all add: released_def\<close>)
qed

lemma stop_activity:
  assumes "stoppable c"
  obtains c' where "(step env)\<^sup>*\<^sup>* (c, [Writer_abort, Reader_stop, Socket_shutdown]) (c', [Connection_done])"
    and "control_view c' = control_view c" and "released c'"
proof -
  obtain c1 where c1: "writer_abort c = Ret (c1, [])" "write_watcher c1 = None" "control_view c1 = control_view c"
    "reader_ok c1 = reader_ok c" "socket_name c1 = socket_name c" using abort_writer [of c] assms by (auto simp: stoppable_def)
  obtain c2 where c2: "(step env)\<^sup>*\<^sup>* (c1, [Reader_stop, Socket_shutdown]) (c2, [Connection_done])" "control_view c2 = control_view c1" "released c2"
    by (rule stop_and_shut [of c1 env]) (use assms c1 control_alive [OF c1(3)] in \<open>simp_all add: stoppable_def\<close>)
  have "handle env Writer_abort c = Ret (c1, [])" using assms c1(1) by (simp add: handle_def stoppable_def)
  from stepI [OF this, of "[Reader_stop, Socket_shutdown]"] c2(1)
  have "(step env)\<^sup>*\<^sup>* (c, [Writer_abort, Reader_stop, Socket_shutdown]) (c2, [Connection_done])"
    by (auto intro: converse_rtranclp_into_rtranclp)
  then show ?thesis using that c2(2,3) c1(3) by simp
qed

section \<open>The end\<close>

lemma flag_and_not: "(f AND NOT (m OR n)) AND m = (0 :: uint32)"
  by (rule bit_word_eqI) (auto simp: bit_simps)

lemma done_halts:
  assumes "released c" and "\<not> destroyed c" and "\<not> accept_handler_arguments c"
    and "connection_name c \<in> {Timeout_stopping_output, Timeout_draining_input}
      \<or> connection_name c = Stopping \<and> data_word c \<in> {amqp_cs_complete_write_and_close_socket, amqp_cs_abort_socket}"
  obtains c' where "(step env)\<^sup>*\<^sup>* (c, [Connection_done]) (c', [])" and "halted c c'"
proof -
  define name where "name = (if connection_name c = Stopping \<and> data_word c \<noteq> amqp_cs_abort_socket then Stopped else Failed)"
  let ?c = "(amqp_connection_flag_clear (AMQP_CONNECTION_RUNNING OR AMQP_CONNECTION_SOCKET_CONNECTED OR AMQP_CONNECTION_SOCKET_ACCEPTED)
    (amqp_timer_stop (transition_to_state name c)))\<lparr>halts := halts c + 1\<rparr>"
  have "run_steps 3 env (c, [Connection_done]) = Ret (?c, [])"
    using assms(2-4)
    by (auto simp: numeral_3_eq_3 handle_def connection_done_def connection_done_or_fail_while_timeout_def connection_done_while_stopping_def
        connection_connection_halt_def amqp_connection_flag_clear_def amqp_timer_stop_def Let_def name_def)
  then have "(step env)\<^sup>*\<^sup>* (c, [Connection_done]) (?c, [])" by (rule run_steps_step)
  moreover have "halted c ?c"
    using assms(1,2) flag_and_not [of "flags c" AMQP_CONNECTION_RUNNING "AMQP_CONNECTION_SOCKET_CONNECTED OR AMQP_CONNECTION_SOCKET_ACCEPTED"]
    by (auto simp: halted_def released_def name_def amqp_connection_flag_clear_def amqp_timer_stop_def amqp_connection_is_def)
  ultimately show ?thesis by (rule that)
qed

lemma halted_control: "control_view c1 = control_view c \<Longrightarrow> halted c1 c' \<longleftrightarrow> halted c c'"
  by (simp add: halted_def control_view_def)

lemma stoppable_transition: "stoppable (transition_to_state name c) = stoppable c"
  by (simp add: stoppable_def settled_def queue_ok_def reader_ok_def)

text \<open>Everything is stopped at once.\<close>

lemma activity_halts:
  assumes "stoppable c" and "connection_name c \<in> {Timeout_stopping_output, Timeout_draining_input}
      \<or> connection_name c = Stopping \<and> data_word c = amqp_cs_abort_socket"
  obtains c' where "(step env)\<^sup>*\<^sup>* (c, [Writer_abort, Reader_stop, Socket_shutdown]) (c', [])" and "halted c c'"
proof -
  obtain c1 where c1: "(step env)\<^sup>*\<^sup>* (c, [Writer_abort, Reader_stop, Socket_shutdown]) (c1, [Connection_done])"
    "control_view c1 = control_view c" "released c1" by (rule stop_activity [OF assms(1)])
  obtain c' where "(step env)\<^sup>*\<^sup>* (c1, [Connection_done]) (c', [])" "halted c1 c'"
    by (rule done_halts [OF c1(3), of env]) (use assms c1(2) in \<open>auto simp: stoppable_def control_view_def\<close>)
  then show ?thesis using that c1(1) halted_control [OF c1(2)] by (meson rtranclp_trans)
qed

section \<open>Failure, timeout and close\<close>

definition fails_by_default :: "connection_state \<Rightarrow> bool" where
  "fails_by_default name \<longleftrightarrow> name \<notin> {Connecting_socket, Connecting_tls, Connecting_sasl, Connecting_amqp, Accepting_tls, Accepting_sasl,
     Accepting_amqp, Stopping, Timeout_stopping_output, Timeout_draining_input}"

text \<open>An established connection that fails is aborted.\<close>

lemma fail_halts:
  assumes "stoppable c" and "fails_by_default (connection_name c)"
  shows "\<exists>c'. (step env)\<^sup>*\<^sup>* (c, [Connection_fail]) (c', []) \<and> halted c c'"
proof -
  let ?c = "transition_to_state Stopping (c\<lparr>data_word := amqp_cs_abort_socket\<rparr>)"
  have "connection_fail c = connection_shutdown_connection amqp_cs_abort_socket c"
    using assms(2) by (cases "connection_name c") (simp_all add: fails_by_default_def connection_fail_def)
  then have "handle env Connection_fail c = Ret (?c, [Writer_abort, Reader_stop, Socket_shutdown])"
    using assms(1) by (simp add: handle_def stoppable_def connection_shutdown_connection_def Let_def)
  note first = stepI [OF this, of "[]", simplified]
  have "stoppable ?c" using assms(1) by (simp add: stoppable_transition) (simp add: stoppable_def settled_def queue_ok_def reader_ok_def)
  then obtain c' where "(step env)\<^sup>*\<^sup>* (?c, [Writer_abort, Reader_stop, Socket_shutdown]) (c', [])" "halted ?c c'"
    by (rule activity_halts [of ?c env]) simp_all
  then show ?thesis using first by (auto simp: halted_def intro: converse_rtranclp_into_rtranclp)
qed

text \<open>The timer expires while the connection waits for the writer or drains its input.\<close>

lemma timeout_halts:
  assumes "stoppable c" and "timeout_pointer c \<in> {Timeout_while_stopping_output, Timeout_while_draining_input}"
  shows "\<exists>c'. (step env)\<^sup>*\<^sup>* (c, [Connection_timeout]) (c', []) \<and> halted c c'"
proof -
  define name where "name = (if timeout_pointer c = Timeout_while_stopping_output then Timeout_stopping_output else Timeout_draining_input)"
  have name: "name \<in> {Timeout_stopping_output, Timeout_draining_input}"
    "handle env Connection_timeout c = Ret (transition_to_state name c, [Writer_abort, Reader_stop, Socket_shutdown])"
    using assms by (auto simp: name_def handle_def stoppable_def connection_timeout_def connection_timeout_while_stopping_output_def
        connection_timeout_while_draining_input_def connection_stop_activity_def)
  let ?c = "transition_to_state name c"
  have "stoppable ?c" using assms(1) by (simp add: stoppable_transition)
  then obtain c' where "(step env)\<^sup>*\<^sup>* (?c, [Writer_abort, Reader_stop, Socket_shutdown]) (c', [])" "halted ?c c'"
    by (rule activity_halts [of ?c env]) (use name(1) in auto)
  then show ?thesis using stepI [OF name(2), of "[]", simplified] by (auto simp: halted_def intro: converse_rtranclp_into_rtranclp)
qed

text \<open>Closing: at once when the writer has nothing to send, and otherwise at the latest when its time has run out.\<close>

lemma stopped_writer:
  assumes "stoppable c" and "writer_name c \<notin> {Writer_writing, Writer_stopping}"
  obtains c' where "writer_stop c = Ret (c', [Connection_done])" and "write_watcher c' = None" and "control_view c' = control_view c"
    and "reader_ok c' = reader_ok c" and "socket_name c' = socket_name c"
proof (cases "writer_name c = Writer_enabled")
  case True
  let ?c = "writer_clear_buffer_queue (c\<lparr>stopped_callback := False, writer_name := Writer_stopped, write_watcher := None\<rparr>)"
  have "writer_stop c = Ret (?c, [Connection_done])" using assms(1) True
    by (cases c) (auto simp: stoppable_def settled_def queue_ok_def writer_stop_def writer_writer_stop_def writer_writer_cleanup_def
        writer_cleanup_resources_def amqp_io_event_watcher_set_def writer_cleanup_write_watcher_def writer_call_done_callback_def
        writer_clear_buffer_queue_def writer_deallocate_buffer_queue_element_def eval_nat_numeral)
  then show ?thesis by (rule that)
    (simp_all add: control_view_def reader_ok_def writer_clear_buffer_queue_def writer_deallocate_buffer_queue_element_def eval_nat_numeral)
next
  case False
  then show ?thesis using assms that
    by (cases "writer_name c") (auto simp: stoppable_def settled_def queue_ok_def writer_stop_def writer_stop_while_initialized_def
        writer_call_done_callback_def control_view_def reader_ok_def)
qed

lemma close_idle_halts:
  assumes "stoppable c" and "writer_name c \<notin> {Writer_writing, Writer_stopping}" and "connection_name c = Stopping_output"
    and "data_word c = amqp_cs_complete_write_and_close_socket"
  shows "\<exists>c'. (step env)\<^sup>*\<^sup>* (c, [Writer_stop]) (c', []) \<and> halted c c'"
proof -
  obtain c1 where c1: "writer_stop c = Ret (c1, [Connection_done])" "write_watcher c1 = None" "control_view c1 = control_view c"
    "reader_ok c1 = reader_ok c" "socket_name c1 = socket_name c" by (rule stopped_writer [OF assms(1,2)])
  let ?c = "transition_to_state Stopping c1"
  have alive: "\<not> destroyed c" "\<not> accept_handler_arguments c" using assms(1) by (simp_all add: stoppable_def)
  have "run_steps 2 env (c, [Writer_stop]) = Ret (?c, [Reader_stop, Socket_shutdown])"
    using c1(1,3) assms(3,4) alive by (simp add: numeral_2_eq_2 handle_def control_view_def connection_done_def connection_done_while_stopping_output_def)
  then have first: "(step env)\<^sup>*\<^sup>* (c, [Writer_stop]) (?c, [Reader_stop, Socket_shutdown])" by (rule run_steps_step)
  obtain c2 where c2: "(step env)\<^sup>*\<^sup>* (?c, [Reader_stop, Socket_shutdown]) (c2, [Connection_done])" "control_view c2 = control_view ?c" "released c2"
    by (rule stop_and_shut [of ?c env]) (use assms(1) c1 alive in \<open>auto simp: stoppable_def reader_ok_def control_view_def\<close>)
  obtain c' where "(step env)\<^sup>*\<^sup>* (c2, [Connection_done]) (c', [])" "halted c2 c'"
    by (rule done_halts [OF c2(3), of env]) (use c1(3) c2(2) assms(4) alive in \<open>auto simp: control_view_def\<close>)
  moreover have "halts c2 = halts c" "failure_flags c2 = failure_flags c" using c2(2) c1(3) by (simp_all add: control_view_def)
  ultimately show ?thesis using first c2(1) by (metis halted_def rtranclp_trans)
qed

lemma close_halts:
  assumes "stoppable c" and "writer_name c \<noteq> Writer_stopping"
  shows "\<exists>es c'. (es = [] \<or> es = [Timer_expired t] \<and> writer_name c = Writer_writing)
    \<and> (now c \<le> t \<longrightarrow> trace env (c, [Connection_close]) es (c', []) \<and> halted c c')"
proof -
  let ?c = "transition_to_state Stopping_output (amqp_timer_start write_complete_time (c\<lparr>data_word := amqp_cs_complete_write_and_close_socket\<rparr>))"
  have "handle env Connection_close c = Ret (?c, [Writer_stop])"
    using assms(1) by (simp add: handle_def stoppable_def connection_close_def connection_shutdown_connection_def Let_def)
  note first = stepI [OF this, of "[]", simplified]
  have ok: "stoppable ?c" using assms(1)
    by (simp add: stoppable_transition) (simp add: stoppable_def settled_def queue_ok_def reader_ok_def amqp_timer_start_def)
  show ?thesis
  proof (cases "writer_name c = Writer_writing")
    case False
    have "\<exists>c'. (step env)\<^sup>*\<^sup>* (?c, [Writer_stop]) (c', []) \<and> halted ?c c'"
      by (rule close_idle_halts [OF ok]) (use False assms(2) in \<open>simp_all add: amqp_timer_start_def\<close>)
    then obtain c' where c': "(step env)\<^sup>*\<^sup>* (?c, [Writer_stop]) (c', [])" "halted ?c c'" by blast
    have "trace env (c, [Connection_close]) [] (c', [])"
      by (rule trace.trace_call [OF first trace_steps [OF c'(1) trace.trace_done]])
    moreover have "halted c c'" using c'(2) by (simp add: halted_def amqp_timer_start_def)
    ultimately show ?thesis by blast
  next
    case True
    let ?w = "?c\<lparr>stopped_callback := True, writer_name := Writer_stopping\<rparr>" and ?t = "?c\<lparr>stopped_callback := True, writer_name := Writer_stopping, now := t\<rparr>"
    have alive: "\<not> destroyed c" using assms(1) by (simp add: stoppable_def)
    have "handle env Writer_stop ?c = Ret (?w, [])"
      using True alive by (simp add: handle_def writer_stop_def writer_stop_while_writing_def amqp_timer_start_def)
    note second = stepI [OF this, of "[]", simplified]
    have "stoppable ?t" using ok True by (simp add: stoppable_def settled_def queue_ok_def reader_ok_def amqp_timer_start_def)
    then obtain c' where c': "(step env)\<^sup>*\<^sup>* (?t, [Connection_timeout]) (c', [])" "halted ?t c'"
      using timeout_halts [of ?t env] by auto
    have h: "halted c c'" using c'(2) by (simp add: halted_def amqp_timer_start_def)
    have "trace env (c, [Connection_close]) [Timer_expired t] (c', [])" if "now c \<le> t"
    proof (rule trace.trace_call [OF first], rule trace.trace_call [OF second], rule trace.trace_event)
      show "\<not> destroyed ?w" using alive by (simp add: amqp_timer_start_def)
      show "event_step (Timer_expired t) ?w (?t, [Connection_timeout])"
        using event_step.timer_expired [of ?w t] that by (simp add: amqp_timer_start_def write_complete_time_def)
      show "trace env (?t, [Connection_timeout]) [] (c', [])" by (rule trace_steps [OF c'(1) trace.trace_done])
    qed
    then show ?thesis using True h by blast
  qed
qed

text \<open>After the end only the application can cause anything.\<close>

lemma halted_quiet:
  assumes "halted c c'" and "event_step e c' s"
  shows "\<exists>hostname. e = Application_connects hostname \<or> e = Application_shuts_down"
  using assms(2,1) by cases (auto simp: halted_def released_def)

end
