(* ===== verification/Connection_Errors.thy ===== *)
theory Connection_Errors
  imports Frame_Correct Connection_Shutdown
begin

text \<open>
  How connections fail: a frame whose size is not allowed ends the connection cleanly; the end of an
  accepted connection touches the connection after its memory was given back; and an error while the
  client sends its protocol header runs into an assertion.
\<close>

section \<open>A frame of a size that is not allowed\<close>

lemma stoppable_fields [simp]:
  "stoppable (c\<lparr>io_frame_size := n\<rparr>) = stoppable c" "stoppable (c\<lparr>failure_flags := f\<rparr>) = stoppable c"
  by (simp_all add: stoppable_def settled_def queue_ok_def reader_ok_def)

lemma stoppable_completed:
  assumes "stoppable c" and "reader_name c = Reader_reading"
  shows "stoppable (completed b rest (c\<lparr>read_watcher := Some w\<rparr>))"
  using assms by (simp add: stoppable_def settled_def queue_ok_def reader_ok_def completed_def)

lemma invalid_size_fails:
  assumes "stoppable c" and "fails_by_default (connection_name c)" and "frame_name c = Frame_reading_frame_header"
    and "buffer_ok (buffer_read c)" and "take 4 (contents (buffer_read c)) = be_bytes 4 fsize" and "4 \<le> limit_size (buffer_read c)"
    and "frame_size_invalid fsize c"
  shows "\<exists>c'. (step env)\<^sup>*\<^sup>* (c, [Reader_callback Frame_read_complete 8, Reader_delayed_read]) (c', [])
    \<and> halted (amqp_connection_failure_flag_set AMQP_CONNECTION_READ_ERROR c) c'"
proof -
  let ?c = "amqp_connection_failure_flag_set AMQP_CONNECTION_READ_ERROR (c\<lparr>io_frame_size := fsize\<rparr>)"
  have alive: "\<not> destroyed c" using assms(1) by (simp add: stoppable_def)
  have inv: "frame_size_invalid fsize (c\<lparr>io_frame_size := fsize\<rparr>)" using assms(7) by (simp add: frame_size_invalid_def)
  have "handle env (Reader_callback Frame_read_complete 8) c = Ret (?c, [Connection_fail, Frame_size_error_dumped])"
    using alive assms(3) inv read_size_word [OF assms(4,6,5)]
    by (simp add: handle_def call_read_callback_def frame_read_done_def frame_read_done_while_reading_frame_header_def Let_def)
  note first = stepI [OF this, of "[Reader_delayed_read]", simplified]
  obtain c' where c': "(step env)\<^sup>*\<^sup>* (?c, [Connection_fail]) (c', [])" "halted ?c c'"
    using fail_halts [of ?c env] assms(1,2) by (auto simp: amqp_connection_failure_flag_set_def)
  have "run_steps 2 env (c', [Frame_size_error_dumped, Reader_delayed_read]) = Ret (c', [])"
    using c'(2) by (cases "reader_name c'") (auto simp: numeral_2_eq_2 handle_def halted_def released_def reader_delayed_read_def)
  then have "(step env)\<^sup>*\<^sup>* (?c, [Connection_fail, Frame_size_error_dumped, Reader_delayed_read]) (c', [])"
    using steps_append [OF c'(1), of "[Frame_size_error_dumped, Reader_delayed_read]"] run_steps_step by (auto intro: rtranclp_trans)
  with first have "(step env)\<^sup>*\<^sup>* (c, [Reader_callback Frame_read_complete 8, Reader_delayed_read]) (c', [])"
    by (rule converse_rtranclp_into_rtranclp)
  then show ?thesis using c'(2) by (auto simp: halted_def amqp_connection_failure_flag_set_def)
qed

lemma invalid_frame_size_halts:
  assumes "reading 8 Frame_read_complete c" and "read_watcher c = Some True" and "frame_name c = Frame_reading_frame_header"
    and "stoppable c" and "fails_by_default (connection_name c)" and "length (contents (buffer_read c)) = satisfied c"
    and "[] \<notin> set cs" and "8 \<le> satisfied c + length (concat cs)"
    and "take 4 (contents (buffer_read c) @ concat cs) = be_bytes 4 fsize" and "frame_size_invalid fsize c"
  shows "\<exists>c'. trace env (c, []) [readable_pieces cs] (c', []) \<and> halted (amqp_connection_failure_flag_set AMQP_CONNECTION_READ_ERROR c) c'"
proof -
  have alive: "\<not> destroyed c" using assms(4) by (simp add: stoppable_def)
  let ?left = "map Received (after_bytes (8 - satisfied c) cs)"
  obtain b where b: "appended (buffer_read c) (take (8 - satisfied c) (concat cs)) b"
    "trace env (c, []) [readable_pieces cs] (completed b ?left (c\<lparr>read_watcher := Some False\<rparr>),
       [Reader_callback Frame_read_complete 8, Reader_delayed_read])"
    using readable_event_complete [OF assms(1) alive assms(2,7,8), of env] by auto
  let ?c = "completed b ?left (c\<lparr>read_watcher := Some False\<rparr>)"
  have r: "reader_name c = Reader_reading" "satisfied c < 8" using assms(1) by (simp_all add: reading_def)
  have cont: "contents b = contents (buffer_read c) @ take (8 - satisfied c) (concat cs)" "buffer_ok b" "limit_size b = 8"
    using appended_contents [OF b(1)] b(1) assms(6,8) r(2) by (simp_all add: appended_def)
  have min: "min (4 - satisfied c) (8 - satisfied c) = 4 - satisfied c" by linarith
  have pre: "take 4 (contents b) = be_bytes 4 fsize" using cont(1) assms(6,9) min by simp
  have "\<exists>c'. (step env)\<^sup>*\<^sup>* (?c, [Reader_callback Frame_read_complete 8, Reader_delayed_read]) (c', [])
    \<and> halted (amqp_connection_failure_flag_set AMQP_CONNECTION_READ_ERROR ?c) c'"
    by (rule invalid_size_fails [OF stoppable_completed [OF assms(4) r(1)]])
      (use assms(3,5,10) cont pre in \<open>simp_all add: completed_def frame_size_invalid_def\<close>)
  then obtain c' where c': "(step env)\<^sup>*\<^sup>* (?c, [Reader_callback Frame_read_complete 8, Reader_delayed_read]) (c', [])"
    "halted (amqp_connection_failure_flag_set AMQP_CONNECTION_READ_ERROR ?c) c'" by blast
  have "trace env (c, []) ([readable_pieces cs] @ []) (c', [])" by (rule trace_append [OF b(2) trace_steps [OF c'(1) trace.trace_done]])
  then show ?thesis using c'(2) by (auto simp: halted_def completed_def amqp_connection_failure_flag_set_def)
qed

section \<open>The end of an accepted connection\<close>

lemma accepted_done_faults:
  assumes "\<not> destroyed c" and "accept_handler_arguments c" and "connection_name c = Stopping"
    and "data_word c \<in> {amqp_cs_complete_write_drain_input_and_close_socket, amqp_cs_complete_write_and_close_socket,
      amqp_cs_close_socket, amqp_cs_abort_socket}"
  shows "run_calls (5 + n) env (Connection_done # ks) c = Fault BadMemory"
proof -
  have five: "5 + n = Suc (Suc (Suc (Suc (Suc n))))" by simp
  show ?thesis using assms unfolding five
    by (auto simp: handle_def connection_done_def connection_done_while_stopping_def connection_connection_halt_def Let_def
        amqp_connection_flag_clear_def amqp_timer_stop_def connection_shutdown_def amqp_connection_state_cleanup_def)
qed

section \<open>An error while the protocol header is sent\<close>

text \<open>The write fails: the writer gives up and the connection starts to drain its input, all within the call of \<open>write\<close>.\<close>

lemma failing_write:
  assumes "writer_idle c" and "sendable b" and "unread b \<noteq> []" and "write_results c = [Write_error e]"
    and "connection_name c \<in> {Connecting_sasl, Connecting_amqp}"
  obtains c' where "(step env)\<^sup>*\<^sup>* (c, Writer_write b # ks) (c', Connection_drain # ks)" and "writer_name c' = Writer_failed"
    and "reader_name c' = reader_name c" and "read_watcher c' = read_watcher c" and "buffer_read c' = buffer_read c"
    and "incoming c' = incoming c" and "destroyed c' = destroyed c" and "connection_name c' = connection_name c"
proof -
  define c1 where "c1 = c\<lparr>writer_name := Writer_writing, queue_end := writer_increment_queue_index (queue_end c),
    buffer_queue := (buffer_queue c)[queue_end c := Some b]\<rparr>"
  note same = c1_def
  have c1: "handle env (Writer_write b) c = writer_continue_write_operation c1" "busy b c1" "write_results c1 = write_results c"
    using assms(1,2) by (simp_all add: c1_def handle_def writer_idle_def writer_write_def writer_commence_write_while_enabled_def
        writer_commence_write_operation_def Let_def busy_def)
  obtain vs where "amqp_buffer_read_io_vec b = Ret vs" by (rule read_io_vec_ok [OF assms(2,3)])
  then have "writer_write_loop [Write_error e] b [] = Ret (b, [], [], Some (Write_error e))"
    using available_unread [OF assms(2)] assms(3) by (subst writer_write_loop.simps) (simp add: unread_Nil)
  then have "writer_continue_write_operation c1 = Ret (c1\<lparr>buffer_queue := (buffer_queue c1)[queue_start c1 := Some b], outgoing := outgoing c1,
      write_results := []\<rparr>, [Writer_fail e])"
    using c1(2,3) assms(4) by (auto simp: busy_def writer_continue_write_operation_def Let_def)
  then have h: "handle env (Writer_write b) c = Ret (c1\<lparr>buffer_queue := (buffer_queue c1)[queue_start c1 := Some b], outgoing := outgoing c1,
      write_results := []\<rparr>, [Writer_fail e])" using c1(1) by simp
  have "\<exists>c'. run_steps 3 env (c, Writer_write b # ks) = Ret (c', Connection_drain # ks) \<and> writer_name c' = Writer_failed
    \<and> reader_name c' = reader_name c \<and> read_watcher c' = read_watcher c \<and> buffer_read c' = buffer_read c
    \<and> incoming c' = incoming c \<and> destroyed c' = destroyed c \<and> connection_name c' = connection_name c"
    using h assms(1,5) same
    by (auto simp: numeral_3_eq_3 handle_def writer_idle_def writer_fail_def writer_writer_fail_def writer_cleanup_resources_def
        amqp_io_event_watcher_set_def writer_cleanup_write_watcher_def writer_clear_buffer_queue_def writer_deallocate_buffer_queue_element_def
        amqp_connection_failed_def amqp_connection_failure_flag_set_def connection_fail_def client_fail_while_connecting_sasl_def
        client_fail_while_connecting_amqp_def)
  then show ?thesis using that run_steps_step by blast
qed

text \<open>The drain starts a read, and then the client starts another one.\<close>

lemma drain_reads:
  assumes "\<not> destroyed c" and "connection_name c \<in> {Connecting_sasl, Connecting_amqp}" and "writer_name c = Writer_failed"
    and "reader_name c = Reader_enabled" and "read_watcher c \<noteq> None" and "buffer_ok (buffer_read c)" and "incoming c = []"
  obtains c' where "(step env)\<^sup>*\<^sup>* (c, Connection_drain # ks) (c', ks)" and "\<not> destroyed c'" and "reader_name c' = Reader_reading"
    and "read_callback_pointer c' \<noteq> None"
proof -
  define c1 where "c1 = transition_to_state Draining_input (amqp_timer_start input_drain_time
    (transition_to_state Stopping_output (amqp_timer_start write_complete_time
      (c\<lparr>data_word := amqp_cs_complete_write_drain_input_and_close_socket\<rparr>))))"
  define c2 where "c2 = c1\<lparr>buffer_read := amqp_buffer_reset (buffer_read c1)\<rparr>"
  let ?n = "amqp_buffer_capacity (buffer_read c2)"
  define c3 where "c3 = reader_queue_read_operation ?n Connection_read_complete (c2\<lparr>reader_name := Reader_reading\<rparr>)"
  have f: "\<not> destroyed c2" "reader_name c2 = Reader_enabled" "read_watcher c2 \<noteq> None" "incoming c2 = []"
    "buffer_read c2 = amqp_buffer_reset (buffer_read c)"
    using assms by (simp_all add: c2_def c1_def amqp_timer_start_def)
  have b: "buffer_ok (buffer_read c2)" "limit_size (buffer_read c2) = 0" "0 < ?n"
    using assms(6) f(5) buffer_ok_bounds(3) [OF assms(6)] by (auto simp: buffer_ok_def amqp_buffer_reset_def Let_def amqp_buffer_capacity_def)
  have rd: "reading ?n Connection_read_complete c3" "incoming c3 = []" "\<not> destroyed c3"
    using f b by (simp_all add: reading_def c3_def reader_queue_read_operation_def amqp_buffer_capacity_def)
  have loop: "reader_continue_read_operation Reader_delayed_read c3 = Ret (c3\<lparr>incoming := [], read_watcher := Some True\<rparr>, [])"
    using read_blocks [OF rd(1)] rd(1,2) by (simp add: reader_continue_read_operation_def reader_read_what_is_buffered_def reading_def)
  have drain: "run_steps 3 env (c, Connection_drain # ks) = Ret (c2, Reader_reset # Reader_commence_read ?n Connection_read_complete # ks)"
    using assms(1-3)
    by (auto simp: numeral_3_eq_3 handle_def connection_drain_def connection_shutdown_connection_def Let_def writer_stop_def amqp_timer_start_def
        connection_done_def connection_done_while_stopping_output_def c2_def c1_def)
  have "run_steps 2 env (c2, Reader_reset # Reader_commence_read ?n Connection_read_complete # ks)
    = Ret (c3\<lparr>incoming := [], read_watcher := Some True\<rparr>, ks)"
    using f loop by (simp add: numeral_2_eq_2 handle_def reader_reset_def reader_commence_read_def reader_commence_read_while_enabled_def c3_def)
  with drain have "(step env)\<^sup>*\<^sup>* (c, Connection_drain # ks) (c3\<lparr>incoming := [], read_watcher := Some True\<rparr>, ks)"
    using run_steps_step by (meson rtranclp_trans)
  then show ?thesis by (rule that) (use rd in \<open>simp_all add: reading_def\<close>)
qed

lemma header_write_error:
  assumes "\<not> destroyed c" and "connection_name c \<in> {Connecting_sasl, Connecting_amqp}" and "negotiator_name c = Negotiator_initialized"
    and "writer_idle c" and "write_results c = [Write_error e]"
    and "reader_name c = Reader_enabled" and "read_watcher c \<noteq> None" and "buffer_ok (buffer_read c)" and "incoming c = []"
  shows "\<exists>c' k ks. (step env)\<^sup>*\<^sup>* (c, [Negotiator_start version confirm reject]) (c', k # ks) \<and> handle env k c' = Fault AssertFailed"
proof -
  obtain b where b: "negotiator_write_version version = Ret [Writer_write b]" "sendable b" "unread b = version_header version"
    by (rule write_version_ok)
  let ?c = "c\<lparr>preferred_version := version, confirm_pointer := Some confirm, handshake_reject_pointer := Some reject, request_pointer := False\<rparr>"
  have "handle env (Negotiator_start version confirm reject) c = Ret (?c, [Writer_write b, Negotiator_started])"
    using assms(1,3) b(1) by (simp add: handle_def negotiator_start_def negotiator_start_while_initialized_def)
  note s1 = stepI [OF this, of "[]", simplified]
  have "unread b \<noteq> []" using b(3) by (simp add: version_header_def)
  then obtain c1 where c1: "(step env)\<^sup>*\<^sup>* (?c, [Writer_write b, Negotiator_started]) (c1, [Connection_drain, Negotiator_started])"
    "writer_name c1 = Writer_failed" "reader_name c1 = reader_name c" "read_watcher c1 = read_watcher c" "buffer_read c1 = buffer_read c"
    "incoming c1 = incoming c" "destroyed c1 = destroyed c" "connection_name c1 = connection_name c"
    using failing_write [of ?c b e env "[Negotiator_started]"] assms(2,4,5) b(2) by (auto simp: writer_idle_def)
  obtain c2 where c2: "(step env)\<^sup>*\<^sup>* (c1, [Connection_drain, Negotiator_started]) (c2, [Negotiator_started])" "\<not> destroyed c2"
    "reader_name c2 = Reader_reading" "read_callback_pointer c2 \<noteq> None"
    by (rule drain_reads [of c1 env "[Negotiator_started]"]) (use assms c1 in simp_all)
  let ?c3 = "c2\<lparr>negotiator_name := Negotiator_waiting_for_broker_response, buffer_read := amqp_buffer_reset (buffer_read c2)\<rparr>"
  have "handle env Negotiator_started c2 = Ret (?c3, [Reader_commence_read 8 Negotiator_read_complete])"
    using c2(2) by (simp add: handle_def negotiator_started_def)
  note s2 = stepI [OF this, of "[]", simplified]
  have "(step env)\<^sup>*\<^sup>* (c, [Negotiator_start version confirm reject]) (?c3, [Reader_commence_read 8 Negotiator_read_complete])"
    using s1 c1(1) c2(1) s2 by (meson converse_rtranclp_into_rtranclp rtranclp.rtrancl_into_rtrancl rtranclp_trans)
  moreover have "handle env (Reader_commence_read 8 Negotiator_read_complete) ?c3 = Fault AssertFailed"
    using c2(2-4) by (simp add: handle_def reader_commence_read_def reader_commence_read_while_reading_def run_assert_def)
  ultimately show ?thesis by blast
qed

end
