(* ===== verification/Connection_Samples.thy ===== *)
theory Connection_Samples
  imports Connection_Errors
begin

text \<open>Small connections on which the properties of connections are instantiated.\<close>

definition sample_environment :: environment where
  "sample_environment = \<lparr>amqp_lookup_host_address = Inr [Connect_succeeds], sasl_frame_decoder = (\<lambda>_. None), amqp_frame_decoder = (\<lambda>_. None),
     amqp_context_sasl_plugin_count = 1, encoded_sasl_mechanisms = new_buffer, encoded_sasl_init = new_buffer, encoded_sasl_outcome = new_buffer,
     encoded_open = new_buffer, encoded_close = new_buffer, encoded_empty = new_buffer, amqp_sasl_select_mechanism = True,
     amqp_context_lookup_sasl_plugin = True, amqp_sasl_plugin_initial_response_handle = Amqp_plugin_handler_outcome_accepted,
     amqp_sasl_plugin_handle_outcome = True\<rparr>"

text \<open>A client with its tunnel established and reader, writer and frame reader enabled.\<close>

definition sample_client :: amqp_connection_t where
  "sample_client = (create_connection 4096)\<lparr>connection_name := Amqp_tunnel_established, socket_name := Socket_connected, fd := 3,
     reader_name := Reader_enabled, read_watcher := Some False, writer_name := Writer_enabled, write_watcher := Some False,
     frame_name := Frame_enabled\<rparr>"

text \<open>The same client, waiting for the header of a frame.\<close>

definition sample_reading :: amqp_connection_t where
  "sample_reading = sample_client\<lparr>frame_name := Frame_reading_frame_header, reader_name := Reader_reading, read_watcher := Some True,
     read_callback_pointer := Some Frame_read_complete, read_is_queued := True, n_required := 8\<rparr>"

text \<open>A buffer that holds a protocol header.\<close>

definition sample_header :: amqp_buffer_t where
  "sample_header = new_buffer\<lparr>fragments := [0 \<mapsto> \<lambda>i. if i < 8 then [65, 77, 81, 80, 0, 1, 0, 0] ! i else 0], limit_size := 8\<rparr>"

definition sample_broker :: amqp_connection_t where
  "sample_broker = (create_connection 4096)\<lparr>connection_name := Waiting_on_client_negotiation_request,
     negotiator_name := Negotiator_waiting_on_client_request, request_pointer := True, buffer_read := sample_header\<rparr>"

definition sample_negotiating :: amqp_connection_t where
  "sample_negotiating = sample_client\<lparr>negotiator_name := Negotiator_waiting_for_broker_response, preferred_version := 0x00010000,
     confirm_pointer := Some Amqp_version_accepted, handshake_reject_pointer := Some Amqp_version_rejected, buffer_read := sample_header\<rparr>"

lemma new_buffer_capacity [simp]: "capacity new_buffer = 4096"
  by (simp add: new_buffer_def amqp_initialize_amqp_buffer_t_def)

lemma new_buffer_fields [simp]: "limit_size new_buffer = 0" "limit_index new_buffer = 0" "buffer_ok new_buffer"
  by (simp_all add: new_buffer_empty new_buffer_ok)

lemma sample_environment_ok: "environment_ok sample_environment"
  by (simp add: environment_ok_def sample_environment_def sendable_def)

lemma sample_header_ok: "buffer_ok sample_header" "limit_size sample_header = 8" "limit_index sample_header = 0" "capacity sample_header = 4096"
  by (auto simp: sample_header_def buffer_ok_def Let_def split: if_splits)

lemma sample_header_bytes: "map (byte_at sample_header) [0..<8] = [65, 77, 81, 80, 0, 1, 0, 0]"
  by (simp add: sample_header_def byte_at_def upt_rec)

lemma sample_version: "version_header 0x00010000 = [65, 77, 81, 80, 0, 1, 0, 0]"
  by (simp add: version_header_def be_bytes_4 word_byte_def drop_bit_eq_div)

lemma sample_header_at: "header_at sample_header (version_header 0x00010000)"
  using sample_header_bytes sample_version by (simp add: header_at_def sample_header_ok)

lemma sample_header_unread: "unread sample_header = version_header 0x00010000"
  using sample_header_bytes sample_version by (simp add: unread_def contents_def sample_header_ok)

lemma sample_client_settled: "settled sample_client"
  by (simp add: settled_def queue_ok_def sample_client_def create_connection_def)

lemma sample_client_stoppable: "stoppable sample_client" "stoppable sample_reading"
  using sample_client_settled
  by (simp_all add: stoppable_def settled_def queue_ok_def reader_ok_def sample_reading_def sample_client_def create_connection_def)

lemma sample_client_idle: "writer_idle sample_client"
  by (simp add: writer_idle_def sample_client_def create_connection_def eval_nat_numeral)

lemma sample_client_ready: "frame_reader_ready sample_client"
  by (simp add: frame_reader_ready_def sample_client_def create_connection_def)

lemma sample_reading_ok: "reading 8 Frame_read_complete sample_reading"
  by (simp add: reading_def sample_reading_def sample_client_def create_connection_def)

lemma sample_frame: "legal_frame sample_client [0, 0, 0, 8, 2, 0, 0, 0]"
  by (simp add: legal_frame_def sample_client_def create_connection_def be_bytes_4 word_byte_def drop_bit_eq_div)

lemma sample_broker_waiting: "server_waiting sample_broker"
  by (simp add: server_waiting_def sample_broker_def create_connection_def)

lemma sample_negotiating_waiting: "client_waiting 0x00010000 Amqp_version_accepted Amqp_version_rejected sample_negotiating"
  by (simp add: client_waiting_def sample_negotiating_def sample_client_def create_connection_def)

text \<open>A client that connects, with a system that does not take the protocol header at once: it waits for the socket to be writable.\<close>

lemma sample_connecting:
  assumes "negotiator_write_version AMQP_SASL_PREFERRED_VERSION = Ret [Writer_write b]"
  obtains c where "(step sample_environment)\<^sup>*\<^sup>* (amqp_connection_create 4096, [Connection_connect ''h'']) (c, [Writer_write b, Negotiator_started])"
    and "writer_idle c" and "write_results c = []" and "reader_name c = Reader_enabled" and "read_watcher c \<noteq> None"
    and "buffer_read c = new_buffer" and "incoming c = []"
proof -
  have "\<exists>c. run_steps (Suc (Suc (Suc (Suc (Suc (Suc (Suc (Suc (Suc (Suc (Suc 0)))))))))))
      sample_environment (amqp_connection_create 4096, [Connection_connect ''h'']) = Ret (c, [Writer_write b, Negotiator_started])
    \<and> writer_idle c \<and> write_results c = [] \<and> reader_name c = Reader_enabled \<and> read_watcher c \<noteq> None
    \<and> buffer_read c = new_buffer \<and> incoming c = []"
    using assms
    by (simp add: handle_def amqp_connection_create_def create_connection_def amqp_connection_socket_initialize_def socket_defs connection_defs
        negotiation_defs sasl_defs machine_defs reader_defs writer_enable_def writer_enable_while_initialized_def sample_environment_def
        writer_idle_def numeral_3_eq_3) blast
  then show ?thesis using that run_steps_step by blast
qed

lemma sample_blocked: "\<exists>c. reachable sample_environment (c, []) \<and> \<not> destroyed c \<and> write_watcher c = Some True"
proof -
  obtain b where b: "negotiator_write_version AMQP_SASL_PREFERRED_VERSION = Ret [Writer_write b]" "sendable b"
    "unread b = version_header AMQP_SASL_PREFERRED_VERSION" by (rule write_version_ok)
  obtain c where c: "(step sample_environment)\<^sup>*\<^sup>* (amqp_connection_create 4096, [Connection_connect ''h'']) (c, [Writer_write b, Negotiator_started])"
    "writer_idle c" "write_results c = []" "reader_name c = Reader_enabled" "read_watcher c \<noteq> None"
    "buffer_read c = new_buffer" "incoming c = []" by (rule sample_connecting [OF b(1)])
  define c1 where "c1 = c\<lparr>writer_name := Writer_writing, queue_end := writer_increment_queue_index (queue_end c),
    buffer_queue := (buffer_queue c)[queue_end c := Some b]\<rparr>"
  have c1: "handle sample_environment (Writer_write b) c = writer_continue_write_operation c1" "busy b c1"
    using c(2) b(2) by (simp_all add: c1_def handle_def writer_idle_def writer_write_def writer_commence_write_while_enabled_def
        writer_commence_write_operation_def Let_def busy_def)
  have "writer_continue_write_operation c1 = Ret (sent_part b (sum_list []) c1, [])"
    by (rule operation_part [OF c1(2)]) (use c(3) b(3) in \<open>simp_all add: c1_def del: length_unread\<close>)
  then have "handle sample_environment (Writer_write b) c = Ret (sent_part b 0 c1, [])" using c1(1) by simp
  note s1 = stepI [OF this, of "[Negotiator_started]", simplified]
  let ?c2 = "(sent_part b 0 c1)\<lparr>negotiator_name := Negotiator_waiting_for_broker_response, buffer_read := amqp_buffer_reset new_buffer\<rparr>"
  have f: "\<not> destroyed (sent_part b 0 c1)" "buffer_read (sent_part b 0 c1) = new_buffer" "reader_name ?c2 = Reader_enabled" "read_watcher ?c2 \<noteq> None"
    "incoming ?c2 = []" "write_watcher ?c2 = Some True"
    using c by (simp_all add: sent_part_def c1_def writer_idle_def)
  have "handle sample_environment Negotiator_started (sent_part b 0 c1) = Ret (?c2, [Reader_commence_read 8 Negotiator_read_complete])"
    using f by (simp add: handle_def negotiator_started_def)
  note s2 = stepI [OF this, of "[]", simplified]
  let ?c3 = "reader_queue_read_operation 8 Negotiator_read_complete (?c2\<lparr>reader_name := Reader_reading\<rparr>)"
  have "buffer_ok (amqp_buffer_reset new_buffer)" using new_buffer_fields by (simp add: amqp_buffer_reset_def buffer_ok_def Let_def)
  then have rd: "reading 8 Negotiator_read_complete ?c3" "incoming ?c3 = []" using f
    by (simp_all add: reading_def reader_queue_read_operation_def amqp_buffer_reset_def)
  have "handle sample_environment (Reader_commence_read 8 Negotiator_read_complete) ?c2 = Ret (?c3\<lparr>incoming := [], read_watcher := Some True\<rparr>, [])"
    using f read_blocks [OF rd(1)] rd by (simp add: handle_def reader_commence_read_def reader_commence_read_while_enabled_def
        reader_continue_read_operation_def reader_read_what_is_buffered_def reading_def)
  note s3 = stepI [OF this, of "[]", simplified]
  have "event_step (Application_connects ''h'') (amqp_connection_create 4096) (amqp_connection_create 4096, [Connection_connect ''h''])"
    using event_step.connects [of "''h''" "amqp_connection_create 4096"]
    by (simp add: amqp_connection_connect_to_def amqp_connection_create_def create_connection_def amqp_connection_socket_initialize_def)
  then have "reachable sample_environment (amqp_connection_create 4096, [Connection_connect ''h''])"
    by (rule reachable.events [OF reachable.created, rotated])
      (simp add: amqp_connection_create_def create_connection_def amqp_connection_socket_initialize_def)
  then have "reachable sample_environment (?c3\<lparr>incoming := [], read_watcher := Some True\<rparr>, [])"
    using steps_reachable [OF c(1)] reachable.calls [OF _ s1] reachable.calls [OF _ s2] reachable.calls [OF _ s3] by blast
  then show ?thesis using f(1,6) by (intro exI [of _ "?c3\<lparr>incoming := [], read_watcher := Some True\<rparr>"]) (simp add: reader_queue_read_operation_def)
qed

end
