(* ===== verification/Spec2Isabelle.thy ===== *)
theory Spec2Isabelle
  imports Samples Connection_Samples
begin

text \<open>
  A verification development for \<^verbatim>\<open>libamqp\<close>, an implementation in C of the AMQP 1.0 protocol
  (\<^verbatim>\<open>src/src/LibAmqp\<close>; the paths below are relative to that directory).

  \<^bold>\<open>The program and its parts.\<close> An application opens a connection to a broker, or accepts one. The
  connection is a set of small state machines (\<^verbatim>\<open>Transport/Connection\<close>) that call each other through tables of
  function pointers: a socket, a reader and a writer (\<^verbatim>\<open>IO/\<close>), the negotiation of protocol versions, the
  tunnels for TLS, SASL and AMQP, a reader of frames, the AMQP protocol and the connection itself. Bytes
  are kept in fragmented buffers (\<^verbatim>\<open>Buffer\<close>). The codec (\<^verbatim>\<open>Codec\<close>) turns values of the AMQP type system into
  bytes and back; decoded values live in pools (\<^verbatim>\<open>Memory/Pool.c\<close>) on top of a guarded allocator
  (\<^verbatim>\<open>Memory/Memory.c\<close>). \<^verbatim>\<open>AmqpTypes\<close> gives the application strings, symbols, a hash table and the table of
  descriptors that names the frames.

  \<^bold>\<open>How the C code is modelled.\<close> Machine integers are words of their width (\<open>Prelude\<close>: \<open>uint8\<close>, \<open>uint32\<close>, \<open>size_t\<close>
  as 64 bits). A struct is a record, an enumeration a datatype. Code that may abort returns \<open>'a run\<close>: \<open>Ret x\<close>, or
  \<open>Fault f\<close> where \<open>f\<close> is a failed assertion, a memory access outside an object, or the program's own
  \<open>not_implemented\<close> and fatal errors. State is passed explicitly; objects that the code shares by pointer are
  addresses in a store that is part of the state. Loops are recursive functions that terminate, with the
  measure of the loop as proof; where C recurses over the input (nested containers) the recursion is bounded
  by the number of unread bytes, and \<open>Decode_Safety\<close> proves that the bound is never reached. A call through a
  table of handlers is an element of type \<open>call\<close>: a handler returns the new state and the calls that it makes, in
  order, \<open>Machine.step\<close> executes the first of the pending calls, and \<open>Machine.run_calls\<close> runs the stack with fuel;
  no property relies on a particular amount of fuel: either enough of it is shown to exist, or the
  statement is about the relation \<open>step\<close>, which has none.

  \<^bold>\<open>Theories and sources.\<close>
  \<^item> \<open>Prelude\<close>: machine types, faults, lemmas on words and bytes.
  \<^item> \<open>Misc\<close>: \<^verbatim>\<open>Misc/Bits.c\<close>, \<^verbatim>\<open>Misc/Obfuscate.c\<close>, and the loop of \<^verbatim>\<open>Misc/IO.c\<close> over the results of \<^verbatim>\<open>write\<close>.
  \<^item> \<open>Byte_IO\<close> states what the codec expects of a byte store as locales (\<open>byte_store\<close>, \<open>byte_writer\<close>); \<open>Buffer\<close> models
    \<^verbatim>\<open>Buffer/Buffer.c\<close> and \<^verbatim>\<open>Buffer/BufferInlines.h\<close> and interprets them.
  \<^item> \<open>MetaData\<close>: the table of format codes (\<^verbatim>\<open>Codec/Type/EncodingMetaData.c\<close>) and its binary search. \<open>Types\<close>: the
    values of \<^verbatim>\<open>Codec/Type/Type.c\<close> with their store. \<open>Decode\<close>, \<open>Encode\<close>: \<^verbatim>\<open>Codec/Decode/Decode.c\<close>,
    \<^verbatim>\<open>Codec/Encode/Encode.c\<close>.
  \<^item> \<open>Values\<close>: the specification of the codec, values as a datatype with their encoding. \<open>Encode_Correct\<close>: the
    encoder appends that encoding. \<open>Decode_Correct\<close>, \<open>Decode_Containers\<close>: the decoder reads it.
    \<open>Decode_Safety\<close>: the decoder on arbitrary input. \<open>Codec\<close>: both together.
  \<^item> \<open>Allocator\<close>: the contract of an allocator as a locale, interpreted by \<open>Memory\<close> (\<^verbatim>\<open>Memory/Memory.c\<close>) and \<open>Pool\<close>
    (\<^verbatim>\<open>Memory/Pool.c\<close>).
  \<^item> \<open>Variable\<close>: binaries, strings and symbols (\<^verbatim>\<open>AmqpTypes/AmqpVariable.c\<close>, \<^verbatim>\<open>AmqpBinary.c\<close>, \<^verbatim>\<open>AmqpString.c\<close>,
    \<^verbatim>\<open>AmqpSymbol.c\<close>). \<open>Hash_Table\<close>: \<^verbatim>\<open>AmqpTypes/AmqpHashTable.c\<close>, over keys with the laws of the locale \<open>hash_key\<close>,
    which \<open>Descriptor\<close> (\<^verbatim>\<open>AmqpTypes/AmqpDescriptor.c\<close>) interprets for symbols.
  \<^item> \<open>Negotiator\<close>: the protocol header (\<^verbatim>\<open>Transport/Connection/Negotiator.c\<close>). \<open>Connection\<close>: the data of a connection,
    with a field per machine that holds the name of its state. \<open>Connection_Read\<close>, \<open>Connection_Write\<close>,
    \<open>Connection_Socket\<close>: \<^verbatim>\<open>Transport/Connection/IO/\<close>. \<open>Connection_Negotiation\<close>: \<^verbatim>\<open>ConnectionNegotiation.c\<close>,
    \<^verbatim>\<open>ConnectionTls.c\<close>, \<^verbatim>\<open>ConnectionAmqpTunnel.c\<close>. \<open>Connection_Frames\<close>: \<^verbatim>\<open>ConnectionFrameReader.c\<close>, \<^verbatim>\<open>ConnectionSasl.c\<close>,
    \<^verbatim>\<open>FrameDisplatch.c\<close>. \<open>Connection_Amqp\<close>: \<^verbatim>\<open>ConnectionAmqp.c\<close>, \<^verbatim>\<open>Transport/Amqp/AmqpFrames.c\<close>. \<open>Connection_State\<close>:
    \<^verbatim>\<open>ConnectionState.c\<close>, \<^verbatim>\<open>ConnectionStateClient.c\<close>, \<^verbatim>\<open>ConnectionStateServer.c\<close>. \<open>Machine\<close>: the tables of handlers, the
    events of the event loop, \<^verbatim>\<open>Connection.c\<close>, reachable states and traces of events.
  \<^item> \<open>Reader_Correct\<close>, \<open>Writer_Correct\<close>, \<open>Frame_Correct\<close>, \<open>Negotiation_Correct\<close>: what the reader, the writer, the reader
    of frames and the negotiation achieve over sequences of events. \<open>Connection_Invariant\<close>: an invariant of
    all reachable states. \<open>Connection_Shutdown\<close>: close, failure and timeout end with the connection halted.
    \<open>Connection_Errors\<close>: invalid frames and two defects.
  \<^item> \<open>Samples\<close>, \<open>Connection_Samples\<close>: concrete states at which the properties are instantiated.

  \<^bold>\<open>The environment.\<close> What the connection model takes from elsewhere is an argument: the record \<open>environment\<close> has
  the encoders of the frames that are sent, the decoder of the frames that arrive and the SASL plugins; the
  results of \<^verbatim>\<open>readv\<close>, \<^verbatim>\<open>sendmsg\<close> and \<^verbatim>\<open>connect\<close> and the clock are fields of the connection that the events of \<open>event_step\<close>
  fill with arbitrary values. \<open>environment_ok\<close> is the only assumption on it: the buffers of encoded frames are
  well formed.

  \<^bold>\<open>Properties.\<close> The codec: round trip, refinement of the wire format, safety on arbitrary input, errors. The
  buffer: appending, growing, io vectors. Memory: freshness, detection of overruns, pools. Values: order,
  hash, map. Connections: frames are assembled from any division of the byte stream, writes are sent once
  and in order, both sides of the negotiation agree, a writable event is safe in every reachable state,
  closing and failing end. Properties that describe a defect say so; the manifest lists them as findings.

  \<^bold>\<open>Not modelled.\<close> The generated decoders of the performatives (\<^verbatim>\<open>Transport/Decode\<close> is produced by the build) and the
  encoders of frames that depend on the same definitions; printing and tracing; the wrappers of libev,
  sockets and threads (\<^verbatim>\<open>Transport/LowLevel\<close>, \<^verbatim>\<open>Thread\<close>), whose behaviour enters as events; the list of
  accepted connections, which is protected by locks; sessions, which the code only allocates; and the test
  brokers.
\<close>

section \<open>The codec\<close>









text \<open>C16. An unknown format code is reported and not interpreted: when the first unread byte is not in the
  table of format codes, the decoder reads that one byte and returns an object whose cause of
  invalidity is the unknown format code.\<close>

theorem decode_unknown_format_code:
  assumes "readable b" and "limit_index b < limit_size b"
    and "amqp_type_meta_data_lookup (uint (byte_at b (limit_index b))) = None"
  shows "\<exists>c'. amqp_decode c b = Ret (Some (next_type c), c', b\<lparr>limit_index := limit_index b + 1\<rparr>)
    \<and> \<not> amqp_type_is_valid (types c' (next_type c))
    \<and> invalid_cause (types c' (next_type c)) = AMQP_ERROR_UNKNOWN_FORMAT_CODE"
proof -
  have get: "amqp_buffer_getc b = Ret (uint (byte_at b (limit_index b)), b\<lparr>limit_index := limit_index b + 1\<rparr>)"
    using assms by (intro getc_ok) (simp_all add: readable_def)
  show ?thesis
    using assms(2,3) unfolding amqp_decode_def decode_with_def
    by (simp add: amqp_allocate_type_def decode_type_constructor_into_result_def decode_type_constructor_def get
        decode_error_def amqp_mark_type_invalid_def type_flag_defs has_flags_other amqp_buffer_at_end_def Let_def)
qed

theorem decode_unknown_format_code_witness:
  "\<exists>c'. amqp_decode sample_context (sample_buffer [0x99, 1]) = Ret (Some 0, c', (sample_buffer [0x99, 1])\<lparr>limit_index := 1\<rparr>)
    \<and> \<not> amqp_type_is_valid (types c' 0) \<and> invalid_cause (types c' 0) = AMQP_ERROR_UNKNOWN_FORMAT_CODE"
proof -
  have "amqp_type_meta_data_lookup 0x99 = None" by code_simp
  then show ?thesis
    using decode_unknown_format_code [of "sample_buffer [0x99, 1]" sample_context] by (simp add: sample_context_def)
qed

text \<open>C17. The binary search over the table of format codes finds every code of the table and nothing else.\<close>

theorem meta_data_lookup_iff:
  "amqp_type_meta_data_lookup code = Some d \<longleftrightarrow> d \<in> set amqp_type_lookup_table \<and> uint (format_code d) = code"
  by (rule lookup_iff)

section \<open>The buffer\<close>

text \<open>C18. Integers written in network byte order are read back: after \<open>amqp_hton_64\<close> into a buffer with room for
  eight bytes, \<open>amqp_ntoh_64\<close> at the position where it wrote returns the integer, and the eight bytes
  appended are its bytes, most significant first.\<close>

theorem hton_ntoh_64:
  fixes x :: uint64
  assumes "buffer_ok b" and "limit_size b + 8 \<le> capacity b"
  shows "\<exists>b'. amqp_hton_64 b x = Ret b' \<and> contents b' = contents b @ be_bytes 8 x
    \<and> amqp_ntoh_64 b' (limit_size b) = Ret x"
proof -
  obtain b' where b': "put_list amqp_unchecked_putc b (be_bytes 8 x) = Ret b'" "appended b (be_bytes 8 x) b'"
    by (rule put_list_appended [of b "be_bytes 8 x"]) (use assms in simp_all)
  have "map (byte_at b') [limit_size b..<limit_size b + 8] = be_bytes 8 x"
    using map_overlay_hit [of "byte_at b" "limit_size b" "be_bytes 8 x"] b'(2) by (simp add: appended_def)
  moreover have "buffer_ok b'" "limit_size b + 8 \<le> capacity b'" using b'(2) assms(2) by (simp_all add: appended_def)
  ultimately have "amqp_ntoh_64 b' (limit_size b) = Ret x" using ntoh_ok(3) [of b' "limit_size b"] by (simp add: word_of_be_bytes)
  then show ?thesis using b' appended_contents [OF b'(2)] by (auto simp: hton_put_list)
qed

theorem hton_ntoh_64_witness:
  "\<exists>b'. amqp_hton_64 (sample_buffer [9]) 0x0102030405060708 = Ret b'
    \<and> contents b' = contents (sample_buffer [9]) @ be_bytes 8 (0x0102030405060708 :: uint64)
    \<and> amqp_ntoh_64 b' 1 = Ret 0x0102030405060708"
  using hton_ntoh_64 [of "sample_buffer [9]" "0x0102030405060708"] by simp

text \<open>C19. \<open>amqp_buffer_puts\<close> appends a run of bytes across fragment boundaries: when there is room and one
  byte to spare it returns the length and the contents of the buffer are extended by exactly the run.\<close>

theorem buffer_puts_appends:
  assumes "buffer_ok b" and "limit_size b + length cs < capacity b"
  shows "\<exists>b'. amqp_buffer_puts b cs = Ret (length cs, b') \<and> buffer_ok b' \<and> contents b' = contents b @ cs"
  using puts_appended [OF assms] appended_contents by (metis appended_def)

theorem buffer_puts_appends_witness:
  "\<exists>b'. amqp_buffer_puts (sample_buffer [1]) [2, 3] = Ret (2, b') \<and> buffer_ok b' \<and> contents b' = contents (sample_buffer [1]) @ [2, 3]"
  using buffer_puts_appends [of "sample_buffer [1]" "[2, 3]"] by (simp add: eval_nat_numeral)

text \<open>C20. A run that fits exactly is dropped: \<open>amqp_buffer_puts\<close> compares with \<open>>=\<close>, so a run that would fill the
  capacity to the last byte is refused with the result 0 and the buffer is left as it was, although
  \<open>amqp_buffer_check_free_space\<close> says that there is room.\<close>

theorem buffer_puts_exact_fit_dropped:
  assumes "buffer_ok b" and "limit_size b + length cs = capacity b"
  shows "amqp_buffer_check_free_space b (length cs) \<and> amqp_buffer_puts b cs = Ret (0, b)"
  using puts_full [OF assms] assms(2) buffer_ok_bounds(2) [OF assms(1)]
  by (simp add: amqp_buffer_check_free_space_def size_add_def)

theorem buffer_puts_exact_fit_dropped_witness:
  "amqp_buffer_check_free_space (sample_buffer [1]) 4095 \<and>
   amqp_buffer_puts (sample_buffer [1]) (replicate 4095 0) = Ret (0, sample_buffer [1])"
  using buffer_puts_exact_fit_dropped [of "sample_buffer [1]" "replicate 4095 0"] by simp

text \<open>C21. \<open>amqp_buffer_grow\<close> keeps the invariant of the buffer and its contents, and the capacity afterwards is
  at least the size asked for, up to the maximum of 65536 bytes.\<close>

theorem buffer_grow_ok:
  assumes "buffer_ok b"
  shows "buffer_ok (snd (amqp_buffer_grow b n)) \<and> contents (snd (amqp_buffer_grow b n)) = contents b
    \<and> min n AMQP_BUFFER_MAX_SIZE \<le> capacity (snd (amqp_buffer_grow b n))"
  using grow_ok [OF assms] by blast

theorem buffer_grow_ok_witness:
  "buffer_ok (snd (amqp_buffer_grow (sample_buffer [1, 2]) 5000))
    \<and> contents (snd (amqp_buffer_grow (sample_buffer [1, 2]) 5000)) = contents (sample_buffer [1, 2])
    \<and> 5000 \<le> capacity (snd (amqp_buffer_grow (sample_buffer [1, 2]) 5000))"
  using buffer_grow_ok [of "sample_buffer [1, 2]" 5000] by simp

text \<open>C22. The scatter vectors that \<open>amqp_buffer_fill_io_vec\<close> prepares for the operating system describe exactly
  the requested range of the buffer, in order, and each of them stays inside one fragment.\<close>

theorem io_vectors_cover_range:
  assumes "p + n \<le> AMQP_BUFFER_MAX_SIZE" and "p < AMQP_BUFFER_MAX_SIZE"
  shows "\<exists>vs. amqp_buffer_fill_io_vec n (p div AMQP_BUFFER_FRAGMENT_SIZE) (p mod AMQP_BUFFER_FRAGMENT_SIZE) = Ret vs
    \<and> iov_positions vs = [p..<p + n] \<and> iov_inside vs"
  using assms by (rule fill_io_vec_ok)

theorem io_vectors_cover_range_witness:
  "\<exists>vs. amqp_buffer_fill_io_vec 10000 0 100 = Ret vs \<and> iov_positions vs = [100..<10100] \<and> iov_inside vs"
  using io_vectors_cover_range [of 100 10000] by (simp del: upt_rec_numeral upt_Suc)

text \<open>C23. Copying a range out of the buffer repeats the first fragment: for a range that crosses one fragment
  boundary \<open>amqp_buffer_block_copy\<close> takes the second part from the start of the same fragment and not
  from the next one, because the fragment number is not advanced before the last copy.\<close>

theorem block_copy_repeats_fragment:
  assumes "buffer_ok b" and "start + n \<le> capacity b"
    and "AMQP_BUFFER_FRAGMENT_SIZE < start mod AMQP_BUFFER_FRAGMENT_SIZE + n"
    and "start mod AMQP_BUFFER_FRAGMENT_SIZE + n \<le> 2 * AMQP_BUFFER_FRAGMENT_SIZE"
    and "base = start div AMQP_BUFFER_FRAGMENT_SIZE * AMQP_BUFFER_FRAGMENT_SIZE"
  shows "amqp_buffer_block_copy b start n =
    Ret (map (byte_at b) [start..<base + AMQP_BUFFER_FRAGMENT_SIZE] @
         map (byte_at b) [base..<start + n - AMQP_BUFFER_FRAGMENT_SIZE])"
  using block_copy_two_fragments [OF assms(1-4)] assms(5) by simp

theorem block_copy_repeats_fragment_witness:
  "amqp_buffer_block_copy (snd (amqp_buffer_grow (sample_buffer [1, 2]) 5000)) 4095 2 =
    Ret (map (byte_at (snd (amqp_buffer_grow (sample_buffer [1, 2]) 5000))) [4095..<4096] @
         map (byte_at (snd (amqp_buffer_grow (sample_buffer [1, 2]) 5000))) [0..<1])"
  using block_copy_repeats_fragment [of "snd (amqp_buffer_grow (sample_buffer [1, 2]) 5000)" 4095 2 0]
    grow_ok(1,3) [of "sample_buffer [1, 2]" 5000] by (simp del: upt_rec_numeral upt_Suc)

section \<open>Bits, secrets and the write loop\<close>

text \<open>C24. \<open>amqp_next_power_two_64\<close> rounds up to a power of two: for every argument from 1 to
  \<open>2^63\<close> the result is the least power of two that is at least the argument.\<close>

theorem next_power_two_64:
  assumes "n \<noteq> 0" and "unat n \<le> 2 ^ 63"
  shows "least_power_of_two_ge (unat n) (unat (amqp_next_power_two_64 n))"
  using assms by (rule next_power_two_64_ok)

theorem next_power_two_64_witness:
  "least_power_of_two_ge (unat (5 :: uint64)) (unat (amqp_next_power_two_64 5))"
  by (rule next_power_two_64) simp_all





section \<open>Memory\<close>

text \<open>C27. Guarded allocation: \<open>amqp__malloc\<close> returns a block that was not in use, at least as long as asked and
  all zero, behind intact guards; every other block and the invariant of the memory are kept, and
  the count of outstanding allocations is the number of blocks.\<close>

theorem memory_malloc:
  assumes "memory_ok m" and "0 < n" and "n \<le> 2 ^ 63"
  shows "\<exists>p m' block. amqp__malloc True m n = Ret (p, m') \<and> memory_ok m' \<and> memory_blocks m p = None
    \<and> memory_blocks m' = (memory_blocks m)(p \<mapsto> block) \<and> n \<le> length (payload block)
    \<and> list_all (\<lambda>x. x = 0) (payload block)"
  using assms by (rule malloc_ok)

theorem memory_malloc_witness:
  "\<exists>p m' block. amqp__malloc True sample_memory 13 = Ret (p, m') \<and> memory_ok m' \<and> memory_blocks sample_memory p = None
    \<and> memory_blocks m' = (memory_blocks sample_memory)(p \<mapsto> block) \<and> 13 \<le> length (payload block)
    \<and> list_all (\<lambda>x. x = 0) (payload block)"
  by (rule memory_malloc) simp_all

text \<open>C28. \<open>amqp_realloc\<close> keeps the data: the new block starts with the bytes of the old one, the rest is zero, the old
  address is free unless it is the new one, and all other blocks are as they were.\<close>

theorem memory_realloc:
  assumes "memory_ok m" and "memory_blocks m p = Some block" and "0 < n" and "n \<le> 2 ^ 63"
  shows "\<exists>q m' block'. amqp_realloc True m p n = Ret (q, m') \<and> memory_ok m'
    \<and> memory_blocks m' = (memory_blocks m)(p := None, q \<mapsto> block') \<and> n \<le> length (payload block')
    \<and> (\<exists>k. payload block' = payload block @ replicate k 0)"
  using assms by (rule realloc_ok)

theorem memory_realloc_witness:
  "\<exists>q m' block'. amqp_realloc True sample_memory_1 0 100 = Ret (q, m') \<and> memory_ok m'
    \<and> memory_blocks m' = (memory_blocks sample_memory_1)(0 := None, q \<mapsto> block') \<and> 100 \<le> length (payload block')
    \<and> (\<exists>k. payload block' = payload sample_block @ replicate k 0)"
  by (rule memory_realloc) (simp_all add: sample_memory_1_def [symmetric], simp add: sample_memory_1_def)

text \<open>C29. A write past the end of a block is detected: when the eight bytes behind the payload differ from the
  guard, releasing the block stops the program instead of returning corrupt memory to the system.\<close>

theorem memory_overrun_detected:
  assumes "intact block" and "memory_blocks m p = Some (block\<lparr>block_data := payload block @ bs\<rparr>)"
    and "length bs = 8" and "bs \<noteq> le_bytes (memory_mask XOR word_of_nat (block_count block))"
  shows "amqp__free context m (Some p) = Fault Aborted"
  using assms by (rule overrun_detected)

theorem memory_overrun_detected_witness:
  "amqp__free True (sample_memory_1\<lparr>memory_blocks := [0 \<mapsto> sample_block\<lparr>block_data := payload sample_block @ replicate 8 0\<rparr>]\<rparr>) (Some 0)
     = Fault Aborted"
proof (rule memory_overrun_detected)
  show "replicate 8 0 \<noteq> le_bytes (memory_mask XOR word_of_nat (block_count sample_block))" by code_simp
qed simp_all

text \<open>C14. Everything allocated can be given back in any order: a sequence of allocations gives distinct blocks, and
  releasing them in any order succeeds and restores the set of blocks in use and the statistic from
  which the library reports leaks.\<close>

theorem memory_allocate_release:
  assumes "memory_ok m" and "list_all (\<lambda>n. 0 < n \<and> n \<le> 2 ^ 63) ns"
  shows "\<exists>ps m'. allocate_all (\<lambda>n m. amqp__malloc True m n) ns m = Ret (ps, m') \<and> distinct ps \<and>
    (\<forall>qs. distinct qs \<and> set qs = set ps \<longrightarrow>
      (\<exists>m''. release_all (\<lambda>m p. amqp__free True m (Some p)) qs m' = Ret m'' \<and> memory_ok m''
        \<and> dom (memory_blocks m'') = dom (memory_blocks m) \<and> outstanding_allocations m'' = outstanding_allocations m))"
  using assms by (rule memory.allocate_release)

theorem memory_allocate_release_witness:
  "\<exists>ps m'. allocate_all (\<lambda>n m. amqp__malloc True m n) [5, 16, 9] sample_memory = Ret (ps, m') \<and> distinct ps \<and>
    (\<forall>qs. distinct qs \<and> set qs = set ps \<longrightarrow>
      (\<exists>m''. release_all (\<lambda>m p. amqp__free True m (Some p)) qs m' = Ret m'' \<and> memory_ok m''
        \<and> dom (memory_blocks m'') = dom (memory_blocks sample_memory)
        \<and> outstanding_allocations m'' = outstanding_allocations sample_memory))"
  by (rule memory_allocate_release) simp_all

section \<open>Pools\<close>

text \<open>C30. A pool hands out objects that are not in use: after initialization for objects of up to 1992 bytes, and in
  every state that later calls reach, \<open>amqp__allocate\<close> succeeds, returns an object that no caller holds,
  and keeps the invariant of the pool (the doubly linked list of blocks, the bit masks of free slots,
  the guards and the statistics).\<close>

theorem pool_allocate:
  assumes "pool_ok (m, pool)"
  shows "\<exists>p m' pool'. amqp__allocate (m, pool) = Ret (p, m', pool') \<and> pool_ok (m', pool') \<and> p \<notin> pool_live m
    \<and> pool_live m' = insert p (pool_live m)"
  using assms by (rule allocate_ok)

theorem pool_allocate_witness:
  "\<exists>pool. amqp_initialize_pool 64 ''widgets'' = Some (Ret pool) \<and>
    (\<exists>p m' pool'. amqp__allocate (empty_pool_memory (0 :: nat), pool) = Ret (p, m', pool') \<and> pool_ok (m', pool')
      \<and> p \<notin> pool_live (empty_pool_memory (0 :: nat)) \<and> pool_live m' = insert p (pool_live (empty_pool_memory (0 :: nat))))"
proof -
  obtain pool where "amqp_initialize_pool 64 ''widgets'' = Some (Ret pool)" "pool_ok (empty_pool_memory (0 :: nat), pool)"
    using pool_initialize_ok [of 64 "''widgets''" "0 :: nat"] by auto
  then show ?thesis using pool_allocate by blast
qed

text \<open>C31. Releasing an object of a pool gives exactly its slot back: the guards are checked, the bit of its slot is
  set, a block with no object left is unlinked from the list and released, and all other objects stay
  in use.\<close>

theorem pool_deallocate:
  assumes "pool_ok (m, pool)" and "p \<in> pool_live m"
  shows "\<exists>m' pool'. amqp_deallocate (m, pool) (Some p) = Ret (m', pool') \<and> pool_ok (m', pool')
    \<and> pool_live m' = pool_live m - {p}"
  using assms by (rule deallocate_ok)

theorem pool_deallocate_witness:
  "\<exists>pool p m' pool'. amqp_initialize_pool 64 ''widgets'' = Some (Ret pool) \<and>
     amqp__allocate (empty_pool_memory (0 :: nat), pool) = Ret (p, m', pool') \<and>
    (\<exists>m'' pool''. amqp_deallocate (m', pool') (Some p) = Ret (m'', pool'') \<and> pool_ok (m'', pool'')
      \<and> pool_live m'' = pool_live m' - {p})"
proof -
  obtain pool where pool: "amqp_initialize_pool 64 ''widgets'' = Some (Ret pool)" "pool_ok (empty_pool_memory (0 :: nat), pool)"
    using pool_initialize_ok [of 64 "''widgets''" "0 :: nat"] by auto
  then obtain p m' pool' where p: "amqp__allocate (empty_pool_memory (0 :: nat), pool) = Ret (p, m', pool')"
    "pool_ok (m', pool')" "p \<in> pool_live m'"
    using allocate_ok [OF pool(2)] by auto
  show ?thesis
    by (intro exI [of _ pool] exI [of _ p] exI [of _ m'] exI [of _ pool'] conjI pool(1) p(1) pool_deallocate [OF p(2,3)])
qed

text \<open>C13. A new pool for objects of up to 1992 bytes, and any number of objects taken from it: all of them can be
  returned in any order, and then the pool is empty and its statistic is 0.\<close>

theorem pool_allocate_release:
  fixes x :: 'o
  assumes "0 < n" and "n \<le> 1992"
  shows "\<exists>pool ps m' pool'. amqp_initialize_pool n name = Some (Ret pool)
    \<and> allocate_all (\<lambda>_. amqp__allocate) (replicate k ()) (empty_pool_memory x, pool) = Ret (ps, m', pool')
    \<and> distinct ps \<and> length ps = k \<and>
    (\<forall>qs. distinct qs \<and> set qs = set ps \<longrightarrow>
      (\<exists>m'' pool''. release_all (\<lambda>s p. amqp_deallocate s (Some p)) qs (m', pool') = Ret (m'', pool'')
        \<and> pool_live m'' = {} \<and> stats_outstanding_allocations pool'' = 0))"
proof -
  obtain pool where pool: "amqp_initialize_pool n name = Some (Ret pool)" "pool_ok (empty_pool_memory x, pool)"
    "pool_live (empty_pool_memory x) = {}"
    using pool_initialize_ok [OF assms, of name x] by auto
  have zero: "stats_outstanding_allocations pool = 0" using pool.count_live [OF pool(2)] pool(3) by simp
  have valid: "list_all (\<lambda>_. True) (replicate k ())" by (simp add: list_all_iff)
  obtain ps m' pool' where ps: "allocate_all (\<lambda>_. amqp__allocate) (replicate k ()) (empty_pool_memory x, pool) = Ret (ps, m', pool')"
    "length ps = k" "distinct ps"
    using pool.allocate_all_ok [OF pool(2) valid] by auto
  have "\<exists>m'' pool''. release_all (\<lambda>s p. amqp_deallocate s (Some p)) qs (m', pool') = Ret (m'', pool'')
      \<and> pool_live m'' = {} \<and> stats_outstanding_allocations pool'' = 0" if "distinct qs \<and> set qs = set ps" for qs
    using pool.allocate_release [OF pool(2) valid] that by (auto simp: ps(1) pool(3) zero)
  then show ?thesis using pool(1) ps by auto
qed

theorem pool_allocate_release_witness:
  "\<exists>pool ps m' pool'. amqp_initialize_pool 100 ''widgets'' = Some (Ret pool)
    \<and> allocate_all (\<lambda>_. amqp__allocate) (replicate 50 ()) (empty_pool_memory (0 :: nat), pool) = Ret (ps, m', pool')
    \<and> distinct ps \<and> length ps = 50 \<and>
    (\<forall>qs. distinct qs \<and> set qs = set ps \<longrightarrow>
      (\<exists>m'' pool''. release_all (\<lambda>s p. amqp_deallocate s (Some p)) qs (m', pool') = Ret (m'', pool'')
        \<and> pool_live m'' = {} \<and> stats_outstanding_allocations pool'' = 0))"
  by (rule pool_allocate_release) simp_all



section \<open>Variable-length values\<close>

text \<open>C33. Comparison of binaries, strings and symbols is the lexicographic order of their bytes, whether the values
  are copies or lie in the first fragment of the buffer they were decoded from: the result is 0 exactly
  for equal values and negative exactly when the first comes first.\<close>

theorem variable_compare_lexicographic:
  assumes "comparable x" and "comparable y"
  shows "\<exists>r. amqp_variable_compare x y = Ret r \<and> (r = 0 \<longleftrightarrow> variable_value x = variable_value y)
    \<and> (r < 0 \<longleftrightarrow> ord_class.lexordp (variable_value x) (variable_value y))"
  using assms by (rule variable_compare_ok)

theorem variable_compare_lexicographic_witness:
  "\<exists>r. amqp_variable_compare (v (amqp_symbol_create [97, 98])) (v (amqp_symbol_create [97])) = Ret r
    \<and> (r = 0 \<longleftrightarrow> variable_value (v (amqp_symbol_create [97, 98])) = variable_value (v (amqp_symbol_create [97])))
    \<and> (r < 0 \<longleftrightarrow> ord_class.lexordp (variable_value (v (amqp_symbol_create [97, 98]))) (variable_value (v (amqp_symbol_create [97]))))"
  by (rule variable_compare_lexicographic) (simp_all add: create_comparable)

text \<open>C34. Equal values have equal hashes: a copy and a value in a buffer with the same bytes hash alike.\<close>

theorem variable_hash_respects_equality:
  assumes "comparable x" and "comparable y" and "amqp_variable_compare x y = Ret 0"
  shows "\<exists>h. amqp_variable_hash x = Ret h \<and> amqp_variable_hash y = Ret h"
proof -
  have eq: "variable_value x = variable_value y" using variable_compare_ok [OF assms(1,2)] assms(3) by auto
  then have "variable_size x = variable_size y"
    using length_variable_value [OF assms(1)] length_variable_value [OF assms(2)] by simp
  with eq show ?thesis using variable_hash_ok [OF assms(1)] variable_hash_ok [OF assms(2)] by simp
qed

theorem variable_hash_respects_equality_witness:
  "\<exists>h. amqp_variable_hash (amqp_variable_initialize_from_type (sample_buffer [97, 98]) (sample_string 0 2)) = Ret h
    \<and> amqp_variable_hash (v (amqp_symbol_create [97, 98])) = Ret h"
proof (rule variable_hash_respects_equality)
  let ?x = "amqp_variable_initialize_from_type (sample_buffer [97, 98]) (sample_string 0 2)"
  show x: "comparable ?x"
    by (simp add: comparable_def amqp_variable_initialize_from_type_def sample_string_def type_flag_defs has_flags_def)
  show y: "comparable (v (amqp_symbol_create [97, 98]))" by (simp add: create_comparable)
  have "variable_value ?x = [97, 98]"
    by (simp add: variable_value_def amqp_variable_initialize_from_type_def sample_string_def upt_rec)
  then show "amqp_variable_compare ?x (v (amqp_symbol_create [97, 98])) = Ret 0"
    using variable_compare_ok [OF x y] by (auto simp: create_comparable)
qed



text \<open>C36. Comparing a decoded value that lies past the first fragment of its buffer reads outside the fragment:
  \<open>amqp_block_compare\<close> takes the offset into the buffer for an offset into fragment 0.\<close>

theorem variable_compare_outside_fragment:
  assumes "buffer_ok b" and "amqp_type_is_variable t" and "variable_size y < 2 ^ 31" and "comparable y"
    and "0 < position_size (position t)" and "position_size (position t) < 2 ^ 31" and "0 < variable_size y"
    and "AMQP_BUFFER_FRAGMENT_SIZE < position_index (position t) + min (position_size (position t)) (variable_size y)"
  shows "amqp_variable_compare (amqp_variable_initialize_from_type b t) y = Fault BadMemory"
  using assms by (rule variable_compare_past_fragment)

theorem variable_compare_outside_fragment_witness:
  "amqp_variable_compare (amqp_variable_initialize_from_type (snd (amqp_buffer_grow (sample_buffer []) 5000)) (sample_string 4096 2))
     (v (amqp_symbol_create [97, 98])) = Fault BadMemory"
  by (rule variable_compare_outside_fragment)
    (simp_all add: grow_ok comparable_def sample_string_def type_flag_defs has_flags_def amqp_symbol_create_def
      amqp_variable_initialize_def)

text \<open>C37. A C string made from an AMQP string whose length is a multiple of eight has no terminating zero: the
  block that is allocated and filled holds exactly the characters.\<close>

theorem string_to_cstr_unterminated:
  assumes "bs \<noteq> []" and "length bs < 2 ^ 31" and "length bs mod 8 = 0"
  shows "amqp_string_to_cstr (amqp_string_create bs) = Ret (Some bs)"
  using assms by (rule to_cstr_unterminated)

theorem string_to_cstr_unterminated_witness:
  "amqp_string_to_cstr (amqp_string_create [49, 50, 51, 52, 53, 54, 55, 56]) = Ret (Some [49, 50, 51, 52, 53, 54, 55, 56])"
  by (rule string_to_cstr_unterminated) simp_all

section \<open>Hash table and descriptors\<close>

text \<open>C12. The hash table implements a finite map: putting a key that is absent adds it, putting a key that is present
  changes nothing and says so, and afterwards every key is found with the data it was first put with.\<close>

theorem hash_table_put_get:
  assumes "symbols.table_ok t" and "comparable (v k)"
  shows "\<exists>fresh t'. amqp_hash_table_put t k d = Ret (fresh, t') \<and> symbols.table_ok t'
    \<and> (fresh \<longleftrightarrow> amqp_hash_table_get t k = Ret None)
    \<and> (\<forall>k'. comparable (v k') \<longrightarrow> amqp_hash_table_get t' k' =
         (if fresh \<and> variable_value (v k') = variable_value (v k) then Ret (Some d) else amqp_hash_table_get t k'))"
proof -
  let ?m = "\<lambda>t. symbols.entries_map (entry_list t)"
  obtain t' where t': "amqp_hash_table_put t k d = Ret (?m t (variable_value (v k)) = None, t')" "symbols.table_ok t'"
    "entry_list t' = (if ?m t (variable_value (v k)) = None then (k, d) # entry_list t else entry_list t)"
    using symbols.put_ok [OF assms] by blast
  have "amqp_hash_table_get t' k' =
      (if ?m t (variable_value (v k)) = None \<and> variable_value (v k') = variable_value (v k) then Ret (Some d)
       else amqp_hash_table_get t k')" if "comparable (v k')" for k'
    using symbols.get_ok [OF t'(2) that] symbols.get_ok [OF assms(1) that] t'(3) by (simp add: symbols.entries_map_Cons)
  then show ?thesis using t'(1,2) symbols.get_ok [OF assms] by simp
qed

theorem hash_table_put_get_witness:
  "\<exists>t fresh t'. amqp_hash_table_initialize 4 amqp_symbol_hash amqp_symbol_compare = Ret t
    \<and> amqp_hash_table_put t (amqp_symbol_create [97]) (7 :: nat) = Ret (fresh, t') \<and> fresh
    \<and> amqp_hash_table_get t' (amqp_symbol_create [97]) = Ret (Some 7)"
proof -
  obtain t :: "(amqp_symbol_t, nat) amqp_hash_table_t" where t: "amqp_hash_table_initialize 4 amqp_symbol_hash amqp_symbol_compare = Ret t"
    "symbols.table_ok t" "entry_list t = []"
    using symbols.initialize_ok [of 4] by auto
  have k: "comparable (v (amqp_symbol_create [97]))" by (simp add: create_comparable)
  have "amqp_hash_table_get t (amqp_symbol_create [97]) = Ret None"
    using symbols.get_ok [OF t(2) k] t(3) by (simp add: symbols.entries_map_def)
  then show ?thesis using hash_table_put_get [OF t(2) k, of 7] k t(1) by auto
qed

text \<open>C38. Looking up a descriptor by its symbol in the table the library loads is the lookup in the static table of
  descriptors: every name of the static table is found with its entry, and nothing else is found.\<close>

theorem descriptor_lookup:
  assumes "comparable (v s)" and "variable_value (v s) = cstr_bytes name"
  shows "\<exists>t. amqp_load_descriptors = Ret t \<and> amqp_descriptor_lookup t s = Ret (map_of descriptors name)"
  using assms by (rule lookup_ok)

theorem descriptor_lookup_witness:
  "\<exists>t. amqp_load_descriptors = Ret t
    \<and> amqp_descriptor_lookup t (amqp_symbol_create (cstr_bytes ''amqp:open:list'')) = Ret (map_of descriptors ''amqp:open:list'')"
  by (rule descriptor_lookup) (simp_all add: create_comparable cstr_bytes_def)

section \<open>Connections\<close>

text \<open>C3. Frames are assembled from the byte stream. A client asks for a frame; then, however the bytes of the peer are cut into
  pieces and spread over readable events, once the last byte of a legal frame has arrived the callback for the frame is the next
  call, the buffer holds exactly the bytes of the frame, and the bytes that came after it are left for the next read. (The
  pieces that can be read at once, those of the events, and those of the event with which the frame is complete.)\<close>

theorem frame_assembly:
  assumes "frame_reader_ready c" and "legal_frame c frame" and "incoming c = map Received first"
    and "\<forall>cs \<in> set (first # css @ [last_pieces]). [] \<notin> set cs"
    and "length (concat first @ concat (concat css)) < length frame"
    and "concat first @ concat (concat css) @ concat last_pieces = frame @ extra"
  shows "\<exists>c' k left. trace env (c, [Frame_read callback]) (map readable_pieces (css @ [last_pieces])) (c', [Frame_available callback, k])
    \<and> contents (buffer_read c') = frame \<and> frame_name c' = Frame_enabled \<and> incoming c' = map Received left \<and> concat left = extra"
  using frame_assembled [OF assms, of env callback] by (auto simp: assembled_def)

theorem frame_assembly_witness:
  "\<exists>c' k left. trace sample_environment (sample_client, [Frame_read Amqp_frame_available])
      [readable_pieces [[0, 0], [0]], readable_pieces [[8, 2, 0], [0, 0, 7]]] (c', [Frame_available Amqp_frame_available, k])
    \<and> contents (buffer_read c') = [0, 0, 0, 8, 2, 0, 0, 0] \<and> frame_name c' = Frame_enabled \<and> incoming c' = map Received left \<and> concat left = [7]"
  using frame_assembly [OF sample_client_ready sample_frame, of "[]" "[[[0, 0], [0]]]" "[[8, 2, 0], [0, 0, 7]]" "[7]"
      sample_environment Amqp_frame_available]
  by (simp add: sample_client_def create_connection_def)

text \<open>C10. A read collects what was asked for. While a read is in progress, readable events may deliver the bytes in any pieces;
  at the event with which the required number has arrived the callback is called with that number, the bytes were appended to the
  buffer in the order of arrival, and no byte beyond them was taken.\<close>

theorem read_collects:
  assumes "reading n callback c" and "\<not> destroyed c" and "read_watcher c = Some True"
    and "\<forall>cs \<in> set css. [] \<notin> set cs" and "[] \<notin> set last_pieces"
    and "satisfied c + length (concat (concat css)) < n" and "n \<le> satisfied c + length (concat (concat css @ last_pieces))"
  shows "\<exists>c' left. trace env (c, []) (map readable_pieces (css @ [last_pieces])) (c', [Reader_callback callback n, Reader_delayed_read])
    \<and> contents (buffer_read c') = contents (buffer_read c) @ take (n - satisfied c) (concat (concat css @ last_pieces))
    \<and> incoming c' = map Received left \<and> concat left = drop (n - satisfied c) (concat (concat css @ last_pieces))"
  using reads_over_events [OF assms, of env] by (auto dest: appended_contents)

theorem read_collects_witness:
  "\<exists>c' left. trace sample_environment (sample_reading, []) (map readable_pieces ([[[1, 2], [3]]] @ [[[4, 5], [6, 7, 8, 9]]]))
      (c', [Reader_callback Frame_read_complete 8, Reader_delayed_read])
    \<and> contents (buffer_read c') = contents (buffer_read sample_reading) @ take (8 - satisfied sample_reading) [1, 2, 3, 4, 5, 6, 7, 8, 9]
    \<and> incoming c' = map Received left \<and> concat left = drop (8 - satisfied sample_reading) [1, 2, 3, 4, 5, 6, 7, 8, 9]"
  using read_collects [OF sample_reading_ok, of "[[[1, 2], [3]]]" "[[4, 5], [6, 7, 8, 9]]" sample_environment]
  by (simp add: sample_reading_def sample_client_def create_connection_def)

text \<open>C8. What is written is sent, once and in order. An idle writer is given a buffer and the system takes any number of bytes
  per call, at once and on any number of writable events; when it has taken as many as the buffer holds, exactly the bytes of the
  buffer have gone out behind what was sent before, and the writer is idle with an empty queue.\<close>

theorem write_sends_buffer:
  assumes "writer_idle c" and "sendable b" and "write_results c = map Sent first"
    and "sum_list (concat (butlast (first # kss))) < length (unread b)" and "length (unread b) \<le> sum_list (concat (first # kss))"
  shows "\<exists>c'. trace env (c, [Writer_write b]) (map writable kss) (c', [])
    \<and> writer_name c' = Writer_enabled \<and> outgoing c' = outgoing c @ unread b
    \<and> queue_start c' = queue_end c' \<and> buffer_queue c' = replicate AMQP_WRITE_QUEUE_SIZE None"
  by (rule buffer_sent [OF assms])

theorem write_sends_buffer_witness:
  "\<exists>c'. trace sample_environment (sample_client\<lparr>write_results := map Sent [3]\<rparr>, [Writer_write sample_header]) (map writable [[0, 2], [9]]) (c', [])
    \<and> writer_name c' = Writer_enabled \<and> outgoing c' = outgoing (sample_client\<lparr>write_results := map Sent [3]\<rparr>) @ unread sample_header
    \<and> queue_start c' = queue_end c' \<and> buffer_queue c' = replicate AMQP_WRITE_QUEUE_SIZE None"
proof (rule write_sends_buffer [where first = "[3]"])
  show "writer_idle (sample_client\<lparr>write_results := map Sent [3]\<rparr>)" using sample_client_idle by (simp add: writer_idle_def)
qed (simp_all add: sendable_def sample_header_ok)



text \<open>C9. Both sides of the negotiation come to the same conclusion. A broker that reads the protocol header of a client answers
  with a header; the client, when it reads that answer, goes on with the version it had asked for exactly when the broker has
  accepted it, and otherwise is told the version that the broker offered instead.\<close>

theorem negotiation_agreement:
  assumes "server_waiting d" and "header_at (buffer_read d) (version_header version)"
    and "amqp_version_protocol_id version \<noteq> AMQP_TLS_PROTOCOL_ID"
    and "client_waiting version confirm reject c" and "header_at (buffer_read c) (version_header (server_reply d version))"
  shows "\<exists>b c' d'. (step env)\<^sup>*\<^sup>* (d, [Reader_callback Negotiator_read_complete 8]) (d', [Writer_write b, Negotiator_sent])
    \<and> unread b = version_header (server_reply d version)
    \<and> (if connection_name d' = Sending_error_message
       then step env' (c, [Reader_callback Negotiator_read_complete 8]) (c', [Handshake_reject reject (server_reply d version)])
       else step env' (c, [Reader_callback Negotiator_read_complete 8]) (c', [Confirm confirm]))"
proof -
  obtain d' b where d: "(step env)\<^sup>*\<^sup>* (d, [Reader_callback Negotiator_read_complete 8]) (d', [Writer_write b, Negotiator_sent])"
    "unread b = version_header (server_reply d version)" "connection_name d' = Sending_error_message \<longleftrightarrow> server_reply d version \<noteq> version"
    using server_replies [OF assms(1-3), of env "[]"] by auto
  obtain c' where "step env' (c, [Reader_callback Negotiator_read_complete 8])
      (c', [if server_reply d version = version then Confirm confirm else Handshake_reject reject (server_reply d version)])"
    by (rule client_decides [OF assms(4,5), of env' "[]"])
  then show ?thesis using d by (intro exI [of _ b] exI [of _ c'] exI [of _ d']) auto
qed

theorem negotiation_agreement_witness:
  "\<exists>b c' d'. (step sample_environment)\<^sup>*\<^sup>* (sample_broker, [Reader_callback Negotiator_read_complete 8]) (d', [Writer_write b, Negotiator_sent])
    \<and> unread b = version_header (server_reply sample_broker 0x00010000)
    \<and> (if connection_name d' = Sending_error_message
       then step sample_environment (sample_negotiating, [Reader_callback Negotiator_read_complete 8])
              (c', [Handshake_reject Amqp_version_rejected (server_reply sample_broker 0x00010000)])
       else step sample_environment (sample_negotiating, [Reader_callback Negotiator_read_complete 8]) (c', [Confirm Amqp_version_accepted]))"
proof (rule negotiation_agreement [OF sample_broker_waiting _ _ sample_negotiating_waiting])
  show "header_at (buffer_read sample_broker) (version_header 0x00010000)" using sample_header_at by (simp add: sample_broker_def)
  have "server_reply sample_broker 0x00010000 = 0x00010000"
    by (simp add: server_reply_def sample_broker_def create_connection_def amqp_version_protocol_id_def)
  then show "header_at (buffer_read sample_negotiating) (version_header (server_reply sample_broker 0x00010000))"
    using sample_header_at by (simp add: sample_negotiating_def)
qed (simp add: amqp_version_protocol_id_def)



text \<open>C11. The calls that a failure sets off come to an end. When an established connection of a client fails, or its shutdown
  times out, running the calls with enough fuel returns, and the connection is halted once with its resources released.\<close>

theorem failure_ends:
  assumes "stoppable c"
    and "k = Connection_fail \<and> fails_by_default (connection_name c)
      \<or> k = Connection_timeout \<and> timeout_pointer c \<in> {Timeout_while_stopping_output, Timeout_while_draining_input}"
  shows "\<exists>n c'. run_calls n env [k] c = Ret c' \<and> halted c c'"
proof -
  obtain c' where "(step env)\<^sup>*\<^sup>* (c, [k]) (c', [])" "halted c c'"
    using fail_halts [OF assms(1), of env] timeout_halts [OF assms(1), of env] assms(2) by blast
  then show ?thesis using steps_run_calls [of env "(c, [k])" "(c', [])"] by auto
qed

theorem failure_ends_witness: "\<exists>n c'. run_calls n sample_environment [Connection_fail] sample_client = Ret c' \<and> halted sample_client c'"
  by (rule failure_ends [OF sample_client_stoppable(1)]) (simp add: fails_by_default_def sample_client_def create_connection_def)



text \<open>C39. The end of an accepted connection uses memory that was given back. When the socket of an accepted connection has been
  shut down, \<open>connection_halt\<close> confirms the shutdown, which destroys the connection, and then looks for a hook in it.\<close>

theorem accepted_connection_used_after_free:
  assumes "\<not> destroyed c" and "accept_handler_arguments c" and "connection_name c = Stopping"
    and "data_word c \<in> {amqp_cs_complete_write_drain_input_and_close_socket, amqp_cs_complete_write_and_close_socket,
      amqp_cs_close_socket, amqp_cs_abort_socket}"
  shows "run_calls (5 + n) env (Connection_done # ks) c = Fault BadMemory"
  by (rule accepted_done_faults [OF assms])

theorem accepted_connection_used_after_free_witness:
  "run_calls (5 + 0) sample_environment [Connection_done]
     ((create_connection 4096)\<lparr>connection_name := Stopping, accept_handler_arguments := True, data_word := amqp_cs_abort_socket\<rparr>) = Fault BadMemory"
  by (rule accepted_connection_used_after_free) (simp_all add: create_connection_def)

text \<open>C40. An error while the client sends its protocol header runs into an assertion. The failure is handled, up to the
  read that drains the input, inside the call that writes the header; when it returns, the negotiator starts its own read.\<close>

theorem header_write_error_asserts:
  assumes "\<not> destroyed c" and "connection_name c \<in> {Connecting_sasl, Connecting_amqp}" and "negotiator_name c = Negotiator_initialized"
    and "writer_idle c" and "write_results c = [Write_error e]"
    and "reader_name c = Reader_enabled" and "read_watcher c \<noteq> None" and "buffer_ok (buffer_read c)" and "incoming c = []"
  shows "\<exists>c' k ks. (step env)\<^sup>*\<^sup>* (c, [Negotiator_start version confirm reject]) (c', k # ks) \<and> handle env k c' = Fault AssertFailed"
  by (rule header_write_error [OF assms])

theorem header_write_error_asserts_witness:
  "\<exists>c' k ks. (step sample_environment)\<^sup>*\<^sup>*
      (sample_client\<lparr>connection_name := Connecting_amqp, write_results := [Write_error 32]\<rparr>,
       [Negotiator_start 0x00010000 Amqp_version_accepted Amqp_version_rejected]) (c', k # ks)
    \<and> handle sample_environment k c' = Fault AssertFailed"
proof (rule header_write_error_asserts)
  show "writer_idle (sample_client\<lparr>connection_name := Connecting_amqp, write_results := [Write_error 32]\<rparr>)"
    using sample_client_idle by (simp add: writer_idle_def)
qed (simp_all add: sample_client_def create_connection_def)

end
